(* ===== verification/DapPrelude.thy ===== *)
theory DapPrelude imports Main "HOL-Library.AList" begin

text \<open>
  Shared ground of the development: the named collections the component proofs simplify
  with, the width of the signed 64-bit integers the protocol counts with, generic lemmas
  on lists, association lists and finite maps, and the interfaces components with a state
  share: a machine whose steps keep an invariant, progress towards a goal under a fair
  schedule, and a registry of entries found by their id.
\<close>

named_theorems json_simps "access laws of the JSON value type"
named_theorems text_simps "laws of the string operations"
named_theorems mux_simps "frame laws of the multiplexer operations"

section \<open>Signed 64-bit integers\<close>

text \<open>
  Rust's \<open>i64\<close> as an unbounded integer and the range it must stay in. \<open>wrap_i64\<close> is the
  wrap-around of \<open>AtomicI64::fetch_add\<close>, \<open>wrap_u64\<close> that of an unsigned counter.
\<close>

definition i64_max :: int where
  "i64_max = 2 ^ 63 - 1"

definition in_i64 :: "int \<Rightarrow> bool" where
  "in_i64 n \<longleftrightarrow> - (2 ^ 63) \<le> n \<and> n \<le> 2 ^ 63 - 1"

definition in_u64 :: "int \<Rightarrow> bool" where
  "in_u64 n \<longleftrightarrow> 0 \<le> n \<and> n \<le> 2 ^ 64 - 1"

definition wrap_i64 :: "int \<Rightarrow> int" where
  "wrap_i64 n = (n + 2 ^ 63) mod 2 ^ 64 - 2 ^ 63"

definition wrap_u64 :: "int \<Rightarrow> int" where
  "wrap_u64 n = n mod 2 ^ 64"

lemma wrap_u64_range: "in_u64 (wrap_u64 n)"
proof -
  have "0 \<le> n mod 2 ^ 64" "n mod 2 ^ 64 < 2 ^ 64" by (simp, rule pos_mod_bound) simp
  then show ?thesis by (simp add: in_u64_def wrap_u64_def)
qed

lemma wrap_i64_id: "in_i64 n \<Longrightarrow> wrap_i64 n = n"
  by (simp add: in_i64_def wrap_i64_def)

lemma wrap_i64_range: "in_i64 (wrap_i64 n)"
proof -
  have "0 \<le> (n + 2 ^ 63) mod 2 ^ 64" by simp
  moreover have "(n + 2 ^ 63) mod 2 ^ 64 < 2 ^ 64" by (rule pos_mod_bound) simp
  ultimately show ?thesis by (simp add: in_i64_def wrap_i64_def)
qed

lemma wrap_i64_succ: "0 \<le> n \<Longrightarrow> n < i64_max \<Longrightarrow> wrap_i64 (n + 1) = n + 1"
  by (rule wrap_i64_id) (simp add: in_i64_def i64_max_def)

section \<open>Lists and finite maps\<close>

lemma filter_neq_map_fst:
  "map fst (filter (\<lambda>p. fst p \<noteq> k) m) = filter (\<lambda>x. x \<noteq> k) (map fst m)"
  by (induction m) auto

lemma map_of_filter_neq: "map_of (filter (\<lambda>p. fst p \<noteq> k) m) = (map_of m)(k := None)"
  by (induction m) (auto simp: fun_eq_iff)

lemma map_of_append_fresh:
  "k \<notin> fst ` set m \<Longrightarrow> map_of (m @ [(k, v)]) = (map_of m)(k \<mapsto> v)"
  by (induction m) (auto simp: fun_eq_iff)

lemma map_of_map_snd:
  "map_of (map (\<lambda>(k, v). (k, f k v)) m) k = map_option (f k) (map_of m k)"
  by (induction m) auto

lemma find_append: "find P (xs @ ys) = (case find P xs of None \<Rightarrow> find P ys | Some x \<Rightarrow> Some x)"
  by (induction xs) auto

lemma find_filter_skip:
  "(\<And>x. P x \<Longrightarrow> Q x) \<Longrightarrow> find P (filter Q xs) = find P xs"
  by (induction xs) auto

lemma find_filter_none: "(\<And>x. P x \<Longrightarrow> \<not> Q x) \<Longrightarrow> find P (filter Q xs) = None"
  by (auto simp: find_None_iff)

lemma find_mem: "find P xs = Some x \<Longrightarrow> x \<in> set xs \<and> P x"
  by (induction xs) (auto split: if_splits)

lemma find_split: "P x \<Longrightarrow> \<forall>u \<in> set us. \<not> P u \<Longrightarrow> find P (us @ x # vs) = Some x"
  by (induction us) auto

lemma map_filter_concat:
  "List.map_filter f xs = concat (map (\<lambda>x. case f x of Some y \<Rightarrow> [y] | None \<Rightarrow> []) xs)"
  by (induction xs) (auto simp: List.map_filter_def split: option.splits)

lemma map_filter_cong:
  "xs = ys \<Longrightarrow> (\<And>x. x \<in> set ys \<Longrightarrow> f x = g x) \<Longrightarrow> List.map_filter f xs = List.map_filter g ys"
  by (simp add: map_filter_concat cong: map_cong)

lemma length_filter_less_mem: "x \<in> set xs \<Longrightarrow> \<not> P x \<Longrightarrow> length (filter P xs) < length xs"
  by (rule length_filter_less)

text \<open>
  A \<open>HashMap\<close> as an association list whose order stands for the map's unspecified iteration
  order: lookup, insertion and removal are the library's, with their laws under one name.
\<close>

type_synonym ('k, 'v) hmap = "('k \<times> 'v) list"

abbreviation hm_get :: "('k, 'v) hmap \<Rightarrow> 'k \<Rightarrow> 'v option" where
  "hm_get m k \<equiv> map_of m k"

abbreviation hm_insert :: "'k \<Rightarrow> 'v \<Rightarrow> ('k, 'v) hmap \<Rightarrow> ('k, 'v) hmap" where
  "hm_insert \<equiv> AList.update"

abbreviation hm_remove :: "'k \<Rightarrow> ('k, 'v) hmap \<Rightarrow> ('k, 'v) hmap" where
  "hm_remove \<equiv> AList.delete"

abbreviation hm_keys :: "('k, 'v) hmap \<Rightarrow> 'k list" where
  "hm_keys m \<equiv> map fst m"

lemma hm_get_insert [simp]: "hm_get (hm_insert k v m) = (hm_get m)(k \<mapsto> v)"
  by (rule update_conv')

lemma hm_get_remove [simp]: "hm_get (hm_remove k m) = (hm_get m)(k := None)"
  by (rule delete_conv')

lemma hm_distinct_insert [intro]: "distinct (hm_keys m) \<Longrightarrow> distinct (hm_keys (hm_insert k v m))"
  by (rule distinct_update)

lemma hm_distinct_remove [intro]: "distinct (hm_keys m) \<Longrightarrow> distinct (hm_keys (hm_remove k m))"
  by (rule distinct_delete)

lemma hm_get_retain:
  "distinct (hm_keys m) \<Longrightarrow>
     hm_get (filter (\<lambda>(k, v). P k v) m) k =
       (case hm_get m k of Some v \<Rightarrow> if P k v then Some v else None | None \<Rightarrow> None)"
  by (induction m) (auto split: option.splits dest: map_of_SomeD intro: rev_image_eqI)

lemma hm_get_map_values: "hm_get (map (\<lambda>(k, v). (k, f v)) m) k = map_option f (hm_get m k)"
  by (induction m) auto

lemma hm_keys_map_values [simp]: "hm_keys (map (\<lambda>(k, v). (k, f v)) m) = hm_keys m"
  by (induction m) auto

lemma hm_fst_comp_values [simp]: "map (fst \<circ> (\<lambda>(k, v). (k, f v))) m = hm_keys m"
  by (induction m) auto

lemma hm_distinct_retain: "distinct (hm_keys m) \<Longrightarrow> distinct (hm_keys (filter P m))"
  by (induction m) auto

section \<open>Machines that keep an invariant\<close>

text \<open>
  A component's state, the events it handles, the condition the environment meets when it
  raises an event, and the invariant every handler keeps. The client of the interface runs
  a whole sequence of events.
\<close>

fun ok_run :: "('s \<Rightarrow> 'e \<Rightarrow> 's) \<Rightarrow> ('s \<Rightarrow> 'e \<Rightarrow> bool) \<Rightarrow> 's \<Rightarrow> 'e list \<Rightarrow> bool" where
  "ok_run step ok s [] = True"
| "ok_run step ok s (e # es) = (ok s e \<and> ok_run step ok (step s e) es)"

lemma ok_run_trivial [simp]: "ok_run step (\<lambda>_ _. True) s es"
  by (induction es arbitrary: s) auto

locale guarded_machine =
  fixes start :: 's
    and step :: "'s \<Rightarrow> 'e \<Rightarrow> 's"
    and ok :: "'s \<Rightarrow> 'e \<Rightarrow> bool"
    and good :: "'s \<Rightarrow> bool"
  assumes good_start: "good start"
    and good_step: "good s \<Longrightarrow> ok s e \<Longrightarrow> good (step s e)"
begin

lemma good_run: "good s \<Longrightarrow> ok_run step ok s es \<Longrightarrow> good (foldl step s es)"
  by (induction es arbitrary: s) (auto intro: good_step)

lemma good_reached: "ok_run step ok start es \<Longrightarrow> good (foldl step start es)"
  using good_start by (rule good_run)

end

section \<open>Progress under a fair schedule\<close>

text \<open>
  A schedule is an endless sequence of events. While a system is on its way no event leads it away or
  lengthens what is left, and the events that help shorten it, so a schedule in which helping events
  never stop coming leads to the goal.
\<close>

locale fair_progress =
  fixes step :: "'s \<Rightarrow> 'e \<Rightarrow> 's"
    and ok :: "'s \<Rightarrow> bool"
    and helps :: "'e \<Rightarrow> bool"
    and on_way :: "'s \<Rightarrow> bool"
    and goal :: "'s \<Rightarrow> bool"
    and left :: "'s \<Rightarrow> nat"
  assumes keeps: "on_way s \<Longrightarrow> ok s \<Longrightarrow> goal (step s e) \<or> on_way (step s e) \<and> left (step s e) \<le> left s"
    and advances: "on_way s \<Longrightarrow> ok s \<Longrightarrow> helps e \<Longrightarrow> goal (step s e) \<or> left (step s e) < left s"
begin

lemma waits:
  assumes run: "\<And>n. s (Suc n) = step (s n) (f n)" and ok: "\<And>n. n0 \<le> n \<Longrightarrow> ok (s n)" and way: "on_way (s n0)"
  shows "(\<exists>m. n0 < m \<and> m \<le> n0 + d \<and> goal (s m)) \<or> on_way (s (n0 + d)) \<and> left (s (n0 + d)) \<le> left (s n0)"
proof (induction d)
  case (Suc d)
  show ?case
  proof (cases "\<exists>m. n0 < m \<and> m \<le> n0 + d \<and> goal (s m)")
    case False
    then have way: "on_way (s (n0 + d))" "left (s (n0 + d)) \<le> left (s n0)" using Suc by blast+
    from keeps [OF way(1) ok, of "f (n0 + d)"] way(2) run [of "n0 + d"] show ?thesis
      by (metis add_Suc_right le_add1 le_trans less_add_Suc1 order_refl)
  qed (metis add_Suc_right le_SucI)
qed (simp add: way)

lemma eventually_goal:
  assumes run: "\<And>n. s (Suc n) = step (s n) (f n)" and ok: "\<And>n. n0 \<le> n \<Longrightarrow> ok (s n)"
    and fair: "\<And>n. \<exists>m. n \<le> m \<and> helps (f m)" and way: "on_way (s n0)"
  shows "\<exists>m. n0 < m \<and> goal (s m)"
  using ok way
proof (induction "left (s n0)" arbitrary: n0 rule: less_induct)
  case less
  obtain m where m: "n0 \<le> m" "helps (f m)" using fair by blast
  then obtain d where d: "m = n0 + d" using le_Suc_ex by blast
  from waits [where s = s and f = f and d = d, OF run less.prems] show ?case
  proof
    assume way: "on_way (s (n0 + d)) \<and> left (s (n0 + d)) \<le> left (s n0)"
    have step: "s (Suc m) = step (s m) (f m)" by (rule run)
    have okm: "ok (s m)" using less.prems(1) m(1) by simp
    from advances [of "s m" "f m"] keeps [of "s m" "f m"] way okm m(2) d step
    have "goal (s (Suc m)) \<or> on_way (s (Suc m)) \<and> left (s (Suc m)) < left (s n0)" by fastforce
    then show ?thesis
    proof
      assume "on_way (s (Suc m)) \<and> left (s (Suc m)) < left (s n0)"
      then have "\<exists>x. Suc m < x \<and> goal (s x)" using less.hyps [of "Suc m"] less.prems(1) m(1) by simp
      then show ?thesis using m(1) by (meson le_less_trans less_trans lessI)
    qed (use m(1) in \<open>auto intro: exI [of _ "Suc m"]\<close>)
  qed auto
qed

text \<open>The turn that reaches the goal first starts on the way.\<close>

lemma first_goal:
  assumes run: "\<And>n. s (Suc n) = step (s n) (f n)" and ok: "\<And>n. n0 \<le> n \<Longrightarrow> ok (s n)"
    and fair: "\<And>n. \<exists>m. n \<le> m \<and> helps (f m)" and way: "on_way (s n0)"
  shows "\<exists>m. n0 \<le> m \<and> on_way (s m) \<and> goal (s (Suc m))"
proof -
  let ?P = "\<lambda>d. goal (s (n0 + Suc d))"
  obtain m where m: "n0 < m" "goal (s m)" using eventually_goal [where s = s and f = f, OF run ok fair way] by blast
  then have "?P (m - Suc n0)" by simp
  then have first: "?P (LEAST d. ?P d)" by (rule LeastI [of ?P])
  let ?d = "LEAST d. ?P d"
  have "\<not> (\<exists>k. n0 < k \<and> k \<le> n0 + ?d \<and> goal (s k))"
  proof
    assume "\<exists>k. n0 < k \<and> k \<le> n0 + ?d \<and> goal (s k)"
    then obtain k where k: "n0 < k" "k \<le> n0 + ?d" "goal (s k)" by blast
    then have "?P (k - Suc n0)" "k - Suc n0 < ?d" by auto
    then show False using not_less_Least [of "k - Suc n0" ?P] by blast
  qed
  then have "on_way (s (n0 + ?d))"
    using waits [where s = s and f = f and d = ?d, OF run ok way] by blast
  then show ?thesis using first by (intro exI [of _ "n0 + ?d"]) simp
qed

end

section \<open>Registries\<close>

text \<open>
  The contract the three registries of the code share: entries carry an id, \<open>get\<close> finds an
  entry by it, and a state reached through the registry's operations holds each id once.
\<close>

locale registry =
  fixes entries :: "'r \<Rightarrow> 'm list"
    and key :: "'m \<Rightarrow> 'k"
    and lookup :: "'r \<Rightarrow> 'k \<Rightarrow> 'm option"
  assumes lookup_find: "lookup r k = find (\<lambda>m. key m = k) (entries r)"
begin

definition well_keyed :: "'r \<Rightarrow> bool" where
  "well_keyed r \<longleftrightarrow> distinct (map key (entries r))"

lemma lookup_key: "lookup r k = Some m \<Longrightarrow> key m = k \<and> m \<in> set (entries r)"
  by (auto simp: lookup_find dest: find_mem)

lemma lookup_mem: "well_keyed r \<Longrightarrow> m \<in> set (entries r) \<Longrightarrow> lookup r (key m) = Some m"
proof -
  assume wk: "well_keyed r" and m: "m \<in> set (entries r)"
  from m obtain us vs where split: "entries r = us @ m # vs" by (meson split_list)
  from wk have "\<forall>u \<in> set us. key u \<noteq> key m"
    unfolding well_keyed_def split by (auto simp: image_iff)
  then show ?thesis unfolding lookup_find split by (simp add: find_split)
qed

lemma lookup_none: "lookup r k = None \<longleftrightarrow> k \<notin> key ` set (entries r)"
  by (auto simp: lookup_find find_None_iff)

end

text \<open>A registry where registering an entry always succeeds and replaces one of the same id.\<close>

locale upsert_registry = registry entries key lookup
  for entries :: "'r \<Rightarrow> 'm list" and key :: "'m \<Rightarrow> 'k" and lookup :: "'r \<Rightarrow> 'k \<Rightarrow> 'm option" +
  fixes put :: "'r \<Rightarrow> 'm \<Rightarrow> 'r"
    and inv :: "'r \<Rightarrow> bool"
  assumes inv_keyed: "inv r \<Longrightarrow> distinct (map key (entries r))"
    and put_set: "inv r \<Longrightarrow> set (entries (put r m)) = insert m {x \<in> set (entries r). key x \<noteq> key m}"
    and put_inv: "inv r \<Longrightarrow> inv (put r m)"
begin

lemma inv_well_keyed: "inv r \<Longrightarrow> well_keyed r"
  by (simp add: well_keyed_def inv_keyed)

lemma lookup_put:
  assumes "inv r"
  shows "lookup (put r m) = (lookup r)(key m \<mapsto> m)"
proof
  fix k
  have wk: "well_keyed (put r m)" using assms by (intro inv_well_keyed put_inv)
  have mem: "set (entries (put r m)) = insert m {x \<in> set (entries r). key x \<noteq> key m}"
    using assms by (rule put_set)
  show "lookup (put r m) k = ((lookup r)(key m \<mapsto> m)) k"
  proof (cases "k = key m")
    case True
    then show ?thesis using lookup_mem [OF wk, of m] mem by simp
  next
    case False
    show ?thesis
    proof (cases "lookup r k")
      case None
      with False mem have "k \<notin> key ` set (entries (put r m))" by (auto simp: lookup_none)
      then show ?thesis using None False by (simp add: lookup_none [symmetric])
    next
      case (Some x)
      then have x: "key x = k" "x \<in> set (entries r)" by (auto dest: lookup_key)
      with False mem have "x \<in> set (entries (put r m))" by auto
      then show ?thesis using lookup_mem [OF wk, of x] x Some False by simp
    qed
  qed
qed

lemma put_invs: "inv r \<Longrightarrow> inv (foldl put r ms)"
  by (induction ms arbitrary: r) (auto intro: put_inv)

lemma lookup_puts:
  "inv r \<Longrightarrow> lookup (foldl put r ms) k =
     (case find (\<lambda>m. key m = k) (rev ms) of Some m \<Rightarrow> Some m | None \<Rightarrow> lookup r k)"
proof (induction ms rule: rev_induct)
  case Nil
  show ?case by simp
next
  case (snoc m ms)
  then show ?case by (simp add: lookup_put [OF put_invs])
qed

end

end
