(* ===== verification/DapText.thy ===== *)
theory DapText imports DapPrelude "HOL-Library.Sublist" begin

text \<open>
  Rust's \<open>str\<close> as the list of its UTF-8 bytes, one \<open>char\<close> per byte, and the operations of
  the standard library the code uses on it: whitespace trimming, splitting, searching,
  integer parsing and printing, and the file name of a Unix path. \<open>starts_with\<close>,
  \<open>ends_with\<close> and \<open>contains\<close> are the library's \<open>prefix\<close>, \<open>suffix\<close> and \<open>sublist\<close>.
\<close>

abbreviation starts_with :: "string \<Rightarrow> string \<Rightarrow> bool" where
  "starts_with s p \<equiv> prefix p s"

abbreviation ends_with :: "string \<Rightarrow> string \<Rightarrow> bool" where
  "ends_with s p \<equiv> suffix p s"

abbreviation str_contains :: "string \<Rightarrow> string \<Rightarrow> bool" where
  "str_contains s p \<equiv> sublist p s"

section \<open>Whitespace\<close>

text \<open>The UTF-8 encodings of the characters with Unicode's \<open>White_Space\<close> property.\<close>

definition ws_seqs :: "string list" where
  "ws_seqs = map (\<lambda>c. [c]) [CHR 0x09, CHR 0x0A, CHR 0x0B, CHR 0x0C, CHR 0x0D, CHR 0x20]
     @ [[CHR 0xC2, CHR 0x85], [CHR 0xC2, CHR 0xA0], [CHR 0xE1, CHR 0x9A, CHR 0x80]]
     @ map (\<lambda>c. [CHR 0xE2, CHR 0x80, c])
         [CHR 0x80, CHR 0x81, CHR 0x82, CHR 0x83, CHR 0x84, CHR 0x85, CHR 0x86, CHR 0x87,
          CHR 0x88, CHR 0x89, CHR 0x8A, CHR 0xA8, CHR 0xA9, CHR 0xAF]
     @ [[CHR 0xE2, CHR 0x81, CHR 0x9F], [CHR 0xE3, CHR 0x80, CHR 0x80]]"

fun drop_seq :: "string list \<Rightarrow> string \<Rightarrow> string option" where
  "drop_seq [] s = None"
| "drop_seq (w # ws) s = (if w \<noteq> [] \<and> prefix w s then Some (drop (length w) s) else drop_seq ws s)"

lemma drop_seq_shorter: "drop_seq ws s = Some t \<Longrightarrow> length t < length s"
  by (induction ws) (auto simp: prefix_def split: if_splits)

function strip_seqs :: "string list \<Rightarrow> string \<Rightarrow> string" where
  "strip_seqs ws s = (case drop_seq ws s of None \<Rightarrow> s | Some t \<Rightarrow> strip_seqs ws t)"
  by pat_completeness auto
termination
  by (relation "measure (\<lambda>(ws, s). length s)") (auto dest: drop_seq_shorter)

declare strip_seqs.simps [simp del]

definition trim_start :: "string \<Rightarrow> string" where
  "trim_start s = strip_seqs ws_seqs s"

definition trim_end :: "string \<Rightarrow> string" where
  "trim_end s = rev (strip_seqs (map rev ws_seqs) (rev s))"

definition trim :: "string \<Rightarrow> string" where
  "trim s = trim_end (trim_start s)"

lemma strip_seqs_fix: "drop_seq ws s = None \<Longrightarrow> strip_seqs ws s = s"
  by (simp add: strip_seqs.simps)

lemma drop_seq_none: "\<forall>w \<in> set ws. \<not> (w \<noteq> [] \<and> prefix w s) \<Longrightarrow> drop_seq ws s = None"
  by (induction ws) auto

lemma strip_seqs_suffix: "suffix (strip_seqs ws s) s"
proof (induction ws s rule: strip_seqs.induct)
  case (1 ws s)
  show ?case
  proof (cases "drop_seq ws s")
    case None
    then show ?thesis by (simp add: strip_seqs_fix)
  next
    case (Some t)
    then have "suffix t s" by (induction ws) (auto simp: suffix_drop split: if_splits)
    with "1"[OF Some] Some show ?thesis
      by (simp add: strip_seqs.simps [of ws s])
  qed
qed

text \<open>Bytes that begin no whitespace character, and bytes that end none.\<close>

definition solid :: "char \<Rightarrow> bool" where
  "solid c \<longleftrightarrow> (\<forall>w \<in> set ws_seqs. c \<noteq> hd w \<and> c \<noteq> last w)"

lemma ws_seqs_nonempty: "w \<in> set ws_seqs \<Longrightarrow> w \<noteq> []"
  by (auto simp: ws_seqs_def)

lemma trim_start_Nil [simp, text_simps]: "trim_start [] = []"
  by (simp add: trim_start_def strip_seqs_fix drop_seq_none)

lemma trim_end_Nil [simp, text_simps]: "trim_end [] = []"
  by (simp add: trim_end_def strip_seqs_fix drop_seq_none)

lemma trim_Nil [simp, text_simps]: "trim [] = []"
  by (simp add: trim_def)

lemma trim_start_solid: "solid c \<Longrightarrow> trim_start (c # s) = c # s"
  unfolding trim_start_def
proof (rule strip_seqs_fix, rule drop_seq_none, rule ballI)
  fix w assume c: "solid c" and w: "w \<in> set ws_seqs"
  then obtain d ds where "w = d # ds" by (cases w) (auto dest: ws_seqs_nonempty)
  with c w show "\<not> (w \<noteq> [] \<and> prefix w (c # s))" by (auto simp: solid_def)
qed

lemma trim_end_solid: "solid c \<Longrightarrow> trim_end (s @ [c]) = s @ [c]"
proof -
  assume c: "solid c"
  have "strip_seqs (map rev ws_seqs) (c # rev s) = c # rev s"
  proof (rule strip_seqs_fix, rule drop_seq_none, rule ballI)
    fix v assume "v \<in> set (map rev ws_seqs)"
    then obtain w where w: "w \<in> set ws_seqs" and v: "v = rev w" by auto
    then obtain ds d where "w = ds @ [d]" by (cases w rule: rev_cases) (auto dest: ws_seqs_nonempty)
    with c w v show "\<not> (v \<noteq> [] \<and> prefix v (c # rev s))" by (auto simp: solid_def)
  qed
  then show ?thesis by (simp add: trim_end_def)
qed

lemma trim_solid:
  assumes "solid (hd s)" "solid (last s)" "s \<noteq> []"
  shows "trim s = s"
proof -
  have "trim_start s = s" using assms by (cases s) (auto simp: trim_start_solid)
  moreover have "trim_end s = s" using assms by (cases s rule: rev_cases) (auto simp: trim_end_solid)
  ultimately show ?thesis by (simp add: trim_def)
qed

section \<open>Integers in text\<close>

text \<open>\<open>to_string\<close> of an unsigned and of a signed integer.\<close>

definition digit_char :: "nat \<Rightarrow> char" where
  "digit_char d = char_of (48 + d)"

fun show_nat :: "nat \<Rightarrow> string" where
  "show_nat n = (if n < 10 then [digit_char n] else show_nat (n div 10) @ [digit_char (n mod 10)])"

declare show_nat.simps [simp del]

definition show_int :: "int \<Rightarrow> string" where
  "show_int n = (if n < 0 then CHR ''-'' # show_nat (nat (- n)) else show_nat (nat n))"

text \<open>
  \<open>from_str_radix\<close> of an unsigned type whose largest value is given: an optional \<open>+\<close>, at
  least one digit, and an error on an invalid digit or an overflow.
\<close>

definition digit_val :: "nat \<Rightarrow> char \<Rightarrow> nat option" where
  "digit_val radix c =
     (let n = (of_char c :: nat);
          d = (if 48 \<le> n \<and> n \<le> 57 then n - 48
               else if 97 \<le> n \<and> n \<le> 122 then n - 87
               else if 65 \<le> n \<and> n \<le> 90 then n - 55
               else radix)
      in if d < radix then Some d else None)"

fun digits_val :: "nat \<Rightarrow> nat \<Rightarrow> string \<Rightarrow> nat option" where
  "digits_val radix acc [] = Some acc"
| "digits_val radix acc (c # cs) =
     (case digit_val radix c of None \<Rightarrow> None | Some d \<Rightarrow> digits_val radix (acc * radix + d) cs)"

definition strip_plus :: "string \<Rightarrow> string" where
  "strip_plus s = (case s of c # cs \<Rightarrow> if c = CHR ''+'' then cs else s | [] \<Rightarrow> [])"

definition parse_radix :: "nat \<Rightarrow> nat \<Rightarrow> string \<Rightarrow> nat option" where
  "parse_radix radix limit s =
     (if strip_plus s = [] then None
      else case digits_val radix 0 (strip_plus s) of
        None \<Rightarrow> None
      | Some n \<Rightarrow> if n \<le> limit then Some n else None)"

definition parse_u16 :: "string \<Rightarrow> nat option" where
  "parse_u16 = parse_radix 10 (2 ^ 16 - 1)"

definition parse_u32 :: "string \<Rightarrow> nat option" where
  "parse_u32 = parse_radix 10 (2 ^ 32 - 1)"

definition parse_u64 :: "string \<Rightarrow> nat option" where
  "parse_u64 = parse_radix 10 (2 ^ 64 - 1)"

lemma digit_val_digit_char: "d < 10 \<Longrightarrow> digit_val 10 (digit_char d) = Some d"
  by (simp add: digit_val_def digit_char_def Let_def)

lemma digits_val_append:
  "digits_val r a (s @ t) = (case digits_val r a s of None \<Rightarrow> None | Some b \<Rightarrow> digits_val r b t)"
  by (induction s arbitrary: a) (auto split: option.splits)

lemma digits_val_show_nat: "digits_val 10 0 (show_nat n) = Some n"
proof (induction n rule: show_nat.induct)
  case (1 n)
  show ?case
  proof (cases "n < 10")
    case True
    then show ?thesis by (simp add: show_nat.simps digit_val_digit_char)
  next
    case False
    then show ?thesis using 1
      by (subst show_nat.simps) (simp add: digits_val_append digit_val_digit_char)
  qed
qed

lemma show_nat_not_Nil [simp]: "show_nat n \<noteq> []"
  by (subst show_nat.simps) auto

definition is_digit :: "char \<Rightarrow> bool" where
  "is_digit c \<longleftrightarrow> 48 \<le> (of_char c :: nat) \<and> (of_char c :: nat) \<le> 57"

lemma is_digit_digit_char: "d < 10 \<Longrightarrow> is_digit (digit_char d)"
  by (simp add: is_digit_def digit_char_def)

lemma show_nat_digits: "c \<in> set (show_nat n) \<Longrightarrow> is_digit c"
proof (induction n rule: show_nat.induct)
  case (1 n)
  show ?case
  proof (cases "n < 10")
    case True
    with 1 show ?thesis by (simp add: show_nat.simps is_digit_digit_char)
  next
    case False
    then have "show_nat n = show_nat (n div 10) @ [digit_char (n mod 10)]"
      by (subst show_nat.simps) simp
    with 1 False show ?thesis by (auto simp: is_digit_digit_char)
  qed
qed

lemma is_digit_special [simp]:
  "\<not> is_digit (CHR ''+'')" "\<not> is_digit (CHR ''-'')" "\<not> is_digit (CHR '':'')"
  "\<not> is_digit (CHR 0x0A)" "\<not> is_digit (CHR 0x0D)" "\<not> is_digit (CHR '' '')"
  by (simp_all add: is_digit_def)

lemma show_nat_free: "\<not> is_digit c \<Longrightarrow> c \<notin> set (show_nat n)"
  using show_nat_digits [of c n] by auto

lemma parse_radix_show_nat: "n \<le> limit \<Longrightarrow> parse_radix 10 limit (show_nat n) = Some n"
proof -
  assume n: "n \<le> limit"
  obtain c cs where s: "show_nat n = c # cs" by (cases "show_nat n") auto
  then have "c \<noteq> CHR ''+''" using show_nat_free [of "CHR ''+''" n] by auto
  with s n show ?thesis using digits_val_show_nat [of n] by (simp add: parse_radix_def strip_plus_def)
qed

lemma parse_radix_bound: "parse_radix r limit s = Some n \<Longrightarrow> n \<le> limit"
  by (auto simp: parse_radix_def split: if_splits option.splits)

lemma show_nat_inj: "show_nat m = show_nat n \<Longrightarrow> m = n"
  by (metis digits_val_show_nat option.inject)

section \<open>Searching and splitting\<close>

text \<open>\<open>str::find\<close>: the byte index of the first occurrence.\<close>

fun str_find :: "string \<Rightarrow> string \<Rightarrow> nat option" where
  "str_find [] p = (if p = [] then Some 0 else None)"
| "str_find (c # s) p = (if prefix p (c # s) then Some 0 else map_option Suc (str_find s p))"

text \<open>\<open>str::split\<close> on a character: always at least one part.\<close>

fun split_on :: "char \<Rightarrow> string \<Rightarrow> string list" where
  "split_on d [] = [[]]"
| "split_on d (c # s) =
     (if c = d then [] # split_on d s
      else case split_on d s of [] \<Rightarrow> [[c]] | p # ps \<Rightarrow> (c # p) # ps)"

text \<open>\<open>split_once\<close> and \<open>rsplit_once\<close>: around the first and around the last occurrence.\<close>

fun split_once :: "char \<Rightarrow> string \<Rightarrow> (string \<times> string) option" where
  "split_once d [] = None"
| "split_once d (c # s) = (if c = d then Some ([], s) else map_option (apfst ((#) c)) (split_once d s))"

fun rsplit_once :: "char \<Rightarrow> string \<Rightarrow> (string \<times> string) option" where
  "rsplit_once d [] = None"
| "rsplit_once d (c # s) =
     (case rsplit_once d s of
        Some (a, b) \<Rightarrow> Some (c # a, b)
      | None \<Rightarrow> if c = d then Some ([], s) else None)"

definition replace_char :: "char \<Rightarrow> char \<Rightarrow> string \<Rightarrow> string" where
  "replace_char a b = map (\<lambda>c. if c = a then b else c)"

definition trim_end_char :: "char \<Rightarrow> string \<Rightarrow> string" where
  "trim_end_char c s = rev (dropWhile (\<lambda>x. x = c) (rev s))"

definition trim_start_char :: "char \<Rightarrow> string \<Rightarrow> string" where
  "trim_start_char c s = dropWhile (\<lambda>x. x = c) s"

definition to_ascii_lowercase :: "string \<Rightarrow> string" where
  "to_ascii_lowercase =
     map (\<lambda>c. let n = (of_char c :: nat) in if 65 \<le> n \<and> n \<le> 90 then char_of (n + 32) else c)"

fun join_with :: "string \<Rightarrow> string list \<Rightarrow> string" where
  "join_with sep [] = []"
| "join_with sep [s] = s"
| "join_with sep (s # t # ts) = s @ sep @ join_with sep (t # ts)"

lemma split_on_not_Nil [simp]: "split_on d s \<noteq> []"
  by (cases s) (auto split: list.splits)

lemma join_split_on: "join_with [d] (split_on d s) = s"
proof (induction s)
  case Nil
  show ?case by simp
next
  case (Cons c s)
  obtain p ps where sp: "split_on d s = p # ps" by (cases "split_on d s") auto
  with Cons show ?case by (cases ps) auto
qed

lemma split_on_sep_free: "p \<in> set (split_on d s) \<Longrightarrow> d \<notin> set p"
proof (induction s arbitrary: p)
  case Nil
  then show ?case by simp
next
  case (Cons c s)
  obtain q qs where "split_on d s = q # qs" by (cases "split_on d s") auto
  with Cons show ?case by (auto split: if_splits)
qed

lemma split_on_id: "d \<notin> set s \<Longrightarrow> split_on d s = [s]"
  by (induction s) auto

lemma str_find_Some: "str_find s p = Some n \<Longrightarrow> n + length p \<le> length s \<and> prefix p (drop n s)"
proof (induction s arbitrary: n)
  case Nil
  then show ?case by (auto split: if_splits)
next
  case (Cons c s)
  then show ?case by (cases n) (auto split: if_splits dest: prefix_length_le)
qed

lemma str_find_None: "str_find s p = None \<longleftrightarrow> \<not> sublist p s"
  by (induction s) (auto simp: sublist_Cons_right)

lemma str_find_least: "str_find s p = Some n \<Longrightarrow> prefix p (drop k s) \<Longrightarrow> n \<le> k"
proof (induction s arbitrary: n k)
  case Nil
  then show ?case by (auto split: if_splits)
next
  case (Cons c s)
  then show ?case by (cases k) (auto split: if_splits)
qed

lemma split_once_Some: "split_once d s = Some (a, b) \<Longrightarrow> s = a @ d # b \<and> d \<notin> set a"
  by (induction s arbitrary: a) (auto split: if_splits)

lemma split_once_None: "split_once d s = None \<longleftrightarrow> d \<notin> set s"
  by (induction s) auto

lemma split_once_append: "d \<notin> set a \<Longrightarrow> split_once d (a @ d # b) = Some (a, b)"
  by (induction a) auto

lemma rsplit_once_None: "rsplit_once d s = None \<longleftrightarrow> d \<notin> set s"
  by (induction s) (auto split: option.splits)

lemma rsplit_once_Some: "rsplit_once d s = Some (a, b) \<Longrightarrow> s = a @ d # b \<and> d \<notin> set b"
proof (induction s arbitrary: a)
  case Nil
  then show ?case by simp
next
  case (Cons c s)
  then show ?case
    by (auto split: option.splits if_splits prod.splits simp: rsplit_once_None)
qed

lemma rsplit_once_append: "d \<notin> set b \<Longrightarrow> rsplit_once d (a @ d # b) = Some (a, b)"
  by (induction a) (simp_all add: rsplit_once_None [THEN iffD2])

section \<open>Unix paths\<close>

text \<open>
  \<open>Path::file_name\<close>: the last component when it is a normal one. Repeated separators and
  \<open>.\<close> components are dropped by \<open>Path::components\<close>.
\<close>

definition path_parts :: "string \<Rightarrow> string list" where
  "path_parts s = filter (\<lambda>p. p \<noteq> [] \<and> p \<noteq> ''.'') (split_on CHR ''/'' s)"

definition file_name :: "string \<Rightarrow> string option" where
  "file_name s = (if path_parts s = [] \<or> last (path_parts s) = ''..'' then None else Some (last (path_parts s)))"

section \<open>UTF-8 boundaries\<close>

text \<open>
  \<open>is_char_boundary\<close>: slicing a \<open>str\<close> anywhere else panics, which the model returns as
  \<open>None\<close>.
\<close>

definition is_char_boundary :: "string \<Rightarrow> nat \<Rightarrow> bool" where
  "is_char_boundary s i \<longleftrightarrow>
     i = 0 \<or> i = length s \<or>
     (i < length s \<and> ((of_char (s ! i) :: nat) < 128 \<or> 192 \<le> (of_char (s ! i) :: nat)))"

definition slice_to :: "string \<Rightarrow> nat \<Rightarrow> string option" where
  "slice_to s i = (if is_char_boundary s i then Some (take i s) else None)"


section \<open>Lines\<close>

text \<open>
  \<open>str::lines\<close>: the parts between newlines without a carriage return before the newline; a text
  that ends in a newline has no empty line after it.
\<close>

definition strip_cr :: "string \<Rightarrow> string" where
  "strip_cr s = (if suffix [CHR 0x0D] s then butlast s else s)"

definition str_lines :: "string \<Rightarrow> string list" where
  "str_lines s =
     (let ps = split_on CHR 0x0A s
      in map strip_cr (butlast ps) @ (if last ps = [] then [] else [last ps]))"

lemma str_lines_Nil [simp]: "str_lines [] = []"
  by (simp add: str_lines_def)

end
