(* ===== verification/DapJson.thy ===== *)
theory DapJson imports DapText "HOL-Library.Word" "HOL-Library.List_Lexorder" "HOL-Library.Char_ord" begin

text \<open>
  \<open>serde_json::Value\<close>, the tree every message of the program is at some point: the public
  enum with its six variants, numbers as the three number shapes merged into one integer
  variant (an integer between the smallest \<open>i64\<close> and the largest \<open>u64\<close>) and one of 64-bit
  floats, and an object as \<open>BTreeMap<String, Value>\<close> (the workspace does not enable
  \<open>preserve_order\<close>): an association list kept sorted by the bytes of its keys. Turning a tree
  into text and back is the crate's work and stays a parameter of the definitions that use it.
\<close>

datatype jnumber = JInt int | JFloat "64 word"

datatype json =
    JNull
  | JBool bool
  | JNumber jnumber
  | JString string
  | JArray "json list"
  | JObject "(string \<times> json) list"

type_synonym jmap = "(string \<times> json) list"

abbreviation jint :: "int \<Rightarrow> json" where
  "jint n \<equiv> JNumber (JInt n)"

section \<open>Objects\<close>

text \<open>\<open>Map::insert\<close>, \<open>Map::remove\<close>, \<open>Map::get\<close> and \<open>entry(k).or_insert(v)\<close>.\<close>

fun obj_insert :: "string \<Rightarrow> json \<Rightarrow> jmap \<Rightarrow> jmap" where
  "obj_insert k v [] = [(k, v)]"
| "obj_insert k v ((a, b) # m) =
     (if k = a then (k, v) # m else if k < a then (k, v) # (a, b) # m else (a, b) # obj_insert k v m)"

definition obj_remove :: "string \<Rightarrow> jmap \<Rightarrow> jmap" where
  "obj_remove k m = filter (\<lambda>p. fst p \<noteq> k) m"

abbreviation obj_get :: "jmap \<Rightarrow> string \<Rightarrow> json option" where
  "obj_get m k \<equiv> map_of m k"

definition obj_or_insert :: "string \<Rightarrow> json \<Rightarrow> jmap \<Rightarrow> jmap" where
  "obj_or_insert k v m = (if obj_get m k = None then obj_insert k v m else m)"

definition obj_insert_all :: "jmap \<Rightarrow> jmap \<Rightarrow> jmap" where
  "obj_insert_all m patch = foldl (\<lambda>acc (k, v). obj_insert k v acc) m patch"

text \<open>\<open>json!({ ... })\<close> with the members in the order they are written.\<close>

definition jobj :: "(string \<times> json) list \<Rightarrow> json" where
  "jobj kvs = JObject (obj_insert_all [] kvs)"

lemma obj_get_insert [simp, json_simps]: "obj_get (obj_insert k v m) = (obj_get m)(k \<mapsto> v)"
  by (induction m) (auto simp: fun_eq_iff)

lemma obj_get_remove [simp, json_simps]: "obj_get (obj_remove k m) = (obj_get m)(k := None)"
  unfolding obj_remove_def by (rule map_of_filter_neq)

lemma obj_get_or_insert [json_simps]:
  "obj_get (obj_or_insert k v m) = (case obj_get m k of None \<Rightarrow> (obj_get m)(k \<mapsto> v) | Some _ \<Rightarrow> obj_get m)"
  by (auto simp: obj_or_insert_def split: option.splits)

lemma obj_get_insert_all [json_simps]: "obj_get (obj_insert_all m patch) k =
   (case map_of (rev patch) k of Some v \<Rightarrow> Some v | None \<Rightarrow> obj_get m k)"
  unfolding obj_insert_all_def
proof (induction patch arbitrary: m)
  case Nil
  show ?case by simp
next
  case (Cons p patch)
  obtain a b where "p = (a, b)" by (cases p)
  with Cons.IH [of "obj_insert a b m"] show ?case
    by (auto simp: map_add_def split: option.splits)
qed

text \<open>The invariant of the ordered map: keys strictly increase.\<close>

definition obj_ok :: "jmap \<Rightarrow> bool" where
  "obj_ok m \<longleftrightarrow> sorted_wrt (<) (map fst m)"

lemma obj_insert_keys: "fst ` set (obj_insert k v m) = insert k (fst ` set m)"
  by (induction k v m rule: obj_insert.induct) auto

lemma obj_ok_insert: "obj_ok m \<Longrightarrow> obj_ok (obj_insert k v m)"
proof (induction k v m rule: obj_insert.induct)
  case (1 k v)
  show ?case by (simp add: obj_ok_def)
next
  case (2 k v a b m)
  then have m: "obj_ok m" and lt: "\<forall>x \<in> fst ` set m. a < x" by (auto simp: obj_ok_def)
  show ?case
  proof (cases "k = a \<or> k < a")
    case True
    then show ?thesis using 2(2) by (fastforce simp: obj_ok_def dest: less_trans)
  next
    case False
    then have "obj_ok (obj_insert k v m)" using 2(1) m by auto
    moreover have "\<forall>x \<in> fst ` set (obj_insert k v m). a < x"
      using lt False by (auto simp: obj_insert_keys)
    ultimately show ?thesis using False by (simp add: obj_ok_def)
  qed
qed

lemma obj_ok_remove: "obj_ok m \<Longrightarrow> obj_ok (obj_remove k m)"
  by (auto simp: obj_ok_def obj_remove_def filter_neq_map_fst intro: sorted_wrt_filter)

lemma obj_ok_Nil [simp]: "obj_ok []"
  by (simp add: obj_ok_def)

lemma obj_ok_insert_all: "obj_ok m \<Longrightarrow> obj_ok (obj_insert_all m patch)"
  unfolding obj_insert_all_def
  by (induction patch arbitrary: m) (auto intro: obj_ok_insert)

text \<open>Two maps with the invariant and the same lookups are the same list.\<close>

lemma obj_ok_distinct: "obj_ok m \<Longrightarrow> distinct (map fst m)"
  by (simp add: obj_ok_def strict_sorted_iff)

lemma obj_eqI: "obj_ok m \<Longrightarrow> obj_ok n \<Longrightarrow> obj_get m = obj_get n \<Longrightarrow> m = n"
proof -
  assume m: "obj_ok m" and n: "obj_ok n" and eq: "obj_get m = obj_get n"
  have "sorted (map fst m)" "sorted (map fst n)" "distinct (map fst m)" "distinct (map fst n)"
    using m n by (simp_all add: obj_ok_def strict_sorted_iff)
  moreover have "set m = set n"
    using eq m n by (metis map_of_eq_Some_iff obj_ok_distinct set_eqI old.prod.exhaust)
  ultimately show "m = n" by (intro map_sorted_distinct_set_unique [of fst]) (auto simp: inj_on_def eq_key_imp_eq_value)
qed

section \<open>Access\<close>

definition jget :: "json \<Rightarrow> string \<Rightarrow> json option" where
  "jget v k = (case v of JObject m \<Rightarrow> obj_get m k | _ \<Rightarrow> None)"

definition as_str :: "json \<Rightarrow> string option" where
  "as_str v = (case v of JString s \<Rightarrow> Some s | _ \<Rightarrow> None)"

definition as_bool :: "json \<Rightarrow> bool option" where
  "as_bool v = (case v of JBool b \<Rightarrow> Some b | _ \<Rightarrow> None)"

definition as_i64 :: "json \<Rightarrow> int option" where
  "as_i64 v = (case v of JNumber (JInt n) \<Rightarrow> if in_i64 n then Some n else None | _ \<Rightarrow> None)"

definition as_u64 :: "json \<Rightarrow> int option" where
  "as_u64 v = (case v of JNumber (JInt n) \<Rightarrow> if in_u64 n then Some n else None | _ \<Rightarrow> None)"

definition as_array :: "json \<Rightarrow> json list option" where
  "as_array v = (case v of JArray xs \<Rightarrow> Some xs | _ \<Rightarrow> None)"

definition as_object :: "json \<Rightarrow> jmap option" where
  "as_object v = (case v of JObject m \<Rightarrow> Some m | _ \<Rightarrow> None)"

text \<open>The chains \<open>v.get(k).and_then(Value::as_...)\<close> the code is full of.\<close>

abbreviation get_str :: "json \<Rightarrow> string \<Rightarrow> string option" where
  "get_str v k \<equiv> Option.bind (jget v k) as_str"

abbreviation get_i64 :: "json \<Rightarrow> string \<Rightarrow> int option" where
  "get_i64 v k \<equiv> Option.bind (jget v k) as_i64"

abbreviation get_bool :: "json \<Rightarrow> string \<Rightarrow> bool option" where
  "get_bool v k \<equiv> Option.bind (jget v k) as_bool"

abbreviation get_array :: "json \<Rightarrow> string \<Rightarrow> json list option" where
  "get_array v k \<equiv> Option.bind (jget v k) as_array"

definition unwrap_or :: "'a option \<Rightarrow> 'a \<Rightarrow> 'a" where
  "unwrap_or x d = (case x of Some y \<Rightarrow> y | None \<Rightarrow> d)"

definition or_else :: "'a option \<Rightarrow> 'a option \<Rightarrow> 'a option" where
  "or_else x y = (case x of Some _ \<Rightarrow> x | None \<Rightarrow> y)"

definition opt_str_json :: "string option \<Rightarrow> json" where
  "opt_str_json x = (case x of Some s \<Rightarrow> JString s | None \<Rightarrow> JNull)"

definition opt_json :: "json option \<Rightarrow> json" where
  "opt_json x = (case x of Some v \<Rightarrow> v | None \<Rightarrow> JNull)"

lemma unwrap_or_simps [simp]: "unwrap_or (Some x) d = x" "unwrap_or None d = d"
  by (simp_all add: unwrap_or_def)

lemma or_else_simps [simp]: "or_else (Some x) y = Some x" "or_else None y = y"
  by (simp_all add: or_else_def)

lemma or_else_None [simp]: "or_else x None = x"
  by (cases x) simp_all

lemma or_else_assoc: "or_else (or_else x y) z = or_else x (or_else y z)"
  by (cases x) simp_all

lemma opt_str_json_simps [simp]: "opt_str_json (Some s) = JString s" "opt_str_json None = JNull"
  by (simp_all add: opt_str_json_def)

lemma opt_json_simps [simp]: "opt_json (Some v) = v" "opt_json None = JNull"
  by (simp_all add: opt_json_def)

lemma jget_object [simp, json_simps]: "jget (JObject m) k = obj_get m k"
  by (simp add: jget_def)

lemma jget_other [simp, json_simps]:
  "jget JNull k = None" "jget (JBool b) k = None" "jget (JNumber n) k = None"
  "jget (JString s) k = None" "jget (JArray xs) k = None"
  by (simp_all add: jget_def)

lemma jget_jobj [simp, json_simps]: "jget (jobj kvs) k = map_of (rev kvs) k"
  by (simp add: jobj_def obj_get_insert_all split: option.splits)

lemma as_simps [simp, json_simps]:
  "as_str (JString s) = Some s" "as_bool (JBool b) = Some b"
  "as_array (JArray xs) = Some xs" "as_object (JObject m) = Some m"
  "as_str JNull = None" "as_str (JBool b) = None" "as_str (JNumber n) = None"
  "as_str (JArray xs) = None" "as_str (JObject m) = None"
  "as_bool JNull = None" "as_bool (JString s) = None" "as_bool (JNumber n) = None"
  "as_bool (JArray xs) = None" "as_bool (JObject m) = None"
  "as_array JNull = None" "as_array (JBool b) = None" "as_array (JNumber n) = None"
  "as_array (JString s) = None" "as_array (JObject m) = None"
  "as_object JNull = None" "as_object (JBool b) = None" "as_object (JNumber n) = None"
  "as_object (JString s) = None" "as_object (JArray xs) = None"
  "as_i64 JNull = None" "as_i64 (JBool b) = None" "as_i64 (JString s) = None"
  "as_i64 (JArray xs) = None" "as_i64 (JObject m) = None" "as_i64 (JNumber (JFloat w)) = None"
  "as_u64 JNull = None" "as_u64 (JBool b) = None" "as_u64 (JString s) = None"
  "as_u64 (JArray xs) = None" "as_u64 (JObject m) = None" "as_u64 (JNumber (JFloat w)) = None"
  by (simp_all add: as_str_def as_bool_def as_array_def as_object_def as_i64_def as_u64_def)

lemma as_i64_jint [simp, json_simps]: "as_i64 (jint n) = (if in_i64 n then Some n else None)"
  by (simp add: as_i64_def)

lemma as_u64_jint [simp, json_simps]: "as_u64 (jint n) = (if in_u64 n then Some n else None)"
  by (simp add: as_u64_def)

lemma as_i64_Some: "as_i64 v = Some n \<longleftrightarrow> v = jint n \<and> in_i64 n"
  by (auto simp: as_i64_def split: json.splits jnumber.splits if_splits)

lemma as_str_Some: "as_str v = Some s \<longleftrightarrow> v = JString s"
  by (auto simp: as_str_def split: json.splits)

lemma as_object_Some: "as_object v = Some m \<longleftrightarrow> v = JObject m"
  by (auto simp: as_object_def split: json.splits)

lemma as_array_Some: "as_array v = Some xs \<longleftrightarrow> v = JArray xs"
  by (auto simp: as_array_def split: json.splits)

lemma jget_Some_object: "jget v k = Some x \<Longrightarrow> \<exists>m. v = JObject m \<and> obj_get m k = Some x"
  by (cases v) auto

lemma in_i64_small [simp]: "0 \<le> n \<Longrightarrow> n < 9223372036854775808 \<Longrightarrow> in_i64 n"
  by (simp add: in_i64_def)

text \<open>Every map of a tree keeps the ordered-map invariant.\<close>

fun json_ok :: "json \<Rightarrow> bool" where
  "json_ok (JArray xs) = list_all json_ok xs"
| "json_ok (JObject m) = (obj_ok m \<and> list_all (\<lambda>p. json_ok (snd p)) m)"
| "json_ok (JNumber (JInt n)) = (- (2 ^ 63) \<le> n \<and> n < 2 ^ 64)"
| "json_ok v = True"

lemma obj_insert_members: "set (obj_insert k v m) \<subseteq> insert (k, v) (set m)"
  by (induction k v m rule: obj_insert.induct) auto

lemma json_ok_obj_insert: "json_ok (JObject m) \<Longrightarrow> json_ok v \<Longrightarrow> json_ok (JObject (obj_insert k v m))"
  using obj_insert_members [of k v m] by (auto simp: obj_ok_insert list_all_iff)

lemma json_ok_obj_remove: "json_ok (JObject m) \<Longrightarrow> json_ok (JObject (obj_remove k m))"
  using obj_ok_remove [of m k] by (auto simp: list_all_iff) (auto simp: obj_remove_def)

section \<open>Derived deserialization\<close>

text \<open>
  The members a derived deserialization reads: those of an object, or the elements of an array
  in the order the fields are declared, which serde accepts in place of the object.
\<close>

definition struct_members :: "string list \<Rightarrow> json \<Rightarrow> jmap option" where
  "struct_members names v =
     (case v of
        JObject m \<Rightarrow> Some m
      | JArray xs \<Rightarrow> if length xs \<le> length names then Some (zip names xs) else None
      | _ \<Rightarrow> None)"

lemma struct_members_object [simp]: "struct_members names (JObject m) = Some m"
  by (simp add: struct_members_def)

end
