(* ===== verification/DapMessage.thy ===== *)
theory DapMessage imports DapJson begin

text \<open>
  Messages. First the JSON envelope as the multiplexer reads and rewrites it
  (\<open>protocol-mux/src/message.rs\<close>), then the typed message of \<open>dap-protocol/src/message.rs\<close> with
  the two conversions its serde attributes describe (\<open>message_to_value\<close> and
  \<open>value_to_message\<close> of \<open>dap-core/src/mux_bridge.rs\<close>). The lemmas say what each rewrite leaves
  alone and that the typed conversions are inverse to each other. A typed message is read from a
  JSON object, the form the protocol has; the sequence form serde would also read is left out.
\<close>

section \<open>The envelope\<close>

datatype message_kind = KRequest | KResponse | KEvent | KUnknown

definition message_kind :: "json \<Rightarrow> message_kind" where
  "message_kind v =
     (let t = get_str v ''type'' in
      if t = Some ''request'' then KRequest
      else if t = Some ''response'' then KResponse
      else if t = Some ''event'' then KEvent
      else KUnknown)"

definition seq :: "json \<Rightarrow> int option" where
  "seq v = get_i64 v ''seq''"

definition set_seq :: "int \<Rightarrow> json \<Rightarrow> json" where
  "set_seq n v = (case v of JObject m \<Rightarrow> JObject (obj_insert ''seq'' (jint n) m) | _ \<Rightarrow> v)"

definition request_seq :: "json \<Rightarrow> int option" where
  "request_seq v = Option.bind (or_else (jget v ''requestSeq'') (jget v ''request_seq'')) as_i64"

definition set_request_seq :: "int \<Rightarrow> json \<Rightarrow> json" where
  "set_request_seq n v =
     (case v of
        JObject m \<Rightarrow> JObject (obj_insert ''request_seq'' (jint n) (obj_remove ''requestSeq'' m))
      | _ \<Rightarrow> v)"

definition command :: "json \<Rightarrow> string option" where
  "command v = get_str v ''command''"

definition event_name :: "json \<Rightarrow> string option" where
  "event_name v = get_str v ''event''"

text \<open>
  \<open>cancel_request_id\<close> also writes the id back in canonical form, which changes nothing: an
  \<open>i64\<close> has one integer representation. Only its result is modelled.
\<close>

definition cancel_request_id :: "json \<Rightarrow> int option" where
  "cancel_request_id v =
     (if command v \<noteq> Some ''cancel'' then None
      else case Option.bind (jget v ''arguments'') as_object of
        None \<Rightarrow> None
      | Some args \<Rightarrow> Option.bind (obj_get args ''requestId'') as_i64)"

definition set_cancel_request_id :: "int \<Rightarrow> json \<Rightarrow> json \<times> bool" where
  "set_cancel_request_id n v =
     (if command v \<noteq> Some ''cancel'' then (v, False)
      else case v of
        JObject m \<Rightarrow>
          (case Option.bind (obj_get m ''arguments'') as_object of
             None \<Rightarrow> (v, False)
           | Some args \<Rightarrow>
               (JObject (obj_insert ''arguments'' (JObject (obj_insert ''requestId'' (jint n) args)) m), True))
      | _ \<Rightarrow> (v, False))"

definition request_json :: "int \<Rightarrow> string \<Rightarrow> json option \<Rightarrow> json" where
  "request_json n cmd args =
     jobj [(''type'', JString ''request''), (''seq'', jint n), (''command'', JString cmd),
           (''arguments'', unwrap_or args (jobj []))]"

definition response_json :: "int \<Rightarrow> int \<Rightarrow> bool \<Rightarrow> json option \<Rightarrow> json" where
  "response_json n rs success body =
     jobj [(''type'', JString ''response''), (''seq'', jint n), (''request_seq'', jint rs),
           (''success'', JBool success), (''body'', opt_json body)]"

definition event_json :: "int \<Rightarrow> string \<Rightarrow> json option \<Rightarrow> json" where
  "event_json n name body =
     jobj [(''type'', JString ''event''), (''seq'', jint n), (''event'', JString name),
           (''body'', unwrap_or body (jobj []))]"

subsection \<open>What the rewrites leave alone\<close>

lemma message_kind_object:
  "message_kind v \<noteq> KUnknown \<Longrightarrow> \<exists>m. v = JObject m"
  by (cases v) (auto simp: message_kind_def)

lemma jget_set_seq [simp]: "jget (set_seq n v) k = (if k = ''seq'' \<and> (\<exists>m. v = JObject m) then Some (jint n) else jget v k)"
  by (cases v) (auto simp: set_seq_def)

lemma jget_set_request_seq [simp]:
  "jget (set_request_seq n v) k =
     (if (\<exists>m. v = JObject m) then
        (if k = ''request_seq'' then Some (jint n) else if k = ''requestSeq'' then None else jget v k)
      else jget v k)"
  by (cases v) (auto simp: set_request_seq_def)

lemma message_kind_set_seq [simp]: "message_kind (set_seq n v) = message_kind v"
  by (simp add: message_kind_def)

lemma message_kind_set_request_seq [simp]: "message_kind (set_request_seq n v) = message_kind v"
  by (simp add: message_kind_def)

lemma command_set_seq [simp]: "command (set_seq n v) = command v"
  by (simp add: command_def)

lemma command_set_request_seq [simp]: "command (set_request_seq n v) = command v"
  by (simp add: command_def)

lemma seq_set_seq: "message_kind v \<noteq> KUnknown \<Longrightarrow> in_i64 n \<Longrightarrow> seq (set_seq n v) = Some n"
  by (auto simp: seq_def dest: message_kind_object)

lemma request_seq_set_request_seq:
  "message_kind v \<noteq> KUnknown \<Longrightarrow> in_i64 n \<Longrightarrow> request_seq (set_request_seq n v) = Some n"
  by (auto simp: request_seq_def dest: message_kind_object)

lemma request_seq_set_seq [simp]: "request_seq (set_seq n v) = request_seq v"
  by (simp add: request_seq_def)

lemma set_cancel_jget:
  "k \<noteq> ''arguments'' \<Longrightarrow> jget (fst (set_cancel_request_id n v)) k = jget v k"
  by (auto simp: set_cancel_request_id_def split: json.splits option.splits)

lemma set_cancel_kind [simp]: "message_kind (fst (set_cancel_request_id n v)) = message_kind v"
  by (simp add: message_kind_def set_cancel_jget)

lemma set_cancel_command [simp]: "command (fst (set_cancel_request_id n v)) = command v"
  by (simp add: command_def set_cancel_jget)

lemma cancel_set_cancel:
  assumes "cancel_request_id v = Some k" and "in_i64 n"
  shows "cancel_request_id (fst (set_cancel_request_id n v)) = Some n"
    and "snd (set_cancel_request_id n v)"
proof -
  from assms obtain m args where v: "v = JObject m" "command v = Some ''cancel''"
      "obj_get m ''arguments'' = Some (JObject args)"
    by (cases v) (auto simp: cancel_request_id_def as_object_Some split: if_splits option.splits bind_splits)
  then show "cancel_request_id (fst (set_cancel_request_id n v)) = Some n"
    using assms(2) by (simp add: cancel_request_id_def) (simp add: set_cancel_request_id_def)
  show "snd (set_cancel_request_id n v)"
    using v by (simp add: set_cancel_request_id_def)
qed

section \<open>Typed messages\<close>

record request =
  rq_seq :: int
  rq_command :: string
  rq_arguments :: "json option"

record response =
  rs_seq :: int
  rs_request_seq :: int
  rs_success :: bool
  rs_command :: "string option"
  rs_message :: "string option"
  rs_body :: "json option"

record event =
  ev_seq :: int
  ev_event :: string
  ev_body :: "json option"

datatype message = Request request | Response response | Event event

text \<open>
  Serialization: the tag first, then each field under its serde name; \<open>arguments\<close> has no
  \<open>skip_serializing_if\<close> and is written as \<open>null\<close> when absent, the optional fields of a response
  and an event are left out when they are \<open>None\<close>.
\<close>

definition opt_member :: "string \<Rightarrow> json option \<Rightarrow> (string \<times> json) list" where
  "opt_member k x = (case x of Some v \<Rightarrow> [(k, v)] | None \<Rightarrow> [])"

fun message_to_value :: "message \<Rightarrow> json" where
  "message_to_value (Request r) =
     jobj [(''type'', JString ''request''), (''seq'', jint (rq_seq r)),
           (''command'', JString (rq_command r)), (''arguments'', opt_json (rq_arguments r))]"
| "message_to_value (Response r) =
     jobj ([(''type'', JString ''response''), (''seq'', jint (rs_seq r)),
            (''request_seq'', jint (rs_request_seq r)), (''success'', JBool (rs_success r))]
       @ opt_member ''command'' (map_option JString (rs_command r))
       @ opt_member ''message'' (map_option JString (rs_message r))
       @ opt_member ''body'' (rs_body r))"
| "message_to_value (Event e) =
     jobj ([(''type'', JString ''event''), (''seq'', jint (ev_seq e)), (''event'', JString (ev_event e))]
       @ opt_member ''body'' (ev_body e))"

text \<open>
  Deserialization of an object: an absent or \<open>null\<close> optional field is \<open>None\<close>, an optional
  string must be a string, a required field must be present with its type, the alias
  \<open>requestSeq\<close> is read for \<open>request_seq\<close>, both together are a duplicate field, and unknown
  fields are ignored. \<open>None\<close> is serde's error. (The sequence form serde also reads for a tagged
  enum is not produced by any sender and is refused here.)
\<close>

definition opt_value :: "json \<Rightarrow> string \<Rightarrow> json option" where
  "opt_value v k = (case jget v k of Some JNull \<Rightarrow> None | x \<Rightarrow> x)"

definition opt_string :: "json \<Rightarrow> string \<Rightarrow> string option option" where
  "opt_string v k =
     (case jget v k of
        None \<Rightarrow> Some None
      | Some JNull \<Rightarrow> Some None
      | Some (JString s) \<Rightarrow> Some (Some s)
      | Some _ \<Rightarrow> None)"

definition read_request_seq :: "json \<Rightarrow> int option" where
  "read_request_seq v =
     (case (jget v ''request_seq'', jget v ''requestSeq'') of
        (Some x, None) \<Rightarrow> as_i64 x
      | (None, Some x) \<Rightarrow> as_i64 x
      | _ \<Rightarrow> None)"

definition value_to_message :: "json \<Rightarrow> message option" where
  "value_to_message v =
     (case message_kind v of
        KRequest \<Rightarrow>
          (case (get_i64 v ''seq'', get_str v ''command'') of
             (Some n, Some c) \<Rightarrow>
               Some (Request \<lparr>rq_seq = n, rq_command = c, rq_arguments = opt_value v ''arguments''\<rparr>)
           | _ \<Rightarrow> None)
      | KResponse \<Rightarrow>
          (case (get_i64 v ''seq'', read_request_seq v, get_bool v ''success'',
                 opt_string v ''command'', opt_string v ''message'') of
             (Some n, Some rs, Some ok, Some c, Some msg) \<Rightarrow>
               Some (Response \<lparr>rs_seq = n, rs_request_seq = rs, rs_success = ok,
                      rs_command = c, rs_message = msg, rs_body = opt_value v ''body''\<rparr>)
           | _ \<Rightarrow> None)
      | KEvent \<Rightarrow>
          (case (get_i64 v ''seq'', get_str v ''event'') of
             (Some n, Some e) \<Rightarrow> Some (Event \<lparr>ev_seq = n, ev_event = e, ev_body = opt_value v ''body''\<rparr>)
           | _ \<Rightarrow> None)
      | KUnknown \<Rightarrow> None)"

text \<open>
  The conversions are inverse, except that an optional value of JSON \<open>null\<close> comes back as
  absent: \<open>settle\<close> is the message after one trip.
\<close>

definition settle_opt :: "json option \<Rightarrow> json option" where
  "settle_opt x = (if x = Some JNull then None else x)"

fun settle :: "message \<Rightarrow> message" where
  "settle (Request r) = Request (r\<lparr>rq_arguments := settle_opt (rq_arguments r)\<rparr>)"
| "settle (Response r) = Response (r\<lparr>rs_body := settle_opt (rs_body r)\<rparr>)"
| "settle (Event e) = Event (e\<lparr>ev_body := settle_opt (ev_body e)\<rparr>)"

fun message_ok :: "message \<Rightarrow> bool" where
  "message_ok (Request r) = in_i64 (rq_seq r)"
| "message_ok (Response r) = (in_i64 (rs_seq r) \<and> in_i64 (rs_request_seq r))"
| "message_ok (Event e) = in_i64 (ev_seq e)"

lemma settle_idem [simp]: "settle (settle m) = settle m"
  by (cases m) (auto simp: settle_opt_def)

lemma opt_value_cases: "opt_value v k = settle_opt (jget v k)"
  by (auto simp: opt_value_def settle_opt_def split: option.splits json.splits)

lemma map_of_opt_member [simp]:
  "map_of (opt_member k x) j = (if j = k then x else None)"
  "map_of (rev (opt_member k x)) j = (if j = k then x else None)"
  by (auto simp: opt_member_def split: option.splits)

lemma value_message_roundtrip:
  assumes "message_ok m"
  shows "value_to_message (message_to_value m) = Some (settle m)"
proof (cases m)
  case (Request r)
  with assms show ?thesis
    by (cases r) (auto simp: value_to_message_def message_kind_def opt_value_cases settle_opt_def
        opt_json_def split: option.splits)
next
  case (Response r)
  with assms show ?thesis
    by (cases r) (auto simp: value_to_message_def message_kind_def opt_value_cases settle_opt_def
        map_add_def read_request_seq_def opt_string_def split: option.splits)
next
  case (Event e)
  with assms show ?thesis
    by (cases e) (auto simp: value_to_message_def message_kind_def opt_value_cases settle_opt_def
        map_add_def split: option.splits)
qed

lemma value_to_message_ok: "value_to_message v = Some m \<Longrightarrow> message_ok m \<and> settle m = m"
  by (auto simp: value_to_message_def opt_value_cases settle_opt_def as_i64_Some read_request_seq_def
      split: message_kind.splits option.splits if_splits bind_splits)

end
