(* ===== verification/DapTransport.thy ===== *)
theory DapTransport imports DapMessage begin

text \<open>
  The wire format of \<open>dap-protocol/src/transport.rs\<close>: header lines, an empty line, a body of
  the announced length. The reader is the list of bytes still to come, so a definition returns
  its result with the bytes it left. JSON text is \<open>serde_json\<close>'s: \<open>encode\<close> and \<open>decode\<close> are
  parameters. \<open>Panicked\<close> is no value of the source's error type: it stands for the panic of
  \<open>vec![0u8; len]\<close> on a length no allocation can have. The lemmas show that the reader accepts exactly what the writer frames, one
  message after the other, and what it answers to every malformed head.
\<close>

datatype protocol_error =
    InvalidHeader string
  | JsonError
  | IoError
  | Panicked

section \<open>Lines\<close>

text \<open>The well-formed UTF-8 sequences; \<open>read_line\<close> fails on a line that is not one.\<close>

definition byte_in :: "nat \<Rightarrow> nat \<Rightarrow> char \<Rightarrow> bool" where
  "byte_in lo hi c \<longleftrightarrow> lo \<le> (of_char c :: nat) \<and> (of_char c :: nat) \<le> hi"

fun utf8_ok :: "string \<Rightarrow> bool" where
  "utf8_ok [] = True"
| "utf8_ok (a # s) =
     (if byte_in 0 127 a then utf8_ok s
      else case s of
        [] \<Rightarrow> False
      | b # s1 \<Rightarrow>
          if byte_in 194 223 a then byte_in 128 191 b \<and> utf8_ok s1
          else (case s1 of
            [] \<Rightarrow> False
          | c # s2 \<Rightarrow>
              if byte_in 224 224 a then byte_in 160 191 b \<and> byte_in 128 191 c \<and> utf8_ok s2
              else if byte_in 237 237 a then byte_in 128 159 b \<and> byte_in 128 191 c \<and> utf8_ok s2
              else if byte_in 225 239 a then byte_in 128 191 b \<and> byte_in 128 191 c \<and> utf8_ok s2
              else (case s2 of
                [] \<Rightarrow> False
              | d # s3 \<Rightarrow>
                  (if byte_in 240 240 a then byte_in 144 191 b
                   else if byte_in 241 243 a then byte_in 128 191 b
                   else byte_in 244 244 a \<and> byte_in 128 143 b)
                  \<and> byte_in 128 191 c \<and> byte_in 128 191 d \<and> utf8_ok s3)))"

definition newline :: char where
  "newline = CHR 0x0A"

definition cr :: char where
  "cr = CHR 0x0D"

text \<open>\<open>read_line\<close>: up to and including the next newline, or the rest of the stream.\<close>

fun read_line :: "string \<Rightarrow> string \<times> string" where
  "read_line [] = ([], [])"
| "read_line (c # s) = (if c = newline then ([c], s) else apfst ((#) c) (read_line s))"

definition trim_eol :: "string \<Rightarrow> string" where
  "trim_eol s = rev (dropWhile (\<lambda>c. c = cr \<or> c = newline) (rev s))"

definition strip_prefix :: "string \<Rightarrow> string \<Rightarrow> string option" where
  "strip_prefix p s = (if prefix p s then Some (drop (length p) s) else None)"

lemma read_line_append: "fst (read_line s) @ snd (read_line s) = s"
  by (induction s) auto

lemma read_line_shorter: "s \<noteq> [] \<Longrightarrow> length (snd (read_line s)) < length s"
  by (induction s) (auto, fastforce)

lemma read_line_framed: "newline \<notin> set l \<Longrightarrow> read_line (l @ newline # s) = (l @ [newline], s)"
  by (induction l) auto

section \<open>The head\<close>

datatype head = CleanEof | Head "nat option" string

definition content_length_key :: string where
  "content_length_key = ''Content-Length:''"

function read_head :: "nat option \<Rightarrow> bool \<Rightarrow> string \<Rightarrow> protocol_error + head" where
  "read_head len saw s =
     (if s = [] then (if saw then Inl (InvalidHeader ''unexpected eof'') else Inr CleanEof)
      else let line = fst (read_line s); rest = snd (read_line s); trimmed = trim_eol line in
        if \<not> utf8_ok line then Inl IoError
        else if trimmed = [] then Inr (Head len rest)
        else case strip_prefix content_length_key trimmed of
          Some v \<Rightarrow>
            (case parse_u64 (trim v) of
               Some n \<Rightarrow> read_head (Some n) True rest
             | None \<Rightarrow> Inl (InvalidHeader (''bad Content-Length: '' @ trimmed)))
        | None \<Rightarrow> Inl (InvalidHeader trimmed))"
  by pat_completeness auto
termination
  by (relation "measure (\<lambda>(len, saw, s). length s)") (auto dest: read_line_shorter)

declare read_head.simps [simp del]

section \<open>Messages\<close>

definition read_message ::
  "(string \<Rightarrow> message option) \<Rightarrow> string \<Rightarrow> (protocol_error + message option) \<times> string" where
  "read_message decode s =
     (case read_head None False s of
        Inl e \<Rightarrow> (Inl e, [])
      | Inr CleanEof \<Rightarrow> (Inr None, [])
      | Inr (Head None rest) \<Rightarrow> (Inl (InvalidHeader ''missing Content-Length''), rest)
      | Inr (Head (Some n) rest) \<Rightarrow>
          if 2 ^ 63 - 1 < n then (Inl Panicked, rest)
          else if length rest < n then (Inl IoError, [])
          else (case decode (take n rest) of
                  None \<Rightarrow> (Inl JsonError, drop n rest)
                | Some m \<Rightarrow> (Inr (Some m), drop n rest)))"

definition write_message :: "(message \<Rightarrow> string) \<Rightarrow> message \<Rightarrow> string" where
  "write_message encode m =
     ''Content-Length: '' @ show_nat (length (encode m)) @ [cr, newline, cr, newline] @ encode m"

lemma read_head_shorter:
  "read_head len saw s = Inr (Head n rest) \<Longrightarrow> length rest < length s"
proof (induction len saw s rule: read_head.induct)
  case (1 len saw s)
  from "1.prems" have ne: "s \<noteq> []" by (auto simp: read_head.simps [of len saw s] split: if_splits)
  show ?case using "1.prems" "1.IH" [OF ne refl refl refl] read_line_shorter [OF ne]
    by (auto simp: read_head.simps [of len saw s] Let_def split: if_splits option.splits)
       (metis less_trans)
qed

lemma read_message_shorter:
  "read_message decode s = (Inr (Some m), rest) \<Longrightarrow> length rest < length s"
  by (auto simp: read_message_def split: sum.splits head.splits option.splits if_splits
      dest!: read_head_shorter)

text \<open>The loop of a \<open>ReadChannel\<close> that is drained: read until the end or an error.\<close>

function recv_all ::
  "(string \<Rightarrow> message option) \<Rightarrow> string \<Rightarrow> message list \<times> protocol_error option" where
  "recv_all decode s =
     (case read_message decode s of
        (Inl e, _) \<Rightarrow> ([], Some e)
      | (Inr None, _) \<Rightarrow> ([], None)
      | (Inr (Some m), rest) \<Rightarrow> apfst ((#) m) (recv_all decode rest))"
  by pat_completeness auto
termination
  by (relation "measure (\<lambda>(decode, s). length s)") (auto dest: read_message_shorter [OF sym])

declare recv_all.simps [simp del]

section \<open>Framing is inverse to reading\<close>

lemma utf8_ok_ascii: "\<forall>c \<in> set s. byte_in 0 127 c \<Longrightarrow> utf8_ok (s @ t) = utf8_ok t"
  by (induction s) auto

lemma digit_ascii: "is_digit c \<Longrightarrow> byte_in 0 127 c"
  by (simp add: is_digit_def byte_in_def)

lemma newline_not_digit: "\<not> is_digit newline" "\<not> is_digit cr"
  by (simp_all add: newline_def cr_def)

lemma digit_solid: "is_digit c \<Longrightarrow> solid c"
  by (auto simp: solid_def ws_seqs_def is_digit_def)

lemma trim_end_digits: "trim_end (s @ show_nat n) = s @ show_nat n"
proof -
  obtain t c where sn: "show_nat n = t @ [c]" by (cases "show_nat n" rule: rev_cases) auto
  then have "solid c" using show_nat_digits [of c n] by (simp add: digit_solid)
  then show ?thesis using trim_end_solid [of c "s @ t"] sn by simp
qed

lemma trim_start_space: "solid c \<Longrightarrow> trim_start (CHR '' '' # c # s) = c # s"
proof -
  assume c: "solid c"
  have "drop_seq ws_seqs (CHR '' '' # c # s) = Some (c # s)" by (simp add: ws_seqs_def)
  then have "trim_start (CHR '' '' # c # s) = trim_start (c # s)"
    by (simp add: trim_start_def strip_seqs.simps [of ws_seqs "CHR '' '' # c # s"])
  with c show ?thesis by (simp add: trim_start_solid)
qed

lemma trim_space_digits: "trim (CHR '' '' # show_nat n) = show_nat n"
proof -
  obtain c t where sn: "show_nat n = c # t" by (cases "show_nat n") auto
  then have "solid c" using show_nat_digits [of c n] by (simp add: digit_solid)
  then have "trim_start (CHR '' '' # show_nat n) = show_nat n" by (simp add: sn trim_start_space)
  then show ?thesis using trim_end_digits [of "[]" n] by (simp add: trim_def)
qed

lemma trim_eol_framed: "cr \<notin> set l \<Longrightarrow> newline \<notin> set l \<Longrightarrow> trim_eol (l @ [cr, newline]) = l"
proof -
  assume "cr \<notin> set l" "newline \<notin> set l"
  then have "dropWhile (\<lambda>c. c = cr \<or> c = newline) (rev l) = rev l"
    by (cases "rev l") auto
  then show ?thesis by (simp add: trim_eol_def)
qed

text \<open>One \<open>Content-Length\<close> line of the writer, whatever follows it.\<close>

lemma read_head_length_line:
  assumes "n \<le> 2 ^ 64 - 1"
  shows "read_head len saw (''Content-Length: '' @ show_nat n @ cr # newline # s) = read_head (Some n) True s"
proof -
  define l where "l = ''Content-Length: '' @ show_nat n"
  have l: "newline \<notin> set l" "cr \<notin> set l"
    using newline_not_digit show_nat_free by (auto simp: l_def newline_def cr_def)
  have "\<forall>c \<in> set (l @ [cr, newline]). byte_in 0 127 c"
    using show_nat_digits digit_ascii by (auto simp: l_def newline_def cr_def byte_in_def)
  then have utf8: "utf8_ok (l @ [cr, newline])" using utf8_ok_ascii [of _ "[]"] by fastforce
  have rl: "read_line (l @ cr # newline # s) = (l @ [cr, newline], s)"
    using read_line_framed [of "l @ [cr]" s] l by (simp add: cr_def newline_def)
  have key: "strip_prefix content_length_key l = Some (CHR '' '' # show_nat n)"
    by (simp add: strip_prefix_def content_length_key_def l_def)
  have val: "parse_u64 (trim (CHR '' '' # show_nat n)) = Some n"
    using assms by (simp add: trim_space_digits parse_u64_def parse_radix_show_nat)
  have "l \<noteq> []" by (simp add: l_def)
  then have "read_head len saw (l @ cr # newline # s) = read_head (Some n) True s"
    using rl utf8 key val l by (subst read_head.simps) (simp add: Let_def trim_eol_framed)
  then show ?thesis by (simp add: l_def)
qed

lemma read_head_blank: "read_head len saw (cr # newline # s) = Inr (Head len s)"
proof -
  have "read_line (cr # newline # s) = ([cr, newline], s)" by (simp add: cr_def newline_def)
  moreover have "utf8_ok [cr, newline]" by (simp add: cr_def newline_def byte_in_def)
  moreover have "trim_eol [cr, newline] = []" by (simp add: trim_eol_def)
  ultimately show ?thesis by (subst read_head.simps) simp
qed

lemma read_write_message:
  assumes "decode (encode m) = Some m'" and "length (encode m) \<le> 2 ^ 63 - 1"
  shows "read_message decode (write_message encode m @ rest) = (Inr (Some m'), rest)"
  using assms read_head_length_line [of "length (encode m)" None False "cr # newline # encode m @ rest"]
  by (simp add: read_message_def write_message_def read_head_blank)

lemma recv_all_written:
  assumes "\<forall>m \<in> set ms. decode (encode m) = Some (back m) \<and> length (encode m) \<le> 2 ^ 63 - 1"
  shows "recv_all decode (concat (map (write_message encode) ms)) = (map back ms, None)"
  using assms
proof (induction ms)
  case Nil
  show ?case by (simp add: recv_all.simps read_message_def read_head.simps)
next
  case (Cons m ms)
  let ?rest = "concat (map (write_message encode) ms)"
  from Cons.prems have "read_message decode (write_message encode m @ ?rest) = (Inr (Some (back m)), ?rest)"
    by (simp add: read_write_message)
  then show ?case using Cons by (simp add: recv_all.simps [of decode "write_message encode m @ ?rest"])
qed

section \<open>Malformed heads\<close>

lemma read_message_eof: "read_message decode [] = (Inr None, [])"
  by (simp add: read_message_def read_head.simps)

lemma read_message_blank_first:
  "fst (read_message decode (cr # newline # s)) = Inl (InvalidHeader ''missing Content-Length'')"
  by (simp add: read_message_def read_head_blank)

lemma read_message_other_header:
  assumes "newline \<notin> set l" "cr \<notin> set l" "l \<noteq> []" "utf8_ok (l @ [cr, newline])"
    and "\<not> prefix content_length_key l"
  shows "fst (read_message decode (l @ cr # newline # s)) = Inl (InvalidHeader l)"
proof -
  have "read_line (l @ cr # newline # s) = (l @ [cr, newline], s)"
    using read_line_framed [of "l @ [cr]" s] assms(1,2) by (simp add: cr_def newline_def)
  then have "read_head None False (l @ cr # newline # s) = Inl (InvalidHeader l)"
    using assms by (subst read_head.simps) (simp add: trim_eol_framed strip_prefix_def)
  then show ?thesis by (simp add: read_message_def)
qed

lemma read_message_truncated_body:
  assumes "decode_len = length (encode m)" "decode_len \<le> 2 ^ 63 - 1" "k < decode_len"
  shows "fst (read_message decode
     (''Content-Length: '' @ show_nat decode_len @ [cr, newline, cr, newline] @ take k (encode m))) = Inl IoError"
  using assms read_head_length_line [of decode_len None False "cr # newline # take k (encode m)"]
  by (simp add: read_message_def read_head_blank)

lemma read_message_huge_length:
  assumes "2 ^ 63 \<le> n" "n \<le> 2 ^ 64 - 1"
  shows "fst (read_message decode (''Content-Length: '' @ show_nat n @ [cr, newline, cr, newline] @ s)) =
    Inl Panicked"
  using assms read_head_length_line [of n None False "cr # newline # s"]
  by (simp add: read_message_def read_head_blank)

section \<open>Channels\<close>

text \<open>
  The two halves of \<open>channel.rs\<close>: a duplex channel is what can still be read and what has been written.
  A failure of the writer is an argument; the buffer of the writer is flushed with every message, so a
  \<open>flush\<close> alone writes nothing more.
\<close>

record duplex_channel =
  dc_read :: string
  dc_written :: string

definition from_streams :: "string \<Rightarrow> string \<Rightarrow> duplex_channel" where
  "from_streams reader writer = \<lparr>dc_read = reader, dc_written = writer\<rparr>"

definition into_channels :: "duplex_channel \<Rightarrow> string \<times> string" where
  "into_channels ch = (dc_read ch, dc_written ch)"

definition channel_send ::
  "(message \<Rightarrow> string) \<Rightarrow> protocol_error option \<Rightarrow> message \<Rightarrow> string \<Rightarrow> (protocol_error + unit) \<times> string" where
  "channel_send encode fails m written =
     (case fails of Some e \<Rightarrow> (Inl e, written) | None \<Rightarrow> (Inr (), written @ write_message encode m))"

definition channel_flush :: "protocol_error option \<Rightarrow> string \<Rightarrow> (protocol_error + unit) \<times> string" where
  "channel_flush fails written = (case fails of Some e \<Rightarrow> Inl e | None \<Rightarrow> Inr (), written)"

text \<open>Two channels whose streams are crossed carry what one sends to the other, in order.\<close>

lemma sent_is_received:
  assumes "\<forall>m \<in> set ms. decode (encode m) = Some (back m) \<and> length (encode m) \<le> 2 ^ 63 - 1"
  shows "recv_all decode (dc_read (from_streams
      (foldl (\<lambda>written m. snd (channel_send encode None m written)) [] ms) [])) = (map back ms, None)"
proof -
  have "foldl (\<lambda>written m. snd (channel_send encode None m written)) w ms = w @ concat (map (write_message encode) ms)" for w
    by (induction ms arbitrary: w) (simp_all add: channel_send_def)
  then show ?thesis using recv_all_written [OF assms] by (simp add: from_streams_def)
qed

end
