(* ===== verification/DapProperties.thy ===== *)
theory DapProperties imports DapTransport begin

text \<open>
  The properties of the protocol layer: typed messages and their JSON trees, and the framing on
  the wire, with the text of a tree left to \<open>serde_json\<close>: \<open>render\<close> writes it, \<open>parse\<close> reads it
  back, and reading what was written is the one law the properties use.
\<close>

definition encode_message :: "(json \<Rightarrow> string) \<Rightarrow> message \<Rightarrow> string" where
  "encode_message render m = render (message_to_value m)"

definition decode_message :: "(string \<Rightarrow> json option) \<Rightarrow> string \<Rightarrow> message option" where
  "decode_message parse s = Option.bind (parse s) value_to_message"

text \<open>C20: a channel that is drained after any messages were written to it one after the other
  yields exactly these messages, in order, with nothing left over and no error; an optional value
  that was JSON \<open>null\<close> comes back absent.\<close>

theorem dap_framing_roundtrip:
  assumes "\<forall>m \<in> set ms. message_ok m \<and> parse (render (message_to_value m)) = Some (message_to_value m) \<and>
      length (render (message_to_value m)) \<le> 2 ^ 63 - 1"
  shows "recv_all (decode_message parse) (concat (map (write_message (encode_message render)) ms)) =
    (map settle ms, None)"
  using assms value_message_roundtrip
  by (intro recv_all_written) (simp add: encode_message_def decode_message_def)

definition demo_ping :: message where
  "demo_ping = Request \<lparr>rq_seq = 1, rq_command = ''threads'', rq_arguments = None\<rparr>"

lemma dap_framing_roundtrip_witness:
  "recv_all (decode_message (\<lambda>_. Some (message_to_value demo_ping)))
     (concat (map (write_message (encode_message (\<lambda>_. ''{}''))) [demo_ping, demo_ping])) =
   ([demo_ping, demo_ping], None)"
  using dap_framing_roundtrip [of "[demo_ping, demo_ping]" "\<lambda>_. Some (message_to_value demo_ping)" "\<lambda>_. ''{}''"]
  by (simp add: demo_ping_def settle_opt_def)



text \<open>A typed message survives the trip through its JSON tree, and whatever tree is accepted
  was a message with its numbers in range.\<close>

theorem dap_value_roundtrip:
  assumes "message_ok m"
  shows "value_to_message (message_to_value m) = Some (settle m) \<and>
    (\<forall>v m'. value_to_message v = Some m' \<longrightarrow>
       message_ok m' \<and> value_to_message (message_to_value m') = Some m')"
  using value_message_roundtrip [OF assms] value_message_roundtrip value_to_message_ok by metis

lemma dap_value_roundtrip_witness:
  "value_to_message (message_to_value demo_ping) = Some demo_ping"
  using dap_value_roundtrip [of demo_ping] by (simp add: demo_ping_def settle_opt_def)

end
