(* ===== verification/MuxBreakpoints.thy ===== *)
theory MuxBreakpoints imports DapMessage begin

text \<open>
  The breakpoint tracker of \<open>protocol-mux/src/breakpoint_state.rs\<close>: what the editor asked for,
  what the adapter answered and reported, kept for control clients that attach later. The
  invariant says that an adapter id always names an existing entry, that two ids never name
  the same one, and that a file without breakpoints has no entry; every operation keeps it.
\<close>

section \<open>State\<close>

record source_bp =
  sb_line :: int
  sb_condition :: "string option"
  sb_hit_condition :: "string option"
  sb_log_message :: "string option"

record exception_bp =
  eb_filter :: string
  eb_condition :: "string option"

record pending_set =
  pd_source_path :: string
  pd_specs :: "source_bp list"

record tracker =
  tk_source :: "(string, source_bp list) hmap"
  tk_exception :: "exception_bp list"
  tk_pending :: "(int, pending_set) hmap"
  tk_ids :: "(int, string \<times> nat) hmap"

definition tracker_new :: tracker where
  "tracker_new = \<lparr>tk_source = [], tk_exception = [], tk_pending = [], tk_ids = []\<rparr>"

section \<open>Reading breakpoints from JSON\<close>

definition parse_source_breakpoint :: "json \<Rightarrow> source_bp option" where
  "parse_source_breakpoint v =
     (case get_i64 v ''line'' of
        None \<Rightarrow> None
      | Some line \<Rightarrow> Some
          \<lparr>sb_line = line, sb_condition = get_str v ''condition'',
           sb_hit_condition = get_str v ''hitCondition'',
           sb_log_message = get_str v ''logMessage''\<rparr>)"

definition bp_source_path :: "json \<Rightarrow> string" where
  "bp_source_path bp = unwrap_or (Option.bind (jget bp ''source'') (\<lambda>s. get_str s ''path'')) []"

text \<open>One element of the adapter's answer, with the requested breakpoint at the same index.\<close>

definition merge_breakpoint :: "source_bp option \<Rightarrow> json \<Rightarrow> source_bp option" where
  "merge_breakpoint req bp =
     (if get_bool bp ''verified'' = Some False then None
      else case or_else (get_i64 bp ''line'') (map_option sb_line req) of
        None \<Rightarrow> None
      | Some line \<Rightarrow> Some
          \<lparr>sb_line = line,
           sb_condition = or_else (get_str bp ''condition'') (Option.bind req sb_condition),
           sb_hit_condition = or_else (get_str bp ''hitCondition'') (Option.bind req sb_hit_condition),
           sb_log_message = or_else (get_str bp ''logMessage'') (Option.bind req sb_log_message)\<rparr>)"

definition nth_opt :: "'a list \<Rightarrow> nat \<Rightarrow> 'a option" where
  "nth_opt xs i = (if i < length xs then Some (xs ! i) else None)"

definition merge_breakpoints :: "json list \<Rightarrow> source_bp list \<Rightarrow> source_bp list" where
  "merge_breakpoints resp req =
     (if resp = [] then req
      else List.map_filter (\<lambda>(i, bp). merge_breakpoint (nth_opt req i) bp) (enumerate 0 resp))"

section \<open>Requests and responses\<close>

definition track_set_breakpoints_request :: "int \<Rightarrow> json \<Rightarrow> tracker \<Rightarrow> tracker" where
  "track_set_breakpoints_request bseq msg t =
     (let args = Option.bind (jget msg ''arguments'') as_object;
          path = unwrap_or (Option.bind args (\<lambda>a. Option.bind (obj_get a ''source'')
                   (\<lambda>s. get_str s ''path''))) [];
          specs = (case Option.bind args (\<lambda>a. Option.bind (obj_get a ''breakpoints'') as_array) of
                     Some items \<Rightarrow> List.map_filter parse_source_breakpoint items
                   | None \<Rightarrow> [])
      in t\<lparr>tk_pending := hm_insert bseq \<lparr>pd_source_path = path, pd_specs = specs\<rparr> (tk_pending t)\<rparr>)"

definition rebuild_source_breakpoints :: "string \<Rightarrow> source_bp list \<Rightarrow> tracker \<Rightarrow> tracker" where
  "rebuild_source_breakpoints path specs t =
     t\<lparr>tk_ids := filter (\<lambda>(_, p, _). p \<noteq> path) (tk_ids t),
       tk_source := (if specs = [] then hm_remove path (tk_source t)
                     else hm_insert path specs (tk_source t))\<rparr>"

text \<open>The path the answer is filed under: the first breakpoint's own, else the request's.\<close>

definition resolved_path :: "json list option \<Rightarrow> string \<Rightarrow> string" where
  "resolved_path resp requested =
     (case Option.bind resp (\<lambda>items. case items of [] \<Rightarrow> None | bp # _ \<Rightarrow>
             Option.bind (jget bp ''source'') (\<lambda>s. get_str s ''path'')) of
        Some p \<Rightarrow> if p \<noteq> [] then p else requested
      | None \<Rightarrow> requested)"

definition observe_set_breakpoints_response :: "json \<Rightarrow> tracker \<Rightarrow> tracker" where
  "observe_set_breakpoints_response msg t =
     (if get_bool msg ''success'' \<noteq> Some True then t
      else let rs = unwrap_or (Option.bind (or_else (jget msg ''request_seq'') (jget msg ''requestSeq'')) as_i64) 0
        in case hm_get (tk_pending t) rs of
             None \<Rightarrow> t
           | Some p \<Rightarrow>
               let resp = Option.bind (jget msg ''body'') (\<lambda>b. get_array b ''breakpoints'');
                   path = resolved_path resp (pd_source_path p);
                   specs = (case resp of Some items \<Rightarrow> merge_breakpoints items (pd_specs p)
                                       | None \<Rightarrow> pd_specs p)
               in rebuild_source_breakpoints path specs (t\<lparr>tk_pending := hm_remove rs (tk_pending t)\<rparr>))"

definition exception_condition :: "json list option \<Rightarrow> string \<Rightarrow> string option" where
  "exception_condition options flt =
     Option.bind options (\<lambda>os. case List.map_filter (\<lambda>o'.
         if get_str o' ''filterId'' = Some flt then get_str o' ''condition'' else None) os of
       [] \<Rightarrow> None | c # _ \<Rightarrow> Some c)"

definition track_set_exception_breakpoints_request :: "json \<Rightarrow> tracker \<Rightarrow> tracker" where
  "track_set_exception_breakpoints_request msg t =
     (let args = Option.bind (jget msg ''arguments'') as_object;
          filters = (case Option.bind args (\<lambda>a. Option.bind (obj_get a ''filters'') as_array) of
                       Some items \<Rightarrow> List.map_filter as_str items | None \<Rightarrow> []);
          options = Option.bind args (\<lambda>a. Option.bind (obj_get a ''filterOptions'') as_array)
      in t\<lparr>tk_exception := map (\<lambda>f. \<lparr>eb_filter = f, eb_condition = exception_condition options f\<rparr>) filters\<rparr>)"

section \<open>Breakpoint events\<close>

text \<open>Where the tracker filed the breakpoint with the adapter's id, if it knows the id.\<close>

definition known_slot :: "json \<Rightarrow> tracker \<Rightarrow> (string \<times> nat) option" where
  "known_slot bp t = (case get_i64 bp ''id'' of Some k \<Rightarrow> hm_get (tk_ids t) k | None \<Rightarrow> None)"

definition file_entries :: "tracker \<Rightarrow> string \<Rightarrow> source_bp list" where
  "file_entries t path = unwrap_or (hm_get (tk_source t) path) []"

definition push_breakpoint :: "string \<Rightarrow> int option \<Rightarrow> source_bp \<Rightarrow> tracker \<Rightarrow> tracker" where
  "push_breakpoint path bpid spec t =
     t\<lparr>tk_source := hm_insert path (file_entries t path @ [spec]) (tk_source t),
       tk_ids := (case bpid of Some k \<Rightarrow> hm_insert k (path, length (file_entries t path)) (tk_ids t)
                             | None \<Rightarrow> tk_ids t)\<rparr>"

definition apply_new_breakpoint :: "json \<Rightarrow> tracker \<Rightarrow> tracker" where
  "apply_new_breakpoint bp t =
     (let path = bp_source_path bp; entries = file_entries t path in
      if path = [] then t
      else case parse_source_breakpoint bp of
        None \<Rightarrow> t
      | Some spec \<Rightarrow>
          if sb_line spec < 0 then t
          else (case known_slot bp t of
                  Some (_, i) \<Rightarrow>
                    if i < length entries
                    then t\<lparr>tk_source := hm_insert path (entries[i := spec]) (tk_source t)\<rparr>
                    else push_breakpoint path (get_i64 bp ''id'') spec t
                | None \<Rightarrow> push_breakpoint path (get_i64 bp ''id'') spec t))"

definition update_changed :: "json \<Rightarrow> source_bp \<Rightarrow> source_bp" where
  "update_changed bp sb =
     \<lparr>sb_line = unwrap_or (get_i64 bp ''line'') (sb_line sb),
      sb_condition = (if jget bp ''condition'' \<noteq> None then get_str bp ''condition'' else sb_condition sb),
      sb_hit_condition = (if jget bp ''hitCondition'' \<noteq> None then get_str bp ''hitCondition''
                          else sb_hit_condition sb),
      sb_log_message = (if jget bp ''logMessage'' \<noteq> None then get_str bp ''logMessage''
                        else sb_log_message sb)\<rparr>"

definition apply_changed_breakpoint :: "json \<Rightarrow> tracker \<Rightarrow> tracker" where
  "apply_changed_breakpoint bp t =
     (case known_slot bp t of
        None \<Rightarrow> apply_new_breakpoint bp t
      | Some (path, i) \<Rightarrow>
          (case hm_get (tk_source t) path of
             None \<Rightarrow> apply_new_breakpoint bp t
           | Some entries \<Rightarrow>
               if i < length entries
               then t\<lparr>tk_source := hm_insert path (entries[i := update_changed bp (entries ! i)]) (tk_source t)\<rparr>
               else apply_new_breakpoint bp t))"

definition remove_nth :: "nat \<Rightarrow> 'a list \<Rightarrow> 'a list" where
  "remove_nth i xs = take i xs @ drop (Suc i) xs"

definition shift_slot :: "string \<Rightarrow> nat \<Rightarrow> string \<times> nat \<Rightarrow> string \<times> nat" where
  "shift_slot path i x = (fst x, if fst x = path \<and> i < snd x then snd x - 1 else snd x)"

definition apply_removed_breakpoint :: "json \<Rightarrow> tracker \<Rightarrow> tracker" where
  "apply_removed_breakpoint bp t =
     (case get_i64 bp ''id'' of
        None \<Rightarrow> t
      | Some k \<Rightarrow>
          (case hm_get (tk_ids t) k of
             None \<Rightarrow> t
           | Some (path, i) \<Rightarrow>
               let ids = hm_remove k (tk_ids t);
                   source = (case hm_get (tk_source t) path of
                       None \<Rightarrow> tk_source t
                     | Some entries \<Rightarrow>
                         let entries' = (if i < length entries then remove_nth i entries else entries)
                         in if entries' = [] then hm_remove path (tk_source t)
                            else hm_insert path entries' (tk_source t))
               in t\<lparr>tk_source := source,
                    tk_ids := map (\<lambda>(j, x). (j, shift_slot path i x)) ids\<rparr>))"

definition observe_breakpoint_event :: "json \<Rightarrow> tracker \<Rightarrow> tracker" where
  "observe_breakpoint_event msg t =
     (let body = Option.bind (jget msg ''body'') as_object;
          reason = Option.bind body (\<lambda>b. Option.bind (obj_get b ''reason'') as_str)
      in case Option.bind body (\<lambda>b. obj_get b ''breakpoint'') of
           None \<Rightarrow> t
         | Some bp \<Rightarrow>
             if reason = Some ''new'' then apply_new_breakpoint bp t
             else if reason = Some ''changed'' then apply_changed_breakpoint bp t
             else if reason = Some ''removed'' then apply_removed_breakpoint bp t
             else t)"

section \<open>Snapshot\<close>

definition source_bp_json :: "source_bp \<Rightarrow> json" where
  "source_bp_json sb =
     jobj [(''line'', jint (sb_line sb)), (''condition'', opt_str_json (sb_condition sb)),
           (''hit_condition'', opt_str_json (sb_hit_condition sb)),
           (''log_message'', opt_str_json (sb_log_message sb))]"

definition snapshot :: "tracker \<Rightarrow> json" where
  "snapshot t =
     jobj [(''breakpoints'', jobj (map (\<lambda>(p, sbs). (p, JArray (map source_bp_json sbs))) (tk_source t))),
           (''exception_breakpoints'',
              JArray (map (\<lambda>e. jobj [(''filter'', JString (eb_filter e)),
                                     (''condition'', opt_str_json (eb_condition e))]) (tk_exception t)))]"

section \<open>The invariant\<close>

definition tracker_ok :: "tracker \<Rightarrow> bool" where
  "tracker_ok t \<longleftrightarrow>
     distinct (hm_keys (tk_source t)) \<and> distinct (hm_keys (tk_ids t)) \<and>
     (\<forall>p sbs. hm_get (tk_source t) p = Some sbs \<longrightarrow> sbs \<noteq> []) \<and>
     (\<forall>k p i. hm_get (tk_ids t) k = Some (p, i) \<longrightarrow>
        i < length (unwrap_or (hm_get (tk_source t) p) [])) \<and>
     (\<forall>j k x. hm_get (tk_ids t) j = Some x \<longrightarrow> hm_get (tk_ids t) k = Some x \<longrightarrow> j = k)"

lemma tracker_okI:
  assumes "distinct (hm_keys (tk_source t))" "distinct (hm_keys (tk_ids t))"
    and "\<And>p sbs. hm_get (tk_source t) p = Some sbs \<Longrightarrow> sbs \<noteq> []"
    and "\<And>k p i. hm_get (tk_ids t) k = Some (p, i) \<Longrightarrow> i < length (unwrap_or (hm_get (tk_source t) p) [])"
    and "\<And>j k p i. hm_get (tk_ids t) j = Some (p, i) \<Longrightarrow> hm_get (tk_ids t) k = Some (p, i) \<Longrightarrow> j = k"
  shows "tracker_ok t"
  using assms unfolding tracker_ok_def by auto

lemma tracker_okD:
  assumes "tracker_ok t"
  shows "distinct (hm_keys (tk_source t))" "distinct (hm_keys (tk_ids t))"
    and "hm_get (tk_source t) p = Some sbs \<Longrightarrow> sbs \<noteq> []"
    and "hm_get (tk_ids t) k = Some (p, i) \<Longrightarrow> i < length (unwrap_or (hm_get (tk_source t) p) [])"
    and "hm_get (tk_ids t) j = Some x \<Longrightarrow> hm_get (tk_ids t) k = Some x \<Longrightarrow> j = k"
  using assms unfolding tracker_ok_def by blast+

lemma tracker_ok_new [simp]: "tracker_ok tracker_new"
  by (simp add: tracker_ok_def tracker_new_def)

lemma tracker_ok_track_set [intro]:
  "tracker_ok t \<Longrightarrow> tracker_ok (track_set_breakpoints_request n m t)"
  by (simp add: track_set_breakpoints_request_def Let_def tracker_ok_def)

lemma tracker_ok_track_exception [intro]:
  "tracker_ok t \<Longrightarrow> tracker_ok (track_set_exception_breakpoints_request m t)"
  by (simp add: track_set_exception_breakpoints_request_def Let_def tracker_ok_def)

lemma ids_retain:
  assumes "distinct (hm_keys ids)"
  shows "hm_get (filter (\<lambda>(_, p, _). p \<noteq> path) ids) k = Some (q, i) \<longleftrightarrow>
     hm_get ids k = Some (q, i) \<and> q \<noteq> path"
  using hm_get_retain [OF assms, of "\<lambda>_ x. fst x \<noteq> path" k]
  by (auto simp: case_prod_unfold split: option.splits if_splits)

lemma tracker_ok_rebuild [intro]:
  assumes ok: "tracker_ok t"
  shows "tracker_ok (rebuild_source_breakpoints path specs t)"
proof (rule tracker_okI, goal_cases)
  case 1
  show ?case using tracker_okD(1) [OF ok] by (auto simp: rebuild_source_breakpoints_def)
next
  case 2
  show ?case using tracker_okD(2) [OF ok] by (simp add: rebuild_source_breakpoints_def hm_distinct_retain)
next
  case 3
  then show ?case using tracker_okD(3) [OF ok]
    by (auto simp: rebuild_source_breakpoints_def split: if_splits)
next
  case 4
  then show ?case using tracker_okD(4) [OF ok] ids_retain [OF tracker_okD(2) [OF ok]]
    by (auto simp: rebuild_source_breakpoints_def)
next
  case 5
  then show ?case using tracker_okD(5) [OF ok] ids_retain [OF tracker_okD(2) [OF ok]]
    by (auto simp: rebuild_source_breakpoints_def)
qed

lemma tracker_ok_observe_response [intro]:
  assumes "tracker_ok t"
  shows "tracker_ok (observe_set_breakpoints_response m t)"
proof -
  have "tracker_ok (t\<lparr>tk_pending := x\<rparr>)" for x
    using assms by (simp add: tracker_ok_def)
  then show ?thesis using assms
    by (auto simp: observe_set_breakpoints_response_def Let_def split: option.splits)
qed

text \<open>Replacing the entries of one file by as many others, and appending one.\<close>

lemma tracker_ok_same_length:
  assumes ok: "tracker_ok t" and old: "hm_get (tk_source t) path = Some entries"
    and len: "length new = length entries"
  shows "tracker_ok (t\<lparr>tk_source := hm_insert path new (tk_source t)\<rparr>)"
proof (rule tracker_okI, goal_cases)
  case 1
  show ?case using tracker_okD(1) [OF ok] by auto
next
  case 2
  show ?case using tracker_okD(2) [OF ok] by simp
next
  case 3
  then show ?case using tracker_okD(3) [OF ok] old len by (auto split: if_splits)
next
  case (4 k p i)
  then show ?case using tracker_okD(4) [OF ok, of k p i] old len by (auto split: if_splits)
next
  case 5
  then show ?case using tracker_okD(5) [OF ok] by simp
qed

lemma tracker_ok_push [intro]:
  assumes ok: "tracker_ok t"
  shows "tracker_ok (push_breakpoint path bpid spec t)"
proof (rule tracker_okI, goal_cases)
  case 1
  show ?case using tracker_okD(1) [OF ok] by (auto simp: push_breakpoint_def)
next
  case 2
  show ?case using tracker_okD(2) [OF ok] by (auto simp: push_breakpoint_def split: option.splits)
next
  case 3
  then show ?case using tracker_okD(3) [OF ok] by (auto simp: push_breakpoint_def split: if_splits)
next
  case (4 k p i)
  then show ?case using tracker_okD(4) [OF ok, of k p i]
    by (auto simp: push_breakpoint_def file_entries_def split: option.splits if_splits)
next
  case (5 j k p i)
  have "hm_get (tk_ids t) n \<noteq> Some (path, length (file_entries t path))" for n
    using tracker_okD(4) [OF ok, of n path] by (auto simp: file_entries_def)
  with 5 show ?case using tracker_okD(5) [OF ok]
    by (auto simp: push_breakpoint_def split: option.splits if_splits)
qed

lemma tracker_ok_replace:
  assumes "tracker_ok t" "i < length (file_entries t path)"
  shows "tracker_ok (t\<lparr>tk_source := hm_insert path ((file_entries t path)[i := spec]) (tk_source t)\<rparr>)"
  using assms by (cases "hm_get (tk_source t) path") (auto simp: file_entries_def intro: tracker_ok_same_length)

lemma tracker_ok_new_breakpoint [intro]:
  "tracker_ok t \<Longrightarrow> tracker_ok (apply_new_breakpoint bp t)"
  by (auto simp: apply_new_breakpoint_def Let_def tracker_ok_replace split: option.splits prod.splits)

lemma tracker_ok_changed_breakpoint [intro]:
  "tracker_ok t \<Longrightarrow> tracker_ok (apply_changed_breakpoint bp t)"
  by (auto simp: apply_changed_breakpoint_def split: option.splits prod.splits
      intro: tracker_ok_same_length)

lemma length_remove_nth [simp]: "i < length xs \<Longrightarrow> length (remove_nth i xs) = length xs - 1"
  by (simp add: remove_nth_def)

lemma nth_remove_nth:
  "n < length xs - 1 \<Longrightarrow> i < length xs \<Longrightarrow> remove_nth i xs ! n = xs ! (if n < i then n else Suc n)"
  by (auto simp: remove_nth_def nth_append)

text \<open>Removing a breakpoint: its index is dropped, later ones in the file move down by one.\<close>

lemma removed_entries:
  assumes ok: "tracker_ok t" and slot: "hm_get (tk_ids t) k = Some (path, i)" and bp: "get_i64 bp ''id'' = Some k"
  shows "file_entries (apply_removed_breakpoint bp t) p =
      (if p = path then remove_nth i (file_entries t path) else file_entries t p)"
proof -
  from tracker_okD(4) [OF ok slot] obtain es where es: "hm_get (tk_source t) path = Some es" "i < length es"
    by (cases "hm_get (tk_source t) path") auto
  with slot bp show ?thesis
    by (auto simp: apply_removed_breakpoint_def file_entries_def Let_def)
qed

lemma removed_ids:
  assumes "hm_get (tk_ids t) k = Some (path, i)" and "get_i64 bp ''id'' = Some k"
  shows "hm_get (tk_ids (apply_removed_breakpoint bp t)) j =
     (if j = k then None else map_option (shift_slot path i) (hm_get (tk_ids t) j))"
  using assms by (simp add: apply_removed_breakpoint_def Let_def hm_get_map_values)

lemma shift_slot_inj:
  "x \<noteq> (path, i) \<Longrightarrow> y \<noteq> (path, i) \<Longrightarrow> shift_slot path i x = shift_slot path i y \<Longrightarrow> x = y"
  by (cases x; cases y) (auto simp: shift_slot_def split: if_splits)

lemma shift_slot_bound:
  assumes "x \<noteq> (path, i)" "snd x < length (file_entries t (fst x))" "i < length (file_entries t path)"
  shows "snd (shift_slot path i x) < length (if fst x = path then remove_nth i (file_entries t path)
           else file_entries t (fst x))"
  using assms by (cases x) (auto simp: shift_slot_def)

lemma tracker_ok_removed_breakpoint [intro]:
  assumes ok: "tracker_ok t"
  shows "tracker_ok (apply_removed_breakpoint bp t)"
proof (cases "known_slot bp t")
  case None
  then show ?thesis using ok
    by (auto simp: apply_removed_breakpoint_def known_slot_def split: option.splits)
next
  case (Some x)
  then obtain k path i where bp: "get_i64 bp ''id'' = Some k" and slot: "hm_get (tk_ids t) k = Some (path, i)"
    by (cases x) (auto simp: known_slot_def split: option.splits)
  note ids = removed_ids [OF slot bp] and entries = removed_entries [OF ok slot bp]
  have i: "i < length (file_entries t path)" using tracker_okD(4) [OF ok slot] by (simp add: file_entries_def)
  show ?thesis
  proof (rule tracker_okI, goal_cases)
    case 1
    show ?case using tracker_okD(1) [OF ok] bp slot
      by (auto simp: apply_removed_breakpoint_def Let_def split: option.splits)
  next
    case 2
    show ?case using tracker_okD(2) [OF ok] bp slot
      by (auto simp: apply_removed_breakpoint_def Let_def)
  next
    case 3
    then show ?case using tracker_okD(3) [OF ok] bp slot
      by (auto simp: apply_removed_breakpoint_def Let_def split: option.splits if_splits)
  next
    case (4 j p n)
    then obtain x where j: "j \<noteq> k" "hm_get (tk_ids t) j = Some x" "shift_slot path i x = (p, n)"
      by (auto simp: ids split: if_splits)
    then have x: "fst x = p" "x \<noteq> (path, i)" using tracker_okD(5) [OF ok slot, of j]
      by (auto simp: shift_slot_def)
    then have "snd x < length (file_entries t p)"
      using tracker_okD(4) [OF ok, of j p "snd x"] j by (simp add: file_entries_def prod_eq_iff)
    then have "n < length (file_entries (apply_removed_breakpoint bp t) p)"
      using shift_slot_bound [of x path i t] x j i by (auto simp: entries split: if_splits)
    then show ?case by (simp add: file_entries_def)
  next
    case (5 j l p n)
    then obtain x y where xy: "j \<noteq> k" "hm_get (tk_ids t) j = Some x" "l \<noteq> k" "hm_get (tk_ids t) l = Some y"
        "shift_slot path i x = shift_slot path i y"
      by (auto simp: ids split: if_splits)
    then have "x \<noteq> (path, i)" "y \<noteq> (path, i)" using tracker_okD(5) [OF ok slot] by blast+
    with xy have "x = y" by (metis shift_slot_inj)
    with xy show ?case using tracker_okD(5) [OF ok] by blast
  qed
qed

section \<open>The tracker as a machine\<close>

datatype tracker_event =
    SetBreakpointsSent int json
  | ResponseSeen json
  | BreakpointEvent json
  | SetExceptionBreakpointsSent json

fun tracker_step :: "tracker \<Rightarrow> tracker_event \<Rightarrow> tracker" where
  "tracker_step t (SetBreakpointsSent n m) = track_set_breakpoints_request n m t"
| "tracker_step t (ResponseSeen m) = observe_set_breakpoints_response m t"
| "tracker_step t (BreakpointEvent m) = observe_breakpoint_event m t"
| "tracker_step t (SetExceptionBreakpointsSent m) = track_set_exception_breakpoints_request m t"

lemma tracker_ok_event [intro]: "tracker_ok t \<Longrightarrow> tracker_ok (observe_breakpoint_event m t)"
  by (auto simp: observe_breakpoint_event_def Let_def split: option.splits)

interpretation tk: guarded_machine tracker_new tracker_step "\<lambda>_ _. True" tracker_ok
proof (unfold_locales, goal_cases)
  case 1
  show ?case by simp
next
  case (2 t e)
  then show ?case by (cases e) auto
qed

end
