(* ===== verification/MuxCache.thy ===== *)
theory MuxCache imports MuxBreakpoints begin

text \<open>
  The late-join cache of \<open>protocol-mux/src/cache.rs\<close>: the last \<open>initialize\<close> body, the
  \<open>initialized\<close> event and the last \<open>stopped\<close> event, replayed to a client that attaches after the
  session has started, and the breakpoint tracker the snapshot request is served from.
\<close>

section \<open>State and operations\<close>

record cache =
  ca_initialized :: "json option"
  ca_last_stopped :: "json option"
  ca_initialize_body :: "json option"
  ca_breakpoints :: tracker

definition cache_new :: cache where
  "cache_new = \<lparr>ca_initialized = None, ca_last_stopped = None, ca_initialize_body = None,
                ca_breakpoints = tracker_new\<rparr>"

definition cache_observe :: "json \<Rightarrow> cache \<Rightarrow> cache" where
  "cache_observe m c =
     (if message_kind m \<noteq> KEvent then c
      else if event_name m = Some ''initialized'' then c\<lparr>ca_initialized := Some m\<rparr>
      else if event_name m = Some ''stopped'' then c\<lparr>ca_last_stopped := Some m\<rparr>
      else if event_name m = Some ''breakpoint''
        then c\<lparr>ca_breakpoints := observe_breakpoint_event m (ca_breakpoints c)\<rparr>
      else c)"

definition cache_initialize_body :: "json \<Rightarrow> cache \<Rightarrow> cache" where
  "cache_initialize_body m c =
     (if get_str m ''command'' = Some ''initialize'' \<and> get_bool m ''success'' = Some True
      then c\<lparr>ca_initialize_body := jget m ''body''\<rparr> else c)"

definition cache_observe_response :: "json \<Rightarrow> cache \<Rightarrow> cache" where
  "cache_observe_response m c =
     (if message_kind m \<noteq> KResponse then c
      else let c' = cache_initialize_body m c
           in c'\<lparr>ca_breakpoints := observe_set_breakpoints_response m (ca_breakpoints c')\<rparr>)"

definition cache_observe_client_request :: "int \<Rightarrow> json \<Rightarrow> cache \<Rightarrow> cache" where
  "cache_observe_client_request bseq m c =
     (if command m = Some ''setBreakpoints''
        then c\<lparr>ca_breakpoints := track_set_breakpoints_request bseq m (ca_breakpoints c)\<rparr>
      else if command m = Some ''setExceptionBreakpoints''
        then c\<lparr>ca_breakpoints := track_set_exception_breakpoints_request m (ca_breakpoints c)\<rparr>
      else c)"

definition breakpoint_snapshot :: "cache \<Rightarrow> json" where
  "breakpoint_snapshot c = snapshot (ca_breakpoints c)"

definition replayed_initialize :: "json \<Rightarrow> json" where
  "replayed_initialize body =
     jobj [(''type'', JString ''response''), (''seq'', jint 0), (''request_seq'', jint 0),
           (''success'', JBool True), (''command'', JString ''initialize''), (''body'', body)]"

definition opt_list :: "'a option \<Rightarrow> 'a list" where
  "opt_list x = (case x of Some y \<Rightarrow> [y] | None \<Rightarrow> [])"

definition replay :: "cache \<Rightarrow> json list" where
  "replay c = opt_list (map_option replayed_initialize (ca_initialize_body c))
     @ opt_list (ca_initialized c) @ opt_list (ca_last_stopped c)"

section \<open>What the cache promises\<close>

text \<open>The three replayed messages are the last of their kind the adapter sent.\<close>

definition event_named :: "string \<Rightarrow> json \<Rightarrow> bool" where
  "event_named n m \<longleftrightarrow> message_kind m = KEvent \<and> event_name m = Some n"

definition cache_ok :: "cache \<Rightarrow> bool" where
  "cache_ok c \<longleftrightarrow>
     (\<forall>m. ca_initialized c = Some m \<longrightarrow> event_named ''initialized'' m) \<and>
     (\<forall>m. ca_last_stopped c = Some m \<longrightarrow> event_named ''stopped'' m) \<and>
     tracker_ok (ca_breakpoints c)"

lemma cache_ok_new [simp]: "cache_ok cache_new"
  by (simp add: cache_ok_def cache_new_def)

lemma cache_ok_observe [intro]: "cache_ok c \<Longrightarrow> cache_ok (cache_observe m c)"
  by (auto simp: cache_ok_def cache_observe_def event_named_def)

lemma cache_ok_observe_response [intro]: "cache_ok c \<Longrightarrow> cache_ok (cache_observe_response m c)"
  by (auto simp: cache_ok_def cache_observe_response_def cache_initialize_body_def Let_def)

lemma cache_ok_client_request [intro]: "cache_ok c \<Longrightarrow> cache_ok (cache_observe_client_request n m c)"
  by (auto simp: cache_ok_def cache_observe_client_request_def)

datatype cache_event = Observed json | ObservedResponse json | ClientRequested int json

fun cache_step :: "cache \<Rightarrow> cache_event \<Rightarrow> cache" where
  "cache_step c (Observed m) = cache_observe m c"
| "cache_step c (ObservedResponse m) = cache_observe_response m c"
| "cache_step c (ClientRequested n m) = cache_observe_client_request n m c"

interpretation lc: guarded_machine cache_new cache_step "\<lambda>_ _. True" cache_ok
proof (unfold_locales, goal_cases)
  case 1
  show ?case by simp
next
  case (2 c e)
  then show ?case by (cases e) auto
qed

text \<open>The event a kind of message leaves in the cache, as a function of the history.\<close>

fun last_observed :: "string \<Rightarrow> cache_event list \<Rightarrow> json option" where
  "last_observed n [] = None"
| "last_observed n (e # es) =
     (case last_observed n es of
        Some m \<Rightarrow> Some m
      | None \<Rightarrow> (case e of Observed m \<Rightarrow> if event_named n m then Some m else None | _ \<Rightarrow> None))"

lemma step_last_stopped:
  "ca_last_stopped (cache_step c e) =
     (case e of Observed m \<Rightarrow> if event_named ''stopped'' m then Some m else ca_last_stopped c
              | _ \<Rightarrow> ca_last_stopped c)"
  by (cases e) (auto simp: cache_observe_def event_named_def cache_observe_response_def Let_def
      cache_initialize_body_def cache_observe_client_request_def)

lemma step_initialized:
  "ca_initialized (cache_step c e) =
     (case e of Observed m \<Rightarrow> if event_named ''initialized'' m then Some m else ca_initialized c
              | _ \<Rightarrow> ca_initialized c)"
  by (cases e) (auto simp: cache_observe_def event_named_def cache_observe_response_def Let_def
      cache_initialize_body_def cache_observe_client_request_def)

lemma run_last_stopped:
  "ca_last_stopped (foldl cache_step c es) =
     (case last_observed ''stopped'' es of Some m \<Rightarrow> Some m | None \<Rightarrow> ca_last_stopped c)"
  by (induction es arbitrary: c) (auto simp: step_last_stopped split: option.splits cache_event.splits)

lemma run_initialized:
  "ca_initialized (foldl cache_step c es) =
     (case last_observed ''initialized'' es of Some m \<Rightarrow> Some m | None \<Rightarrow> ca_initialized c)"
  by (induction es arbitrary: c) (auto simp: step_initialized split: option.splits cache_event.splits)

lemma replayed_initialize_kind: "message_kind (replayed_initialize b) = KResponse"
  by (simp add: message_kind_def replayed_initialize_def)

lemma replay_length: "length (replay c) \<le> 3"
  by (auto simp: replay_def opt_list_def split: option.splits)

lemma replay_members:
  "cache_ok c \<Longrightarrow> m \<in> set (replay c) \<Longrightarrow>
     message_kind m = KResponse \<or> event_named ''initialized'' m \<or> event_named ''stopped'' m"
  by (auto simp: replay_def opt_list_def cache_ok_def replayed_initialize_kind split: option.splits)

text \<open>
  A \<open>continued\<close> event leaves the last \<open>stopped\<close> event in place: a client that attaches while the
  program runs is told it is stopped.
\<close>

lemma continued_keeps_stopped:
  "event_named ''continued'' m \<Longrightarrow> cache_observe m c = c"
  by (simp add: event_named_def cache_observe_def)

end
