(* ===== verification/MuxRemapper.thy ===== *)
theory MuxRemapper imports DapMessage begin

text \<open>
  Sequence numbers: \<open>protocol-mux/src/remapper.rs\<close>, \<open>cancel.rs\<close> and the roles of \<open>client.rs\<close>.
  The interface \<open>seq_mapping\<close> states what the session relies on; the remapper of the code is
  its interpretation.
\<close>

section \<open>Roles and sequence numbers\<close>

datatype client_role = Editor | Control | Agent | OtherRole

datatype client_seq = ClientSeq (client_raw: int)

datatype backend_seq = BackendSeq (backend_raw: int)

instantiation backend_seq :: linorder
begin

definition less_eq_backend_seq :: "backend_seq \<Rightarrow> backend_seq \<Rightarrow> bool" where
  "less_eq_backend_seq a b \<longleftrightarrow> backend_raw a \<le> backend_raw b"

definition less_backend_seq :: "backend_seq \<Rightarrow> backend_seq \<Rightarrow> bool" where
  "less_backend_seq a b \<longleftrightarrow> backend_raw a < backend_raw b"

instance
  by standard (auto simp: less_eq_backend_seq_def less_backend_seq_def intro: backend_seq.expand)

end

section \<open>The contract\<close>

text \<open>
  \<open>assoc c b\<close> records that the client's \<open>c\<close> went upstream as \<open>b\<close>, \<open>release b\<close> takes the record
  back when the answer to \<open>b\<close> arrives.
\<close>

locale seq_mapping =
  fixes assoc :: "'c \<Rightarrow> 'b \<Rightarrow> 'm \<Rightarrow> 'm"
    and release :: "'b \<Rightarrow> 'm \<Rightarrow> 'c option \<times> 'm"
    and client_of :: "'m \<Rightarrow> 'b \<Rightarrow> 'c option"
    and backend_of :: "'m \<Rightarrow> 'c \<Rightarrow> 'b option"
  assumes client_assoc: "client_of (assoc c b m) = (client_of m)(b \<mapsto> c)"
    and backend_assoc: "backend_of (assoc c b m) = (backend_of m)(c \<mapsto> b)"
    and release_fst: "fst (release b m) = client_of m b"
    and client_release: "client_of (snd (release b m)) = (client_of m)(b := None)"
    and backend_release: "backend_of (snd (release b m)) =
      (case client_of m b of Some c \<Rightarrow> (backend_of m)(c := None) | None \<Rightarrow> backend_of m)"
begin

text \<open>Every forward entry is matched by the reverse one.\<close>

definition coherent :: "'m \<Rightarrow> bool" where
  "coherent m \<longleftrightarrow> (\<forall>c b. backend_of m c = Some b \<longrightarrow> client_of m b = Some c)"

lemma coherent_assoc: "coherent m \<Longrightarrow> client_of m b = None \<Longrightarrow> coherent (assoc c b m)"
  by (auto simp: coherent_def client_assoc backend_assoc)

lemma coherent_release: "coherent m \<Longrightarrow> coherent (snd (release b m))"
  by (auto simp: coherent_def client_release backend_release split: option.splits if_splits)

lemma release_once: "fst (release b (snd (release b m))) = None"
  by (simp add: release_fst client_release)

lemma release_assoc: "fst (release b (assoc c b m)) = Some c"
  by (simp add: release_fst client_assoc)

lemma release_assoc_other: "b \<noteq> d \<Longrightarrow> fst (release d (assoc c b m)) = fst (release d m)"
  by (simp add: release_fst client_assoc)

text \<open>
  Two outstanding requests with one client number: the first answer takes the forward entry
  of the second away, so a later cancel of it finds nothing.
\<close>

lemma reused_number_forgotten:
  "b \<noteq> d \<Longrightarrow> backend_of (snd (release b (assoc c d (assoc c b m)))) c = None"
  by (simp add: backend_release client_assoc)

end

section \<open>The remapper\<close>

record remapper =
  rm_forward :: "(client_seq, backend_seq) hmap"
  rm_reverse :: "(backend_seq, client_seq) hmap"

definition remapper_new :: remapper where
  "remapper_new = \<lparr>rm_forward = [], rm_reverse = []\<rparr>"

definition remapper_map :: "client_seq \<Rightarrow> backend_seq \<Rightarrow> remapper \<Rightarrow> remapper" where
  "remapper_map c b r =
     r\<lparr>rm_forward := hm_insert c b (rm_forward r), rm_reverse := hm_insert b c (rm_reverse r)\<rparr>"

definition remapper_unmap :: "backend_seq \<Rightarrow> remapper \<Rightarrow> client_seq option \<times> remapper" where
  "remapper_unmap b r =
     (case hm_get (rm_reverse r) b of
        None \<Rightarrow> (None, r)
      | Some c \<Rightarrow> (Some c, r\<lparr>rm_reverse := hm_remove b (rm_reverse r),
                             rm_forward := hm_remove c (rm_forward r)\<rparr>))"

definition lookup_backend :: "remapper \<Rightarrow> client_seq \<Rightarrow> backend_seq option" where
  "lookup_backend r c = hm_get (rm_forward r) c"

definition lookup_client :: "remapper \<Rightarrow> backend_seq \<Rightarrow> client_seq option" where
  "lookup_client r b = hm_get (rm_reverse r) b"

interpretation rm: seq_mapping remapper_map remapper_unmap lookup_client lookup_backend
  by unfold_locales
     (auto simp: remapper_map_def remapper_unmap_def lookup_client_def lookup_backend_def fun_eq_iff
       split: option.splits)

lemma lookup_client_new [simp]: "lookup_client remapper_new b = None"
  by (simp add: lookup_client_def remapper_new_def)

lemma lookup_backend_new [simp]: "lookup_backend remapper_new c = None"
  by (simp add: lookup_backend_def remapper_new_def)

lemma coherent_new: "rm.coherent remapper_new"
  by (simp add: rm.coherent_def)

section \<open>Cancel requests\<close>

definition translate_cancel :: "json \<Rightarrow> remapper \<Rightarrow> json \<times> bool" where
  "translate_cancel v r =
     (case cancel_request_id v of
        None \<Rightarrow> (v, False)
      | Some n \<Rightarrow>
          (case lookup_backend r (ClientSeq n) of
             Some b \<Rightarrow> set_cancel_request_id (backend_raw b) v
           | None \<Rightarrow> (v, False)))"

lemma translate_cancel_kind [simp]: "message_kind (fst (translate_cancel v r)) = message_kind v"
  by (simp add: translate_cancel_def split: option.splits)

lemma translate_cancel_command [simp]: "command (fst (translate_cancel v r)) = command v"
  by (simp add: translate_cancel_def split: option.splits)

lemma translate_cancel_other: "command v \<noteq> Some ''cancel'' \<Longrightarrow> translate_cancel v r = (v, False)"
  by (simp add: translate_cancel_def cancel_request_id_def)

lemma translate_cancel_jget:
  "k \<noteq> ''arguments'' \<Longrightarrow> jget (fst (translate_cancel v r)) k = jget v k"
  by (auto simp: translate_cancel_def set_cancel_jget split: option.splits)

lemma translate_cancel_mapped:
  assumes "cancel_request_id v = Some n" and "lookup_backend r (ClientSeq n) = Some b"
    and "in_i64 (backend_raw b)"
  shows "cancel_request_id (fst (translate_cancel v r)) = Some (backend_raw b) \<and> snd (translate_cancel v r)"
  using assms cancel_set_cancel [OF assms(1,3)] by (simp add: translate_cancel_def)

end
