(* ===== verification/MuxSession.thy ===== *)
theory MuxSession imports MuxCache MuxRemapper begin

text \<open>
  The multiplex session of \<open>protocol-mux/src/session.rs\<close>: one upstream adapter, many clients.
  A channel is the list of the messages sent on it so far together with the flag that its
  receiver is alive; the order of a \<open>HashMap\<close> iteration is the order of the association list
  that stands for it. A handler returns the new state and the error that ends the loop, so a
  branch that mutates the state before it fails is visible.
\<close>

section \<open>State\<close>

datatype mux_error = ClientNotFound | UpstreamNotConnected | OtherError string

record client_state =
  cs_role :: client_role
  cs_queue :: "json list"
  cs_open :: bool

record session =
  ss_clients :: "(int, client_state) hmap"
  ss_pending :: "(int, int \<times> int) hmap"
  ss_remapper :: remapper
  ss_backend_seq :: int
  ss_display_seq :: int
  ss_receivers :: "int list"
  ss_published :: "json list"
  ss_upstream :: "json list"
  ss_upstream_open :: bool
  ss_cache :: cache
  ss_next_client :: int

definition session_new :: session where
  "session_new =
     \<lparr>ss_clients = [], ss_pending = [], ss_remapper = remapper_new, ss_backend_seq = 0,
      ss_display_seq = 0, ss_receivers = [], ss_published = [], ss_upstream = [],
      ss_upstream_open = True, ss_cache = cache_new, ss_next_client = 0\<rparr>"

definition uses_seq_remapping :: "client_role \<Rightarrow> bool" where
  "uses_seq_remapping role \<longleftrightarrow> role = Editor"

section \<open>Delivery\<close>

definition next_backend_seq :: "session \<Rightarrow> int" where
  "next_backend_seq s = wrap_i64 (ss_backend_seq s + 1)"

definition next_display_seq :: "session \<Rightarrow> int" where
  "next_display_seq s = wrap_i64 (ss_display_seq s + 1)"

definition push_queue :: "json \<Rightarrow> client_state \<Rightarrow> client_state" where
  "push_queue m c = c\<lparr>cs_queue := cs_queue c @ [m]\<rparr>"

definition deliver_to_client :: "int \<Rightarrow> json \<Rightarrow> session \<Rightarrow> session \<times> mux_error option" where
  "deliver_to_client i m s =
     (case hm_get (ss_clients s) i of
        None \<Rightarrow> (s, Some ClientNotFound)
      | Some c \<Rightarrow>
          if cs_open c then (s\<lparr>ss_clients := hm_insert i (push_queue m c) (ss_clients s)\<rparr>, None)
          else (s, Some ClientNotFound))"

text \<open>The loop of \<open>deliver_to_role\<close> and \<open>broadcast_to_all\<close>: the first failed delivery ends it.\<close>

fun deliver_each :: "(int, client_state) hmap \<Rightarrow> (client_role \<Rightarrow> bool) \<Rightarrow> json \<Rightarrow> session
    \<Rightarrow> session \<times> mux_error option" where
  "deliver_each [] P m s = (s, None)"
| "deliver_each ((i, c) # cs) P m s =
     (if P (cs_role c)
      then case deliver_to_client i m s of
             (s', Some e) \<Rightarrow> (s', Some e)
           | (s', None) \<Rightarrow> deliver_each cs P m s'
      else deliver_each cs P m s)"

definition deliver_to_role :: "client_role \<Rightarrow> json \<Rightarrow> session \<Rightarrow> session \<times> mux_error option" where
  "deliver_to_role role m s = deliver_each (ss_clients s) (\<lambda>r. r = role) m s"

definition deliver_to_editor :: "json \<Rightarrow> session \<Rightarrow> session \<times> mux_error option" where
  "deliver_to_editor m s =
     deliver_to_role Editor (set_seq (next_display_seq s) m) (s\<lparr>ss_display_seq := next_display_seq s\<rparr>)"

definition publish :: "json \<Rightarrow> session \<Rightarrow> session" where
  "publish m s = (if 0 < length (ss_receivers s) then s\<lparr>ss_published := ss_published s @ [m]\<rparr> else s)"

definition hears_events :: "client_role \<Rightarrow> bool" where
  "hears_events r \<longleftrightarrow> r = Editor \<or> r = Control"

definition broadcast_to_all :: "json \<Rightarrow> session \<Rightarrow> session \<times> mux_error option" where
  "broadcast_to_all m s =
     (let outbound = set_seq (next_display_seq s) m;
          s' = publish outbound (s\<lparr>ss_display_seq := next_display_seq s\<rparr>)
      in deliver_each (ss_clients s') hears_events outbound s')"

section \<open>Messages from upstream\<close>

text \<open>The routing of a response once the cache has seen it.\<close>

definition route_response :: "int \<Rightarrow> json \<Rightarrow> session \<Rightarrow> session \<times> mux_error option" where
  "route_response b m s =
     (case remapper_unmap (BackendSeq b) (ss_remapper s) of
        (Some c, r) \<Rightarrow> deliver_to_editor (set_request_seq (client_raw c) m) (s\<lparr>ss_remapper := r\<rparr>)
      | (None, r) \<Rightarrow>
          (case hm_get (ss_pending s) b of
             Some (i, n) \<Rightarrow>
               deliver_to_client i (set_request_seq n m) (s\<lparr>ss_pending := hm_remove b (ss_pending s)\<rparr>)
           | None \<Rightarrow> (s, None)))"

definition handle_upstream_message :: "json \<Rightarrow> session \<Rightarrow> session \<times> mux_error option" where
  "handle_upstream_message m s =
     (let s = publish m s in
      case message_kind m of
        KResponse \<Rightarrow>
          (let s = s\<lparr>ss_cache := cache_observe_response m (ss_cache s)\<rparr>
           in case request_seq m of
                None \<Rightarrow> (s, Some (OtherError ''response missing requestSeq''))
              | Some b \<Rightarrow> route_response b m s)
      | KEvent \<Rightarrow> broadcast_to_all m (s\<lparr>ss_cache := cache_observe m (ss_cache s)\<rparr>)
      | _ \<Rightarrow> (s, None))"

section \<open>Messages from clients\<close>

definition snapshot_command :: string where
  "snapshot_command = ''_dapBreakpointSnapshot''"

definition send_upstream :: "json \<Rightarrow> session \<Rightarrow> session \<times> mux_error option" where
  "send_upstream m s =
     (if ss_upstream_open s then (s\<lparr>ss_upstream := ss_upstream s @ [m]\<rparr>, None)
      else (s, Some UpstreamNotConnected))"

definition serve_snapshot :: "int \<Rightarrow> json \<Rightarrow> session \<Rightarrow> session \<times> mux_error option" where
  "serve_snapshot i m s =
     deliver_to_client i
       (response_json (next_display_seq s) (unwrap_or (seq m) 0) True (Some (breakpoint_snapshot (ss_cache s))))
       (s\<lparr>ss_display_seq := next_display_seq s\<rparr>)"

text \<open>
  An editor's number is remapped (and its cancel translated) when it has one; every other role
  is kept in the pending table, under its own number or the backend's.
\<close>

definition forward_editor :: "json \<Rightarrow> session \<Rightarrow> json \<times> session" where
  "forward_editor m s =
     (case seq m of
        None \<Rightarrow> (m, s)
      | Some n \<Rightarrow>
          let b = next_backend_seq s;
              m' = set_seq b (fst (translate_cancel m (ss_remapper s)))
          in (m', s\<lparr>ss_backend_seq := b,
                    ss_remapper := remapper_map (ClientSeq n) (BackendSeq b) (ss_remapper s),
                    ss_cache := cache_observe_client_request b m' (ss_cache s)\<rparr>))"

definition forward_other :: "int \<Rightarrow> json \<Rightarrow> session \<Rightarrow> json \<times> session" where
  "forward_other i m s =
     (let b = next_backend_seq s;
          m' = set_seq b m
      in (m', s\<lparr>ss_backend_seq := b,
                ss_pending := hm_insert b (i, unwrap_or (seq m) b) (ss_pending s),
                ss_cache := cache_observe_client_request b m' (ss_cache s)\<rparr>))"

definition handle_client_message :: "int \<Rightarrow> json \<Rightarrow> session \<Rightarrow> session \<times> mux_error option" where
  "handle_client_message i m s =
     (case hm_get (ss_clients s) i of
        None \<Rightarrow> (s, Some ClientNotFound)
      | Some c \<Rightarrow>
          if message_kind m \<noteq> KRequest then (s, None)
          else if cs_role c = Control \<and> command m = Some snapshot_command then serve_snapshot i m s
          else case (if uses_seq_remapping (cs_role c) then forward_editor m s else forward_other i m s) of
                 (m', s') \<Rightarrow> send_upstream m' s')"

section \<open>Operations and the loop\<close>

datatype session_op = Attach client_role | ClientSend int json | Detach int

fun deliver_replay :: "int \<Rightarrow> json list \<Rightarrow> session \<Rightarrow> session" where
  "deliver_replay i [] s = s"
| "deliver_replay i (m # ms) s = deliver_replay i ms (fst (deliver_to_client i m s))"

definition next_client_id :: "session \<Rightarrow> int" where
  "next_client_id s = wrap_u64 (ss_next_client s + 1)"

definition attach :: "client_role \<Rightarrow> session \<Rightarrow> session" where
  "attach role s =
     (let i = next_client_id s;
          s' = s\<lparr>ss_next_client := i, ss_receivers := ss_receivers s @ [i],
                 ss_clients := hm_insert i \<lparr>cs_role = role, cs_queue = [], cs_open = True\<rparr> (ss_clients s)\<rparr>
      in deliver_replay i (replay (ss_cache s')) s')"

definition detach :: "int \<Rightarrow> session \<Rightarrow> session" where
  "detach i s = s\<lparr>ss_clients := hm_remove i (ss_clients s)\<rparr>"

fun handle_op :: "session_op \<Rightarrow> session \<Rightarrow> session \<times> mux_error option" where
  "handle_op (Attach role) s = (attach role s, None)"
| "handle_op (ClientSend i m) s = handle_client_message i m s"
| "handle_op (Detach i) s = (detach i s, None)"

text \<open>
  What the loop's \<open>select!\<close> may see next, in any order, and what the other ends of the channels
  may do between two of its turns: a client drops the receiver of its queue or its
  subscription, the upstream side drops its receiver.
\<close>

datatype session_input =
    FromUpstream json
  | UpstreamClosed
  | Op session_op
  | RecvDropped int
  | EventsDropped int
  | UpstreamDropped

datatype loop_state = Running session | Ended session "mux_error option"

definition loop_result :: "session \<times> mux_error option \<Rightarrow> loop_state" where
  "loop_result r = (case r of (s, None) \<Rightarrow> Running s | (s, Some e) \<Rightarrow> Ended s (Some e))"

definition drop_recv :: "int \<Rightarrow> session \<Rightarrow> session" where
  "drop_recv i s =
     (case hm_get (ss_clients s) i of
        None \<Rightarrow> s
      | Some c \<Rightarrow> s\<lparr>ss_clients := hm_insert i (c\<lparr>cs_open := False\<rparr>) (ss_clients s)\<rparr>)"

fun session_step :: "session \<Rightarrow> session_input \<Rightarrow> loop_state" where
  "session_step s (FromUpstream m) = loop_result (handle_upstream_message m s)"
| "session_step s UpstreamClosed = Ended s None"
| "session_step s (Op op) = loop_result (handle_op op s)"
| "session_step s (RecvDropped i) = Running (drop_recv i s)"
| "session_step s (EventsDropped i) = Running (s\<lparr>ss_receivers := remove1 i (ss_receivers s)\<rparr>)"
| "session_step s UpstreamDropped = Running (s\<lparr>ss_upstream_open := False\<rparr>)"

fun loop_step :: "loop_state \<Rightarrow> session_input \<Rightarrow> loop_state" where
  "loop_step (Running s) i = session_step s i"
| "loop_step (Ended s e) i = Ended s e"

fun final_session :: "loop_state \<Rightarrow> session" where
  "final_session (Running s) = s"
| "final_session (Ended s e) = s"

section \<open>The registry without a loop\<close>

record multiplexer =
  mp_remapper :: remapper
  mp_next_client :: int
  mp_clients :: "(int, client_role) hmap"

definition multiplexer_new :: multiplexer where
  "multiplexer_new = \<lparr>mp_remapper = remapper_new, mp_next_client = 0, mp_clients = []\<rparr>"

definition attach_client :: "client_role \<Rightarrow> multiplexer \<Rightarrow> int \<times> multiplexer" where
  "attach_client role x =
     (let i = wrap_u64 (mp_next_client x + 1)
      in (i, x\<lparr>mp_next_client := i, mp_clients := hm_insert i role (mp_clients x)\<rparr>))"

definition detach_client :: "int \<Rightarrow> multiplexer \<Rightarrow> client_role option \<times> multiplexer" where
  "detach_client i x = (hm_get (mp_clients x) i, x\<lparr>mp_clients := hm_remove i (mp_clients x)\<rparr>)"

definition client_count :: "multiplexer \<Rightarrow> nat" where
  "client_count x = length (mp_clients x)"

lemma detach_attached:
  "attach_client role x = (i, y) \<Longrightarrow> fst (detach_client i y) = Some role \<and> hm_get (mp_clients (snd (detach_client i y))) i = None"
  by (auto simp: attach_client_def detach_client_def Let_def)

end
