(* ===== verification/MuxRouting.thy ===== *)
theory MuxRouting imports MuxSession begin

text \<open>
  What the session of \<open>MuxSession\<close> guarantees. Delivery only touches the clients' queues; a
  number issued upstream has exactly one owner until its response arrives, stated as the
  refinement of an abstract routing table; the invariant behind it holds in every state the
  loop reaches; numbers sent upstream strictly increase.
\<close>

section \<open>Frames\<close>

text \<open>Everything of a session but its clients, so that a loop of deliveries has one induction.\<close>

definition off_clients :: "session \<Rightarrow> session" where
  "off_clients s = s\<lparr>ss_clients := []\<rparr>"

lemma off_clients_deliver [simp]: "off_clients (fst (deliver_to_client i m s)) = off_clients s"
  by (simp add: off_clients_def deliver_to_client_def split: option.splits)

lemma off_clients_deliver_each [simp]: "off_clients (fst (deliver_each cs P m s)) = off_clients s"
proof (induction cs arbitrary: s)
  case Nil
  show ?case by simp
next
  case (Cons p cs)
  obtain i c where p: "p = (i, c)" by (cases p)
  obtain s' e where d: "deliver_to_client i m s = (s', e)" by (cases "deliver_to_client i m s")
  have "off_clients s' = off_clients s" using off_clients_deliver [of i m s] by (simp add: d)
  then show ?case using Cons.IH [of s] Cons.IH [of s'] by (cases e) (simp_all add: p d)
qed

lemma off_clients_fields:
  assumes "off_clients s = off_clients t"
  shows "ss_pending s = ss_pending t"
    and "ss_remapper s = ss_remapper t"
    and "ss_backend_seq s = ss_backend_seq t"
    and "ss_display_seq s = ss_display_seq t"
    and "ss_receivers s = ss_receivers t"
    and "ss_published s = ss_published t"
    and "ss_upstream s = ss_upstream t"
    and "ss_upstream_open s = ss_upstream_open t"
    and "ss_cache s = ss_cache t"
    and "ss_next_client s = ss_next_client t"
  using assms by (cases s; cases t; simp add: off_clients_def)+

lemmas deliver_to_client_frame [simp, mux_simps] = off_clients_fields [OF off_clients_deliver]

lemmas deliver_each_frame [simp, mux_simps] = off_clients_fields [OF off_clients_deliver_each]

lemma deliver_replay_frame [simp, mux_simps]:
  "ss_pending (deliver_replay i ms s) = ss_pending s"
  "ss_remapper (deliver_replay i ms s) = ss_remapper s"
  "ss_backend_seq (deliver_replay i ms s) = ss_backend_seq s"
  "ss_display_seq (deliver_replay i ms s) = ss_display_seq s"
  "ss_receivers (deliver_replay i ms s) = ss_receivers s"
  "ss_published (deliver_replay i ms s) = ss_published s"
  "ss_upstream (deliver_replay i ms s) = ss_upstream s"
  "ss_upstream_open (deliver_replay i ms s) = ss_upstream_open s"
  "ss_cache (deliver_replay i ms s) = ss_cache s"
  "ss_next_client (deliver_replay i ms s) = ss_next_client s"
  by (induction ms arbitrary: s) simp_all

lemma publish_frame [simp, mux_simps]:
  "ss_clients (publish m s) = ss_clients s"
  "ss_pending (publish m s) = ss_pending s"
  "ss_remapper (publish m s) = ss_remapper s"
  "ss_backend_seq (publish m s) = ss_backend_seq s"
  "ss_display_seq (publish m s) = ss_display_seq s"
  "ss_receivers (publish m s) = ss_receivers s"
  "ss_upstream (publish m s) = ss_upstream s"
  "ss_upstream_open (publish m s) = ss_upstream_open s"
  "ss_cache (publish m s) = ss_cache s"
  "ss_next_client (publish m s) = ss_next_client s"
  by (simp_all add: publish_def)

lemma send_upstream_frame [simp, mux_simps]:
  "ss_clients (fst (send_upstream m s)) = ss_clients s"
  "ss_pending (fst (send_upstream m s)) = ss_pending s"
  "ss_remapper (fst (send_upstream m s)) = ss_remapper s"
  "ss_backend_seq (fst (send_upstream m s)) = ss_backend_seq s"
  "ss_display_seq (fst (send_upstream m s)) = ss_display_seq s"
  "ss_cache (fst (send_upstream m s)) = ss_cache s"
  "ss_next_client (fst (send_upstream m s)) = ss_next_client s"
  by (simp_all add: send_upstream_def)

lemmas session_defs =
  handle_upstream_message_def route_response_def broadcast_to_all_def deliver_to_editor_def
  deliver_to_role_def handle_client_message_def serve_snapshot_def forward_editor_def
  forward_other_def attach_def detach_def drop_recv_def

section \<open>Clients under delivery\<close>

text \<open>Who a client is does not change when messages are delivered, only its queue grows.\<close>

definition clients_kept :: "session \<Rightarrow> session \<Rightarrow> bool" where
  "clients_kept s s' \<longleftrightarrow> hm_keys (ss_clients s') = hm_keys (ss_clients s) \<and>
     (\<forall>i c. hm_get (ss_clients s) i = Some c \<longrightarrow>
        (\<exists>c'. hm_get (ss_clients s') i = Some c' \<and> cs_role c' = cs_role c \<and> cs_open c' = cs_open c \<and>
              prefix (cs_queue c) (cs_queue c')))"

lemma clients_kept_refl [simp]: "clients_kept s s"
  by (auto simp: clients_kept_def)

lemma clients_kept_same [intro]: "ss_clients s' = ss_clients s \<Longrightarrow> clients_kept s s'"
  by (auto simp: clients_kept_def)

lemma clients_kept_trans: "clients_kept s t \<Longrightarrow> clients_kept t u \<Longrightarrow> clients_kept s u"
  unfolding clients_kept_def by (fastforce dest: prefix_order.trans)

lemma hm_keys_insert_known: "hm_get m k = Some v \<Longrightarrow> hm_keys (hm_insert k w m) = hm_keys m"
  by (induction m) (auto split: if_splits)

lemma clients_kept_deliver: "clients_kept s (fst (deliver_to_client i m s))"
proof (cases "hm_get (ss_clients s) i")
  case None
  then show ?thesis by (simp add: deliver_to_client_def)
next
  case (Some c)
  then show ?thesis
    by (simp add: deliver_to_client_def clients_kept_def hm_keys_insert_known push_queue_def)
qed

lemma clients_kept_deliver_each: "clients_kept s (fst (deliver_each cs P m s))"
proof (induction cs arbitrary: s)
  case Nil
  show ?case by simp
next
  case (Cons p cs)
  obtain i c where p: "p = (i, c)" by (cases p)
  obtain s' e where d: "deliver_to_client i m s = (s', e)" by fastforce
  have "clients_kept s s'" using clients_kept_deliver [of s i m] by (simp add: d)
  then show ?case using Cons.IH [of s] Cons.IH [of s'] clients_kept_trans
    by (auto simp: p d split: option.splits)
qed

lemma clients_kept_replay: "clients_kept s (deliver_replay i ms s)"
  by (induction ms arbitrary: s) (auto intro: clients_kept_trans clients_kept_deliver)

lemma clients_kept_distinct:
  "clients_kept s s' \<Longrightarrow> distinct (hm_keys (ss_clients s)) \<Longrightarrow> distinct (hm_keys (ss_clients s'))"
  by (simp add: clients_kept_def)

lemma clients_kept_keys: "clients_kept s s' \<Longrightarrow> hm_keys (ss_clients s') = hm_keys (ss_clients s)"
  by (simp add: clients_kept_def)

text \<open>A delivery that fails changes nothing; one that succeeds appends to one queue.\<close>

lemma deliver_to_client_open:
  "hm_get (ss_clients s) i = Some c \<Longrightarrow> cs_open c \<Longrightarrow>
     deliver_to_client i m s = (s\<lparr>ss_clients := hm_insert i (push_queue m c) (ss_clients s)\<rparr>, None)"
  by (simp add: deliver_to_client_def)

lemma deliver_to_client_gone:
  "hm_get (ss_clients s) i = None \<Longrightarrow> deliver_to_client i m s = (s, Some ClientNotFound)"
  by (simp add: deliver_to_client_def)

text \<open>
  When every addressed client still holds its receiver, the delivery loop reaches all of them
  exactly once and leaves every other queue alone.
\<close>

definition reachable_by :: "session \<Rightarrow> (client_role \<Rightarrow> bool) \<Rightarrow> (int, client_state) hmap \<Rightarrow> bool" where
  "reachable_by s P cs \<longleftrightarrow> distinct (hm_keys cs) \<and>
     list_all (\<lambda>p. hm_get (ss_clients s) (fst p) = Some (snd p) \<and>
       (P (cs_role (snd p)) \<longrightarrow> cs_open (snd p))) cs"

lemma deliver_each_all:
  assumes "reachable_by s P cs"
  shows "snd (deliver_each cs P m s) = None \<and>
     hm_get (ss_clients (fst (deliver_each cs P m s))) j =
       (case map_of cs j of Some c \<Rightarrow> Some (if P (cs_role c) then push_queue m c else c)
                          | None \<Rightarrow> hm_get (ss_clients s) j)"
  using assms
proof (induction cs arbitrary: s)
  case Nil
  show ?case by simp
next
  case (Cons p cs)
  obtain i c where p: "p = (i, c)" by (cases p)
  have i: "hm_get (ss_clients s) i = Some c" "P (cs_role c) \<Longrightarrow> cs_open c"
    and rest: "reachable_by s P cs" and fresh: "map_of cs i = None"
    using Cons.prems by (auto simp: p reachable_by_def map_of_eq_None_iff)
  show ?case
  proof (cases "P (cs_role c)")
    case False
    with Cons.IH [OF rest] i fresh show ?thesis by (simp add: p)
  next
    case True
    define t where "t = s\<lparr>ss_clients := hm_insert i (push_queue m c) (ss_clients s)\<rparr>"
    have d: "deliver_to_client i m s = (t, None)"
      using True i by (simp add: t_def deliver_to_client_open)
    have "reachable_by t P cs"
      using rest fresh by (auto simp: reachable_by_def list_all_iff t_def map_of_eq_None_iff)
    from Cons.IH [OF this] True d fresh show ?thesis by (auto simp: p t_def split: option.splits)
  qed
qed

lemma reachable_by_all:
  assumes "distinct (hm_keys (ss_clients s))"
    and "\<And>i c. hm_get (ss_clients s) i = Some c \<Longrightarrow> P (cs_role c) \<Longrightarrow> cs_open c"
    and "ss_clients t = ss_clients s"
  shows "reachable_by t P (ss_clients s)"
  using assms by (auto simp: reachable_by_def list_all_iff)


section \<open>The abstract routing table\<close>

text \<open>
  Who gets the response to a backend number: the editors, with the number the editor used, or
  one client. The concrete state spreads this over the remapper and the pending map.
\<close>

datatype route = ToEditors int | ToClient int int

definition owner :: "session \<Rightarrow> int \<Rightarrow> route option" where
  "owner s b =
     (case lookup_client (ss_remapper s) (BackendSeq b) of
        Some c \<Rightarrow> Some (ToEditors (client_raw c))
      | None \<Rightarrow> map_option (\<lambda>(i, n). ToClient i n) (hm_get (ss_pending s) b))"

record routing =
  rt_table :: "int \<Rightarrow> route option"
  rt_issued :: int

definition abs_routing :: "session \<Rightarrow> routing" where
  "abs_routing s = \<lparr>rt_table = owner s, rt_issued = ss_backend_seq s\<rparr>"

text \<open>The specification: issue the next number to the sender, or release a number.\<close>

definition issue :: "(int \<Rightarrow> route) \<Rightarrow> routing \<Rightarrow> routing" where
  "issue f r = (let b = rt_issued r + 1 in r\<lparr>rt_table := (rt_table r)(b \<mapsto> f b), rt_issued := b\<rparr>)"

definition release_number :: "int \<Rightarrow> routing \<Rightarrow> routing" where
  "release_number b r = r\<lparr>rt_table := (rt_table r)(b := None)\<rparr>"

definition spec_client_message :: "client_role \<Rightarrow> int \<Rightarrow> json \<Rightarrow> routing \<Rightarrow> routing" where
  "spec_client_message role i m r =
     (if message_kind m \<noteq> KRequest \<or> (role = Control \<and> command m = Some snapshot_command) then r
      else if role = Editor
        then (case seq m of Some n \<Rightarrow> issue (\<lambda>_. ToEditors n) r | None \<Rightarrow> r)
      else issue (\<lambda>b. ToClient i (unwrap_or (seq m) b)) r)"

definition spec_upstream_message :: "json \<Rightarrow> routing \<Rightarrow> routing" where
  "spec_upstream_message m r =
     (case (message_kind m, request_seq m) of (KResponse, Some b) \<Rightarrow> release_number b r | _ \<Rightarrow> r)"

section \<open>The invariant\<close>

definition session_ok :: "session \<Rightarrow> bool" where
  "session_ok s \<longleftrightarrow>
     distinct (hm_keys (ss_clients s)) \<and> 0 \<le> ss_backend_seq s \<and> in_i64 (ss_backend_seq s) \<and>
     (\<forall>b. lookup_client (ss_remapper s) (BackendSeq b) \<noteq> None \<longrightarrow> 0 < b \<and> b \<le> ss_backend_seq s) \<and>
     (\<forall>b. hm_get (ss_pending s) b \<noteq> None \<longrightarrow> 0 < b \<and> b \<le> ss_backend_seq s) \<and>
     (\<forall>b. lookup_client (ss_remapper s) (BackendSeq b) \<noteq> None \<longrightarrow> hm_get (ss_pending s) b = None) \<and>
     rm.coherent (ss_remapper s) \<and> cache_ok (ss_cache s)"

lemma session_okI:
  assumes "distinct (hm_keys (ss_clients s))" "0 \<le> ss_backend_seq s" "in_i64 (ss_backend_seq s)"
    and "\<And>b. lookup_client (ss_remapper s) (BackendSeq b) \<noteq> None \<Longrightarrow>
           0 < b \<and> b \<le> ss_backend_seq s \<and> hm_get (ss_pending s) b = None"
    and "\<And>b. hm_get (ss_pending s) b \<noteq> None \<Longrightarrow> 0 < b \<and> b \<le> ss_backend_seq s"
    and "rm.coherent (ss_remapper s)" "cache_ok (ss_cache s)"
  shows "session_ok s"
  using assms unfolding session_ok_def by blast

lemma session_okD:
  assumes "session_ok s"
  shows "distinct (hm_keys (ss_clients s))" "0 \<le> ss_backend_seq s" "in_i64 (ss_backend_seq s)"
    and "lookup_client (ss_remapper s) (BackendSeq b) \<noteq> None \<Longrightarrow> 0 < b \<and> b \<le> ss_backend_seq s"
    and "lookup_client (ss_remapper s) (BackendSeq b) \<noteq> None \<Longrightarrow> hm_get (ss_pending s) b = None"
    and "hm_get (ss_pending s) b \<noteq> None \<Longrightarrow> 0 < b \<and> b \<le> ss_backend_seq s"
    and "rm.coherent (ss_remapper s)" "cache_ok (ss_cache s)"
  using assms unfolding session_ok_def by blast+

lemma session_ok_new [simp]: "session_ok session_new"
  by (simp add: session_ok_def session_new_def coherent_new in_i64_def)

text \<open>The invariant and the table look at four fields only.\<close>

lemma session_ok_cong:
  assumes "session_ok s" "ss_pending t = ss_pending s" "ss_remapper t = ss_remapper s"
    "ss_backend_seq t = ss_backend_seq s" "ss_cache t = ss_cache s" "clients_kept s t"
  shows "session_ok t"
  using assms clients_kept_distinct [of s t] by (simp add: session_ok_def)

lemma owner_cong:
  "ss_pending t = ss_pending s \<Longrightarrow> ss_remapper t = ss_remapper s \<Longrightarrow> owner t = owner s"
  unfolding owner_def [abs_def] by (simp only:)

lemma abs_routing_cong:
  assumes "ss_pending t = ss_pending s" "ss_remapper t = ss_remapper s"
    "ss_backend_seq t = ss_backend_seq s"
  shows "abs_routing t = abs_routing s"
  unfolding abs_routing_def owner_def assms ..

lemma owner_issued: "session_ok s \<Longrightarrow> owner s b \<noteq> None \<Longrightarrow> 0 < b \<and> b \<le> ss_backend_seq s"
  using session_okD(4,6) [of s b] by (cases "lookup_client (ss_remapper s) (BackendSeq b)") (auto simp: owner_def)


section \<open>Handlers against the specification\<close>

lemma next_backend_plain:
  "session_ok s \<Longrightarrow> ss_backend_seq s < i64_max \<Longrightarrow> next_backend_seq s = ss_backend_seq s + 1"
  unfolding next_backend_seq_def by (rule wrap_i64_succ) (auto dest: session_okD)

lemma next_backend_fresh:
  assumes "session_ok s" and "ss_backend_seq s < b"
  shows "lookup_client (ss_remapper s) (BackendSeq b) = None" and "hm_get (ss_pending s) b = None"
  using session_okD(4) [OF assms(1), of b] session_okD(6) [OF assms(1), of b] assms(2) by fastforce+

lemma forward_editor_refines:
  assumes ok: "session_ok s" and small: "ss_backend_seq s < i64_max" and n: "seq m = Some n"
  shows "session_ok (snd (forward_editor m s)) \<and>
    abs_routing (snd (forward_editor m s)) = issue (\<lambda>_. ToEditors n) (abs_routing s)"
proof -
  define b where "b = ss_backend_seq s + 1"
  have nb: "next_backend_seq s = b" using next_backend_plain [OF ok small] by (simp add: b_def)
  note fresh = next_backend_fresh [OF ok, of b] and D = session_okD [OF ok]
  define t where "t = snd (forward_editor m s)"
  have t: "ss_clients t = ss_clients s" "ss_pending t = ss_pending s" "ss_backend_seq t = b"
    "ss_remapper t = remapper_map (ClientSeq n) (BackendSeq b) (ss_remapper s)" "cache_ok (ss_cache t)"
    using D(8) by (auto simp: t_def forward_editor_def n nb Let_def)
  have "session_ok t"
  proof (rule session_okI, goal_cases)
    case 1 show ?case using D(1) t by simp
  next
    case 2 show ?case using D(2) t by (simp add: b_def)
  next
    case 3 show ?case using D(2) small t by (simp add: b_def in_i64_def i64_max_def)
  next
    case (4 c)
    then show ?case using D(2) D(4,5) [of c] fresh
      by (auto simp: t rm.client_assoc b_def split: if_splits)
  next
    case (5 c) then show ?case using D(6) [of c] t by (auto simp: b_def)
  next
    case 6 show ?case using D(7) fresh t by (auto simp: b_def intro: rm.coherent_assoc)
  next
    case 7 show ?case by (rule t)
  qed
  moreover have "abs_routing t = issue (\<lambda>_. ToEditors n) (abs_routing s)"
    using D(2) by (auto simp: abs_routing_def issue_def Let_def owner_def t rm.client_assoc b_def fun_eq_iff
        split: option.split)
  ultimately show ?thesis by (simp add: t_def)
qed

lemma forward_other_refines:
  assumes ok: "session_ok s" and small: "ss_backend_seq s < i64_max"
  shows "session_ok (snd (forward_other i m s)) \<and>
    abs_routing (snd (forward_other i m s)) = issue (\<lambda>b. ToClient i (unwrap_or (seq m) b)) (abs_routing s)"
proof -
  define b where "b = ss_backend_seq s + 1"
  have nb: "next_backend_seq s = b" using next_backend_plain [OF ok small] by (simp add: b_def)
  note fresh = next_backend_fresh [OF ok, of b] and D = session_okD [OF ok]
  define t where "t = snd (forward_other i m s)"
  have t: "ss_clients t = ss_clients s" "ss_remapper t = ss_remapper s" "ss_backend_seq t = b"
    "ss_pending t = hm_insert b (i, unwrap_or (seq m) b) (ss_pending s)" "cache_ok (ss_cache t)"
    using D(8) by (auto simp: t_def forward_other_def nb Let_def)
  have "session_ok t"
  proof (rule session_okI, goal_cases)
    case 1 show ?case using D(1) t by simp
  next
    case 2 show ?case using D(2) t by (simp add: b_def)
  next
    case 3 show ?case using D(2) small t by (simp add: b_def in_i64_def i64_max_def)
  next
    case (4 c)
    then show ?case using D(4,5) [of c] fresh by (auto simp: t b_def split: if_splits)
  next
    case (5 c) then show ?case using D(2) D(6) [of c] t by (auto simp: b_def split: if_splits)
  next
    case 6 show ?case using D(7) t by simp
  next
    case 7 show ?case by (rule t)
  qed
  moreover have "abs_routing t = issue (\<lambda>b. ToClient i (unwrap_or (seq m) b)) (abs_routing s)"
    using fresh by (auto simp: abs_routing_def issue_def Let_def owner_def t b_def fun_eq_iff
        split: option.split)
  ultimately show ?thesis by (simp add: t_def)
qed


lemma handle_client_message_cases:
  assumes "hm_get (ss_clients s) i = Some c" and "message_kind m = KRequest"
    and "\<not> (cs_role c = Control \<and> command m = Some snapshot_command)"
  shows "handle_client_message i m s =
    (let r = (if cs_role c = Editor then forward_editor m s else forward_other i m s)
     in send_upstream (fst r) (snd r))"
  using assms by (auto simp: handle_client_message_def uses_seq_remapping_def case_prod_unfold Let_def)

lemma handle_client_message_refines:
  assumes ok: "session_ok s" and small: "ss_backend_seq s < i64_max"
    and c: "hm_get (ss_clients s) i = Some c"
  shows "session_ok (fst (handle_client_message i m s)) \<and>
    abs_routing (fst (handle_client_message i m s)) =
      spec_client_message (cs_role c) i m (abs_routing s)"
proof (cases "message_kind m \<noteq> KRequest \<or> (cs_role c = Control \<and> command m = Some snapshot_command)")
  case True
  let ?t = "fst (handle_client_message i m s)"
  have same: "ss_pending ?t = ss_pending s" "ss_remapper ?t = ss_remapper s"
    "ss_backend_seq ?t = ss_backend_seq s" "ss_cache ?t = ss_cache s"
    using True c by (auto simp: handle_client_message_def serve_snapshot_def)
  have kept: "clients_kept s ?t"
    using True c clients_kept_deliver [of "s\<lparr>ss_display_seq := next_display_seq s\<rparr>" i]
    by (auto simp: handle_client_message_def serve_snapshot_def clients_kept_def)
  show ?thesis
    using session_ok_cong [OF ok same kept] abs_routing_cong [OF same(1,2,3)] True
    by (simp add: spec_client_message_def)
next
  case False
  define r where "r = (if cs_role c = Editor then forward_editor m s else forward_other i m s)"
  have h: "handle_client_message i m s = send_upstream (fst r) (snd r)"
    using handle_client_message_cases [OF c, of m] False by (simp add: r_def Let_def)
  have "session_ok (snd r) \<and> abs_routing (snd r) = spec_client_message (cs_role c) i m (abs_routing s)"
  proof (cases "cs_role c = Editor \<and> seq m = None")
    case True
    then show ?thesis using ok by (simp add: r_def forward_editor_def spec_client_message_def)
  next
    case False': False
    then show ?thesis
      using False forward_editor_refines [OF ok small, of m] forward_other_refines [OF ok small, of i m]
      by (auto simp: r_def spec_client_message_def)
  qed
  then show ?thesis unfolding h
    using session_ok_cong [of "snd r" "fst (send_upstream (fst r) (snd r))"]
      abs_routing_cong [of "fst (send_upstream (fst r) (snd r))" "snd r"]
    by (auto simp: clients_kept_same)
qed

lemma handle_client_message_unknown:
  "hm_get (ss_clients s) i = None \<Longrightarrow> handle_client_message i m s = (s, Some ClientNotFound)"
  by (simp add: handle_client_message_def)

lemma clients_kept_editor: "clients_kept s (fst (deliver_to_editor m s))"
  using clients_kept_deliver_each [of "s\<lparr>ss_display_seq := next_display_seq s\<rparr>"]
  by (auto simp: deliver_to_editor_def deliver_to_role_def clients_kept_def)

lemma deliver_to_editor_frame [simp, mux_simps]:
  "ss_pending (fst (deliver_to_editor m s)) = ss_pending s"
  "ss_remapper (fst (deliver_to_editor m s)) = ss_remapper s"
  "ss_backend_seq (fst (deliver_to_editor m s)) = ss_backend_seq s"
  "ss_cache (fst (deliver_to_editor m s)) = ss_cache s"
  by (simp_all add: deliver_to_editor_def deliver_to_role_def)

lemma broadcast_to_all_frame [simp, mux_simps]:
  "ss_pending (fst (broadcast_to_all m s)) = ss_pending s"
  "ss_remapper (fst (broadcast_to_all m s)) = ss_remapper s"
  "ss_backend_seq (fst (broadcast_to_all m s)) = ss_backend_seq s"
  "ss_cache (fst (broadcast_to_all m s)) = ss_cache s"
  by (simp_all add: broadcast_to_all_def Let_def)

lemma clients_kept_broadcast: "clients_kept s (fst (broadcast_to_all m s))"
  using clients_kept_deliver_each [of "publish (set_seq (next_display_seq s) m) (s\<lparr>ss_display_seq := next_display_seq s\<rparr>)"]
  by (auto simp: broadcast_to_all_def Let_def clients_kept_def)

text \<open>A response takes its number out of the table, whoever owned it.\<close>

definition released :: "int \<Rightarrow> session \<Rightarrow> session" where
  "released b s =
     (case lookup_client (ss_remapper s) (BackendSeq b) of
        Some c \<Rightarrow> s\<lparr>ss_remapper := snd (remapper_unmap (BackendSeq b) (ss_remapper s))\<rparr>
      | None \<Rightarrow> s\<lparr>ss_pending := hm_remove b (ss_pending s)\<rparr>)"

lemma route_response_cases:
  "route_response b m s =
     (case owner s b of
        Some (ToEditors n) \<Rightarrow> deliver_to_editor (set_request_seq n m) (released b s)
      | Some (ToClient i n) \<Rightarrow> deliver_to_client i (set_request_seq n m) (released b s)
      | None \<Rightarrow> (s, None))"
  using rm.release_fst [of "BackendSeq b" "ss_remapper s"]
  by (cases "remapper_unmap (BackendSeq b) (ss_remapper s)")
     (auto simp: route_response_def owner_def released_def split: option.splits)

lemma released_refines:
  assumes ok: "session_ok s"
  shows "session_ok (released b s) \<and> abs_routing (released b s) = release_number b (abs_routing s)"
proof -
  note D = session_okD [OF ok]
  have "session_ok (released b s)"
    using D rm.coherent_release [OF D(7), of "BackendSeq b"]
    by (intro session_okI) (auto simp: released_def rm.client_release split: option.splits if_splits)
  moreover have "abs_routing (released b s) = release_number b (abs_routing s)"
    using D(5) [of b]
    by (auto simp: abs_routing_def release_number_def owner_def released_def fun_eq_iff rm.client_release
        split: option.splits)
  ultimately show ?thesis ..
qed


lemma route_response_refines:
  assumes ok: "session_ok s"
  shows "session_ok (fst (route_response b m s)) \<and>
    abs_routing (fst (route_response b m s)) = release_number b (abs_routing s)"
proof (cases "owner s b")
  case None
  then have "release_number b (abs_routing s) = abs_routing s"
    by (simp add: release_number_def abs_routing_def fun_upd_idem)
  with None show ?thesis using ok by (simp add: route_response_cases)
next
  case (Some r)
  define t where "t = released b s"
  note R = released_refines [OF ok, of b, folded t_def]
  let ?u = "fst (route_response b m s)"
  have u: "ss_pending ?u = ss_pending t" "ss_remapper ?u = ss_remapper t"
    "ss_backend_seq ?u = ss_backend_seq t" "ss_cache ?u = ss_cache t" "clients_kept t ?u"
    using Some clients_kept_editor clients_kept_deliver
    by (cases r; simp add: route_response_cases t_def [symmetric])+
  show ?thesis using session_ok_cong [OF _ u] abs_routing_cong [OF u(1,2,3)] R by simp
qed

lemma handle_upstream_message_refines:
  assumes ok: "session_ok s"
  shows "session_ok (fst (handle_upstream_message m s)) \<and>
    abs_routing (fst (handle_upstream_message m s)) = spec_upstream_message m (abs_routing s)"
proof -
  define t where "t = (publish m s)\<lparr>ss_cache := cache_observe_response m (ss_cache s)\<rparr>"
  have t: "session_ok t" "abs_routing t = abs_routing s"
    using ok by (auto simp: session_ok_def t_def intro: abs_routing_cong)
  define u where "u = (publish m s)\<lparr>ss_cache := cache_observe m (ss_cache s)\<rparr>"
  have u: "session_ok u" "abs_routing u = abs_routing s"
    using ok by (auto simp: session_ok_def u_def intro: abs_routing_cong)
  have p: "session_ok (publish m s)" "abs_routing (publish m s) = abs_routing s"
    using ok by (auto simp: session_ok_def intro: abs_routing_cong)
  show ?thesis
  proof (cases "message_kind m")
    case KResponse
    then show ?thesis using t route_response_refines [OF t(1), of _ m]
      by (cases "request_seq m")
         (simp_all add: handle_upstream_message_def Let_def spec_upstream_message_def t_def)
  next
    case KEvent
    have "session_ok (fst (broadcast_to_all m u))"
      by (rule session_ok_cong [OF u(1)]) (simp_all add: clients_kept_broadcast)
    moreover have "abs_routing (fst (broadcast_to_all m u)) = abs_routing u"
      by (rule abs_routing_cong) simp_all
    ultimately show ?thesis using KEvent u
      by (simp add: handle_upstream_message_def Let_def spec_upstream_message_def u_def)
  qed (use p in \<open>simp_all add: handle_upstream_message_def spec_upstream_message_def\<close>)
qed

lemma attach_ok:
  assumes ok: "session_ok s"
  shows "session_ok (attach role s) \<and> abs_routing (attach role s) = abs_routing s"
proof -
  define i where "i = next_client_id s"
  define t where "t = s\<lparr>ss_next_client := i, ss_receivers := ss_receivers s @ [i],
     ss_clients := hm_insert i \<lparr>cs_role = role, cs_queue = [], cs_open = True\<rparr> (ss_clients s)\<rparr>"
  have a: "attach role s = deliver_replay i (replay (ss_cache t)) t"
    by (simp add: attach_def Let_def i_def t_def)
  have "session_ok t" using ok by (auto simp: session_ok_def t_def)
  then have "session_ok (attach role s)" unfolding a
    by (rule session_ok_cong) (simp_all add: clients_kept_replay)
  moreover have "abs_routing (attach role s) = abs_routing s"
    unfolding a by (rule abs_routing_cong) (simp_all add: t_def)
  ultimately show ?thesis ..
qed

lemma detach_ok: "session_ok s \<Longrightarrow> session_ok (detach i s)"
  by (auto simp: session_ok_def detach_def)

lemma drop_recv_ok: "session_ok s \<Longrightarrow> session_ok (drop_recv i s)"
  by (auto simp: session_ok_def drop_recv_def split: option.splits)

section \<open>Every state the loop reaches\<close>

fun loop_ok :: "loop_state \<Rightarrow> bool" where
  "loop_ok l = session_ok (final_session l)"

text \<open>The one condition: the number the next request would get is still an \<open>i64\<close>.\<close>

fun numbers_left :: "loop_state \<Rightarrow> session_input \<Rightarrow> bool" where
  "numbers_left l i \<longleftrightarrow> ss_backend_seq (final_session l) < i64_max"

lemma final_loop_result [simp]: "final_session (loop_result r) = fst r"
  by (cases r; cases "snd r") (simp_all add: loop_result_def)

lemma session_step_ok:
  assumes ok: "session_ok s" and small: "ss_backend_seq s < i64_max"
  shows "session_ok (final_session (session_step s i))"
proof (cases i)
  case (FromUpstream m)
  then show ?thesis using handle_upstream_message_refines [OF ok] by simp
next
  case (Op op)
  show ?thesis
  proof (cases op)
    case (ClientSend k m)
    then show ?thesis using Op ok handle_client_message_refines [OF ok small, of k] handle_client_message_unknown
      by (cases "hm_get (ss_clients s) k") simp_all
  qed (use Op ok attach_ok detach_ok in simp_all)
next
  case (EventsDropped k)
  then show ?thesis using ok by (simp add: session_ok_def)
next
  case UpstreamDropped
  then show ?thesis using ok by (simp add: session_ok_def)
qed (use ok drop_recv_ok in simp_all)

interpretation mx: guarded_machine "Running session_new" loop_step numbers_left loop_ok
proof (unfold_locales, goal_cases)
  case 1
  show ?case by simp
next
  case (2 l i)
  then show ?case by (cases l) (auto intro: session_step_ok)
qed

end
