(* ===== verification/MuxGuarantees.thy ===== *)
theory MuxGuarantees imports MuxRouting begin

text \<open>
  The guarantees of the session that span several of its turns: the paths of the loop as a
  relation, the owner of a number on every path that does not answer it, the strictly
  increasing numbers sent upstream, the exact effect of a response and of an event on the
  queues of the clients, and the inputs that end the loop.
\<close>

section \<open>Paths of the loop\<close>

inductive session_path :: "session \<Rightarrow> session_input list \<Rightarrow> session \<Rightarrow> bool" where
  path_nil: "session_path s [] s"
| path_cons: "session_step s i = Running t \<Longrightarrow> session_path t is u \<Longrightarrow> session_path s (i # is) u"

inductive_simps session_path_Nil [simp]: "session_path s [] t"
inductive_simps session_path_Cons [simp]: "session_path s (i # is) t"
inductive_cases session_pathE: "session_path s is t"

lemma session_path_append:
  "session_path s (is @ js) u \<longleftrightarrow> (\<exists>t. session_path s is t \<and> session_path t js u)"
  by (induction "is" arbitrary: s) auto

lemma session_path_loop: "session_path s is t \<longleftrightarrow> foldl loop_step (Running s) is = Running t"
proof (induction "is" arbitrary: s)
  case (Cons i "is")
  have ended: "foldl loop_step (Ended x e) js \<noteq> Running t" for x e js
    by (induction js) auto
  show ?case using Cons ended by (cases "session_step s i") auto
qed auto

lemma loop_result_Running [simp]: "loop_result r = Running t \<longleftrightarrow> r = (t, None)"
  by (cases r; cases "snd r") (auto simp: loop_result_def)

text \<open>An input answers a number when it is the response to it.\<close>

definition answers :: "int \<Rightarrow> session_input \<Rightarrow> bool" where
  "answers b i \<longleftrightarrow> (case i of FromUpstream m \<Rightarrow> message_kind m = KResponse \<and> request_seq m = Some b | _ \<Rightarrow> False)"

lemma session_new_empty [simp]:
  "ss_backend_seq session_new = 0" "ss_upstream session_new = []"
  by (simp_all add: session_new_def)

lemma spec_client_issued:
  "rt_issued r \<le> rt_issued (spec_client_message role i m r) \<and>
   rt_issued (spec_client_message role i m r) \<le> rt_issued r + 1"
  by (auto simp: spec_client_message_def issue_def Let_def split: option.splits)

lemma spec_client_table:
  "b \<le> rt_issued r \<Longrightarrow> rt_table (spec_client_message role i m r) b = rt_table r b"
  by (auto simp: spec_client_message_def issue_def Let_def split: option.splits)

lemma spec_upstream_issued [simp]: "rt_issued (spec_upstream_message m r) = rt_issued r"
  by (auto simp: spec_upstream_message_def release_number_def split: message_kind.splits option.splits)

lemma spec_upstream_table:
  "\<not> answers b (FromUpstream m) \<Longrightarrow> rt_table (spec_upstream_message m r) b = rt_table r b"
  by (auto simp: spec_upstream_message_def release_number_def answers_def
      split: message_kind.splits option.splits)

text \<open>One turn of the loop, seen on the routing table.\<close>

lemma step_routing:
  fixes s i
  assumes ok: "session_ok s" and small: "ss_backend_seq s < i64_max"
  defines "t \<equiv> final_session (session_step s i)"
  shows "ss_backend_seq s \<le> ss_backend_seq t \<and> ss_backend_seq t \<le> ss_backend_seq s + 1 \<and>
    (\<forall>b. b \<le> ss_backend_seq s \<longrightarrow> \<not> answers b i \<longrightarrow> owner t b = owner s b)"
proof -
  have same: ?thesis if "abs_routing t = abs_routing s"
    using that by (simp add: abs_routing_def fun_eq_iff)
  show ?thesis
  proof (cases i)
    case (FromUpstream m)
    have a: "abs_routing t = spec_upstream_message m (abs_routing s)"
      using handle_upstream_message_refines [OF ok, of m] FromUpstream by (simp add: t_def)
    show ?thesis
      using arg_cong [OF a, of rt_issued] arg_cong [OF a, of rt_table]
        spec_upstream_table [of _ m "abs_routing s"] FromUpstream
      by (simp add: abs_routing_def)
  next
    case (Op op)
    show ?thesis
    proof (cases op)
      case (ClientSend k m)
      show ?thesis
      proof (cases "hm_get (ss_clients s) k")
        case None
        then show ?thesis using Op ClientSend handle_client_message_unknown by (simp add: t_def)
      next
        case (Some c)
        have a: "abs_routing t = spec_client_message (cs_role c) k m (abs_routing s)"
          using handle_client_message_refines [OF ok small Some, of m] Op ClientSend by (simp add: t_def)
        show ?thesis
          using arg_cong [OF a, of rt_issued] arg_cong [OF a, of rt_table]
            spec_client_issued [of "abs_routing s" "cs_role c" k m]
            spec_client_table [of _ "abs_routing s" "cs_role c" k m]
          by (simp add: abs_routing_def)
      qed
    next
      case (Attach role)
      then show ?thesis using Op attach_ok [OF ok, of role] same by (simp add: t_def)
    next
      case (Detach k)
      then show ?thesis using Op by (intro same abs_routing_cong) (simp_all add: t_def detach_def)
    qed
  qed (intro same abs_routing_cong; simp add: t_def drop_recv_def split: option.splits)+
qed

lemma path_keeps:
  assumes "session_path s is t" "session_ok s" "ss_backend_seq s + int (length is) \<le> i64_max"
  shows "session_ok t \<and> ss_backend_seq s \<le> ss_backend_seq t \<and>
    ss_backend_seq t \<le> ss_backend_seq s + int (length is) \<and>
    (\<forall>b. owner s b \<noteq> None \<longrightarrow> (\<forall>i \<in> set is. \<not> answers b i) \<longrightarrow> owner t b = owner s b)"
  using assms
proof (induction rule: session_path.induct)
  case (path_nil s)
  then show ?case by simp
next
  case (path_cons s i t "is" u)
  then have small: "ss_backend_seq s < i64_max" by simp
  have t: "final_session (session_step s i) = t" using path_cons.hyps(1) by simp
  have ok: "session_ok t" using session_step_ok [OF path_cons.prems(1) small, of i] t by simp
  note R = step_routing [OF path_cons.prems(1) small, of i, unfolded t]
  note IH = path_cons.IH [OF ok]
  have own: "owner t b = owner s b" if "owner s b \<noteq> None" "\<not> answers b i" for b
    using R owner_issued [OF path_cons.prems(1) that(1)] that(2) by blast
  show ?case using IH R own path_cons.prems(2) by (simp add: small)
qed

lemma reached_ok:
  "session_path session_new is t \<Longrightarrow> int (length is) \<le> i64_max \<Longrightarrow> session_ok t"
  using path_keeps [of session_new "is" t] by simp

section \<open>Numbers sent upstream\<close>

definition sent_numbers :: "session \<Rightarrow> int list" where
  "sent_numbers s = List.map_filter seq (ss_upstream s)"

definition numbered :: "session \<Rightarrow> bool" where
  "numbered s \<longleftrightarrow> sorted_wrt (<) (sent_numbers s) \<and> (\<forall>n \<in> set (sent_numbers s). n \<le> ss_backend_seq s)"

lemma numbered_cong:
  "numbered s \<Longrightarrow> ss_upstream t = ss_upstream s \<Longrightarrow> ss_backend_seq t = ss_backend_seq s \<Longrightarrow> numbered t"
  by (simp add: numbered_def sent_numbers_def)

lemma map_filter_snoc:
  "List.map_filter f (xs @ [x]) = List.map_filter f xs @ (case f x of Some y \<Rightarrow> [y] | None \<Rightarrow> [])"
  by (induction xs) (auto simp: List.map_filter_def split: option.splits)

lemma numbered_send:
  assumes "numbered s" and "seq m = None \<and> ss_backend_seq t = ss_backend_seq s \<or>
      seq m = Some (ss_backend_seq t) \<and> ss_backend_seq s < ss_backend_seq t"
    and "ss_upstream t = ss_upstream s"
  shows "numbered (fst (send_upstream m t))"
  using assms by (auto simp: numbered_def sent_numbers_def send_upstream_def map_filter_snoc sorted_wrt_append)

lemma forwarded_number:
  fixes s m
  assumes ok: "session_ok s" and small: "ss_backend_seq s < i64_max" and req: "message_kind m = KRequest"
  defines "b \<equiv> ss_backend_seq s + 1"
  shows "seq m \<noteq> None \<Longrightarrow> seq (fst (forward_editor m s)) = Some b \<and> ss_backend_seq (snd (forward_editor m s)) = b"
    and "seq m = None \<Longrightarrow> forward_editor m s = (m, s)"
    and "fst (forward_other i m s) = set_seq b m \<and> seq (fst (forward_other i m s)) = Some b \<and>
      ss_backend_seq (snd (forward_other i m s)) = b"
    and "ss_upstream (snd (forward_editor m s)) = ss_upstream s"
    and "ss_upstream (snd (forward_other i m s)) = ss_upstream s"
    and "ss_upstream_open (snd (forward_editor m s)) = ss_upstream_open s"
    and "ss_upstream_open (snd (forward_other i m s)) = ss_upstream_open s"
proof -
  have nb: "next_backend_seq s = b" using next_backend_plain [OF ok small] by (simp add: b_def)
  have "in_i64 b" using session_okD(2) [OF ok] small by (simp add: b_def in_i64_def i64_max_def)
  then show "seq m \<noteq> None \<Longrightarrow> seq (fst (forward_editor m s)) = Some b \<and> ss_backend_seq (snd (forward_editor m s)) = b"
    and "fst (forward_other i m s) = set_seq b m \<and> seq (fst (forward_other i m s)) = Some b \<and>
      ss_backend_seq (snd (forward_other i m s)) = b"
    using req by (auto simp: forward_editor_def forward_other_def Let_def nb seq_set_seq)
  show "seq m = None \<Longrightarrow> forward_editor m s = (m, s)"
    "ss_upstream (snd (forward_editor m s)) = ss_upstream s"
    "ss_upstream (snd (forward_other i m s)) = ss_upstream s"
    "ss_upstream_open (snd (forward_editor m s)) = ss_upstream_open s"
    "ss_upstream_open (snd (forward_other i m s)) = ss_upstream_open s"
    by (simp_all add: forward_editor_def forward_other_def Let_def split: option.splits)
qed

lemma numbered_client_message:
  assumes ok: "session_ok s" and small: "ss_backend_seq s < i64_max" and n: "numbered s"
  shows "numbered (fst (handle_client_message i m s))"
proof (cases "hm_get (ss_clients s) i")
  case None
  then show ?thesis using n by (simp add: handle_client_message_unknown)
next
  case (Some c)
  show ?thesis
  proof (cases "message_kind m \<noteq> KRequest \<or> (cs_role c = Control \<and> command m = Some snapshot_command)")
    case True
    then show ?thesis using Some n
      by (intro numbered_cong [OF n]) (auto simp: handle_client_message_def serve_snapshot_def)
  next
    case False
    then have req: "message_kind m = KRequest" by simp
    note F = forwarded_number [OF ok small req]
    have "numbered (fst (send_upstream (fst (forward_editor m s)) (snd (forward_editor m s))))"
      using F(1,2,4) by (cases "seq m") (auto intro!: numbered_send [OF n])
    moreover have "numbered (fst (send_upstream (fst (forward_other i m s)) (snd (forward_other i m s))))"
      using F(3) [of i] F(5) [of i] by (auto intro!: numbered_send [OF n])
    ultimately show ?thesis
      using handle_client_message_cases [OF Some req] False by (simp add: Let_def)
  qed
qed

lemma upstream_message_frame [simp]:
  "ss_upstream (fst (handle_upstream_message m s)) = ss_upstream s"
  "ss_backend_seq (fst (handle_upstream_message m s)) = ss_backend_seq s"
  "ss_upstream_open (fst (handle_upstream_message m s)) = ss_upstream_open s"
  "ss_next_client (fst (handle_upstream_message m s)) = ss_next_client s"
  by (simp_all add: handle_upstream_message_def route_response_cases released_def deliver_to_editor_def
      deliver_to_role_def broadcast_to_all_def Let_def split: message_kind.splits option.splits route.splits)

lemma numbered_step:
  assumes "session_ok s" and "ss_backend_seq s < i64_max" and n: "numbered s"
  shows "numbered (final_session (session_step s i))"
proof (cases i)
  case (FromUpstream m)
  then show ?thesis by (intro numbered_cong [OF n]) simp_all
next
  case (Op op)
  then show ?thesis using numbered_client_message [OF assms]
    by (cases op) (auto intro!: numbered_cong [OF n] simp: attach_def detach_def Let_def)
qed (auto intro!: numbered_cong [OF n] simp: drop_recv_def split: option.splits)

interpretation up: guarded_machine "Running session_new" loop_step numbers_left
  "\<lambda>l. loop_ok l \<and> numbered (final_session l)"
proof (unfold_locales, goal_cases)
  case 1
  show ?case by (simp add: numbered_def sent_numbers_def List.map_filter_def)
next
  case (2 l i)
  then show ?case by (cases l) (auto intro: session_step_ok numbered_step)
qed


section \<open>Responses\<close>

lemma publish_response_owner:
  "owner (publish m s\<lparr>ss_cache := x\<rparr>) b = owner s b"
  using abs_routing_cong [of "publish m s\<lparr>ss_cache := x\<rparr>" s] by (simp add: abs_routing_def)

lemma upstream_response:
  assumes "message_kind m = KResponse" and "request_seq m = Some b"
  shows "handle_upstream_message m s =
    route_response b m (publish m s\<lparr>ss_cache := cache_observe_response m (ss_cache s)\<rparr>)"
  using assms by (simp add: handle_upstream_message_def Let_def)

lemma owner_after_response:
  assumes ok: "session_ok s" and "message_kind m = KResponse" and "request_seq m = Some b"
  shows "owner (fst (handle_upstream_message m s)) b = None"
  using handle_upstream_message_refines [OF ok, of m] assms(2,3)
  by (simp add: abs_routing_def spec_upstream_message_def release_number_def)

lemma released_clients [simp]: "ss_clients (released b s) = ss_clients s"
  by (simp add: released_def split: option.splits)

lemma released_display [simp]: "ss_display_seq (released b s) = ss_display_seq s"
  by (simp add: released_def split: option.splits)

lemma response_to_client_delivered:
  assumes ok: "session_ok s" and own: "owner s b = Some (ToClient i n)"
    and c: "hm_get (ss_clients s) i = Some c" "cs_open c"
    and m: "message_kind m = KResponse" "request_seq m = Some b"
  shows "\<exists>t. session_step s (FromUpstream m) = Running t \<and> owner t b = None \<and>
    ss_clients t = hm_insert i (push_queue (set_request_seq n m) c) (ss_clients s)"
proof -
  define u where "u = publish m s\<lparr>ss_cache := cache_observe_response m (ss_cache s)\<rparr>"
  have u: "owner u b = Some (ToClient i n)" "ss_clients u = ss_clients s"
    using own by (simp_all add: u_def publish_response_owner)
  have "handle_upstream_message m s = deliver_to_client i (set_request_seq n m) (released b u)"
    using upstream_response [OF m, of s] u by (simp add: u_def [symmetric] route_response_cases)
  then have h: "snd (handle_upstream_message m s) = None"
    "ss_clients (fst (handle_upstream_message m s)) = hm_insert i (push_queue (set_request_seq n m) c) (ss_clients s)"
    using c u by (simp_all add: deliver_to_client_open)
  then show ?thesis using owner_after_response [OF ok m]
    by (cases "handle_upstream_message m s") (simp add: loop_result_def)
qed

lemma response_to_gone_client:
  assumes own: "owner s b = Some (ToClient i n)"
    and gone: "hm_get (ss_clients s) i = None \<or> (\<exists>c. hm_get (ss_clients s) i = Some c \<and> \<not> cs_open c)"
    and m: "message_kind m = KResponse" "request_seq m = Some b"
  shows "\<exists>t. session_step s (FromUpstream m) = Ended t (Some ClientNotFound)"
proof -
  define u where "u = publish m s\<lparr>ss_cache := cache_observe_response m (ss_cache s)\<rparr>"
  have u: "owner u b = Some (ToClient i n)" "ss_clients u = ss_clients s"
    using own by (simp_all add: u_def publish_response_owner)
  have "handle_upstream_message m s = deliver_to_client i (set_request_seq n m) (released b u)"
    using upstream_response [OF m, of s] u by (simp add: u_def [symmetric] route_response_cases)
  then have "snd (handle_upstream_message m s) = Some ClientNotFound"
    using gone u by (auto simp: deliver_to_client_def)
  then show ?thesis by (cases "handle_upstream_message m s") (simp add: loop_result_def)
qed

text \<open>Delivery to every client of some roles, when each of them still holds its receiver.\<close>

definition all_open :: "(client_role \<Rightarrow> bool) \<Rightarrow> session \<Rightarrow> bool" where
  "all_open P s \<longleftrightarrow> list_all (\<lambda>p. P (cs_role (snd p)) \<longrightarrow> cs_open (snd p)) (ss_clients s)"

definition pushed :: "(client_role \<Rightarrow> bool) \<Rightarrow> json \<Rightarrow> client_state \<Rightarrow> client_state" where
  "pushed P m c = (if P (cs_role c) then push_queue m c else c)"

lemma deliver_each_everyone:
  assumes "distinct (hm_keys (ss_clients s))" and "all_open P s"
  shows "snd (deliver_each (ss_clients s) P m s) = None \<and>
    hm_get (ss_clients (fst (deliver_each (ss_clients s) P m s))) j =
      map_option (pushed P m) (hm_get (ss_clients s) j)"
proof -
  have "reachable_by s P (ss_clients s)"
    using assms by (auto simp: reachable_by_def all_open_def list_all_iff)
  from deliver_each_all [OF this] show ?thesis by (auto simp: pushed_def split: option.splits)
qed

lemma response_to_editors_delivered:
  assumes ok: "session_ok s" and own: "owner s b = Some (ToEditors n)"
    and ready: "all_open (\<lambda>r. r = Editor) s"
    and m: "message_kind m = KResponse" "request_seq m = Some b"
  shows "\<exists>t. session_step s (FromUpstream m) = Running t \<and> owner t b = None \<and>
    (\<forall>j. hm_get (ss_clients t) j =
       map_option (pushed (\<lambda>r. r = Editor) (set_seq (next_display_seq s) (set_request_seq n m)))
         (hm_get (ss_clients s) j))"
proof -
  define u where "u = released b (publish m s\<lparr>ss_cache := cache_observe_response m (ss_cache s)\<rparr>)"
  define v where "v = u\<lparr>ss_display_seq := next_display_seq s\<rparr>"
  have v: "ss_clients v = ss_clients s" "next_display_seq u = next_display_seq s"
    by (simp_all add: v_def u_def next_display_seq_def)
  have "handle_upstream_message m s = deliver_to_editor (set_request_seq n m) u"
    using upstream_response [OF m, of s] own
    by (simp add: u_def route_response_cases publish_response_owner)
  also have "\<dots> = deliver_each (ss_clients v) (\<lambda>r. r = Editor)
      (set_seq (next_display_seq s) (set_request_seq n m)) v"
    by (simp add: deliver_to_editor_def deliver_to_role_def v v_def)
  finally have h: "handle_upstream_message m s = deliver_each (ss_clients v) (\<lambda>r. r = Editor)
      (set_seq (next_display_seq s) (set_request_seq n m)) v" .
  have "all_open (\<lambda>r. r = Editor) v" using ready by (simp add: all_open_def v)
  note all = deliver_each_everyone [OF _ this, of "set_seq (next_display_seq s) (set_request_seq n m)"]
  define t where "t = fst (handle_upstream_message m s)"
  have "handle_upstream_message m s = (t, None)"
    using all v session_okD(1) [OF ok] by (simp add: h t_def prod_eq_iff)
  then have "session_step s (FromUpstream m) = Running t" by (simp add: loop_result_def)
  moreover have "\<forall>j. hm_get (ss_clients t) j =
       map_option (pushed (\<lambda>r. r = Editor) (set_seq (next_display_seq s) (set_request_seq n m)))
         (hm_get (ss_clients s) j)"
    using all v session_okD(1) [OF ok] by (simp add: h t_def)
  moreover have "owner t b = None" using owner_after_response [OF ok m] by (simp add: t_def)
  ultimately show ?thesis by blast
qed

lemma stray_response_dropped:
  assumes "owner s b = None" and m: "message_kind m = KResponse" "request_seq m = Some b"
  shows "session_step s (FromUpstream m) =
    Running (publish m s\<lparr>ss_cache := cache_observe_response m (ss_cache s)\<rparr>)"
  using upstream_response [OF m, of s] assms(1)
  by (simp add: route_response_cases publish_response_owner loop_result_def)

section \<open>Events\<close>

lemma event_broadcast:
  assumes ok: "session_ok s" and ready: "all_open hears_events s" and m: "message_kind m = KEvent"
  shows "\<exists>t. session_step s (FromUpstream m) = Running t \<and>
    (\<forall>j. hm_get (ss_clients t) j =
       map_option (pushed hears_events (set_seq (next_display_seq s) m)) (hm_get (ss_clients s) j)) \<and>
    ss_published t = ss_published s @
      (if ss_receivers s = [] then [] else [m, set_seq (next_display_seq s) m]) \<and>
    ss_cache t = cache_observe m (ss_cache s)"
proof -
  define out where "out = set_seq (next_display_seq s) m"
  define v where "v = publish out (publish m s\<lparr>ss_cache := cache_observe m (ss_cache s),
      ss_display_seq := next_display_seq s\<rparr>)"
  have v: "ss_clients v = ss_clients s" by (simp add: v_def)
  have h: "handle_upstream_message m s = deliver_each (ss_clients v) hears_events out v"
    using m by (simp add: handle_upstream_message_def broadcast_to_all_def Let_def v_def out_def
        next_display_seq_def)
  have "all_open hears_events v" using ready by (simp add: all_open_def v)
  note all = deliver_each_everyone [OF _ this, of out]
  define t where "t = fst (deliver_each (ss_clients v) hears_events out v)"
  have "handle_upstream_message m s = (t, None)"
    using all v session_okD(1) [OF ok] by (simp add: h t_def prod_eq_iff)
  then have "session_step s (FromUpstream m) = Running t" by (simp add: loop_result_def)
  moreover have "\<forall>j. hm_get (ss_clients t) j = map_option (pushed hears_events out) (hm_get (ss_clients s) j)"
    using all v session_okD(1) [OF ok] by (simp add: t_def)
  moreover have "ss_published t = ss_published s @ (if ss_receivers s = [] then [] else [m, out])"
    by (simp add: t_def v_def publish_def)
  moreover have "ss_cache t = cache_observe m (ss_cache s)"
    by (simp add: t_def v_def)
  ultimately show ?thesis unfolding out_def by blast
qed


section \<open>Requests\<close>

text \<open>What one request of a client other than an editor does, when upstream takes it.\<close>

lemma other_request_sent:
  assumes ok: "session_ok s" and small: "ss_backend_seq s < i64_max" and up: "ss_upstream_open s"
    and c: "hm_get (ss_clients s) i = Some c" and role: "cs_role c \<noteq> Editor"
    and m: "message_kind m = KRequest" "seq m = Some n"
    and fwd: "\<not> (cs_role c = Control \<and> command m = Some snapshot_command)"
  defines "b \<equiv> ss_backend_seq s + 1"
  shows "\<exists>t. session_step s (Op (ClientSend i m)) = Running t \<and>
    ss_upstream t = ss_upstream s @ [set_seq b m] \<and> owner t b = Some (ToClient i n) \<and>
    ss_clients t = ss_clients s \<and> ss_backend_seq t = b \<and> session_ok t"
proof -
  define u where "u = snd (forward_other i m s)"
  note F = forwarded_number [OF ok small m(1)]
  have fst: "fst (forward_other i m s) = set_seq b m" using F(3) by (simp add: b_def)
  have u: "ss_upstream_open u" "ss_upstream u = ss_upstream s" "ss_clients u = ss_clients s"
    "ss_backend_seq u = b"
    using F(3) [of i] F(5) [of i] F(7) [of i] up
    by (simp_all add: u_def b_def forward_other_def Let_def)
  define t where "t = u\<lparr>ss_upstream := ss_upstream u @ [set_seq b m]\<rparr>"
  have h: "handle_client_message i m s = (t, None)"
    using handle_client_message_cases [OF c m(1) fwd] role u(1)
    by (simp add: Let_def send_upstream_def fst u_def [symmetric] t_def)
  have R: "session_ok t" "abs_routing t = spec_client_message (cs_role c) i m (abs_routing s)"
    using handle_client_message_refines [OF ok small c, of m] by (simp_all add: h)
  have "owner t b = rt_table (spec_client_message (cs_role c) i m (abs_routing s)) b"
    using arg_cong [OF R(2), of "\<lambda>r. rt_table r b"] by (simp add: abs_routing_def)
  then have "owner t b = Some (ToClient i n)"
    using m fwd role by (auto simp: spec_client_message_def issue_def Let_def abs_routing_def b_def)
  then show ?thesis using h u R(1) by (intro exI [of _ t]) (simp add: loop_result_def t_def)
qed

lemma editor_request_sent:
  assumes ok: "session_ok s" and small: "ss_backend_seq s < i64_max" and up: "ss_upstream_open s"
    and c: "hm_get (ss_clients s) i = Some c" and role: "cs_role c = Editor"
    and m: "message_kind m = KRequest" "seq m = Some n"
  defines "b \<equiv> ss_backend_seq s + 1"
  shows "\<exists>t. session_step s (Op (ClientSend i m)) = Running t \<and>
    ss_upstream t = ss_upstream s @ [set_seq b (fst (translate_cancel m (ss_remapper s)))] \<and>
    owner t b = Some (ToEditors n) \<and>
    ss_clients t = ss_clients s \<and> ss_backend_seq t = b \<and> session_ok t"
proof -
  define u where "u = snd (forward_editor m s)"
  note F = forwarded_number [OF ok small m(1)]
  have nb: "next_backend_seq s = b" using next_backend_plain [OF ok small] by (simp add: b_def)
  have fst: "fst (forward_editor m s) = set_seq b (fst (translate_cancel m (ss_remapper s)))"
    by (simp add: forward_editor_def m nb Let_def)
  have u: "ss_upstream_open u" "ss_upstream u = ss_upstream s" "ss_clients u = ss_clients s"
    "ss_backend_seq u = b"
    using F(1,4,6) up m by (simp_all add: u_def b_def) (simp add: forward_editor_def m Let_def)
  define t where "t = u\<lparr>ss_upstream := ss_upstream u @ [set_seq b (fst (translate_cancel m (ss_remapper s)))]\<rparr>"
  have h: "handle_client_message i m s = (t, None)"
    using handle_client_message_cases [OF c m(1)] role u(1)
    by (simp add: Let_def send_upstream_def fst u_def [symmetric] t_def)
  have R: "session_ok t" "abs_routing t = spec_client_message (cs_role c) i m (abs_routing s)"
    using handle_client_message_refines [OF ok small c, of m] by (simp_all add: h)
  have "owner t b = rt_table (spec_client_message (cs_role c) i m (abs_routing s)) b"
    using arg_cong [OF R(2), of "\<lambda>r. rt_table r b"] by (simp add: abs_routing_def)
  then have "owner t b = Some (ToEditors n)"
    using m role by (simp add: spec_client_message_def issue_def Let_def abs_routing_def b_def)
  then show ?thesis using h u R(1) by (intro exI [of _ t]) (simp add: loop_result_def t_def)
qed

text \<open>A cancel of an outstanding request names a number the editors own.\<close>

lemma cancel_names_owned:
  assumes "session_ok s" and "lookup_backend (ss_remapper s) (ClientSeq n) = Some b"
  shows "owner s (backend_raw b) = Some (ToEditors n) \<and> in_i64 (backend_raw b)"
proof -
  have l: "lookup_client (ss_remapper s) b = Some (ClientSeq n)"
    using session_okD(7) [OF assms(1)] assms(2) by (simp add: rm.coherent_def)
  then have "0 < backend_raw b \<and> backend_raw b \<le> ss_backend_seq s"
    using session_okD(4) [OF assms(1), of "backend_raw b"] by simp
  then show ?thesis using l session_okD(3) [OF assms(1)] by (simp add: owner_def in_i64_def)
qed


section \<open>Attaching\<close>

text \<open>Client ids in use have been handed out, so the next one is new.\<close>

definition ids_ok :: "session \<Rightarrow> bool" where
  "ids_ok s \<longleftrightarrow> 0 \<le> ss_next_client s \<and>
     list_all (\<lambda>i. 0 < i \<and> i \<le> ss_next_client s) (hm_keys (ss_clients s))"

lemma ids_ok_new [simp]: "ids_ok session_new" "ss_next_client session_new = 0"
  by (simp_all add: ids_ok_def session_new_def)

lemma hm_keys_insert_set: "set (hm_keys (hm_insert k v m)) = insert k (set (hm_keys m))"
  using dom_update [of k v m] by simp

lemma next_client_plain:
  "ids_ok s \<Longrightarrow> ss_next_client s < i64_max \<Longrightarrow> next_client_id s = ss_next_client s + 1"
  by (simp add: next_client_id_def wrap_u64_def ids_ok_def i64_max_def)

lemma ids_ok_kept:
  "ids_ok s \<Longrightarrow> set (hm_keys (ss_clients t)) \<subseteq> set (hm_keys (ss_clients s)) \<Longrightarrow>
     ss_next_client t = ss_next_client s \<Longrightarrow> ids_ok t"
  unfolding ids_ok_def list_all_iff by (simp only:) blast

lemma clients_kept_client_message: "clients_kept s (fst (handle_client_message i m s))"
proof -
  have "clients_kept s (fst (serve_snapshot i m s))"
    using clients_kept_deliver [of "s\<lparr>ss_display_seq := next_display_seq s\<rparr>"]
    by (simp add: serve_snapshot_def clients_kept_def)
  then show ?thesis
    by (auto simp: handle_client_message_def case_prod_unfold forward_editor_def forward_other_def Let_def
        split: option.splits)
qed

lemma clients_kept_upstream_message: "clients_kept s (fst (handle_upstream_message m s))"
proof -
  have r: "clients_kept u (fst (route_response b m u))" for b u
    using clients_kept_editor [of "released b u"] clients_kept_deliver [of "released b u"]
    by (auto simp: route_response_cases clients_kept_def split: option.splits route.splits)
  show ?thesis
    using r [of "publish m s\<lparr>ss_cache := cache_observe_response m (ss_cache s)\<rparr>"]
      clients_kept_broadcast [of "publish m s\<lparr>ss_cache := cache_observe m (ss_cache s)\<rparr>" m]
    by (auto simp: handle_upstream_message_def Let_def clients_kept_def split: message_kind.splits option.splits)
qed

lemma client_message_next [simp]: "ss_next_client (fst (handle_client_message i m s)) = ss_next_client s"
  by (auto simp: handle_client_message_def serve_snapshot_def case_prod_unfold forward_editor_def
      forward_other_def Let_def split: option.splits)

lemma attach_shape:
  "attach role s = deliver_replay (next_client_id s) (replay (ss_cache s))
     (s\<lparr>ss_next_client := next_client_id s, ss_receivers := ss_receivers s @ [next_client_id s],
        ss_clients := hm_insert (next_client_id s) \<lparr>cs_role = role, cs_queue = [], cs_open = True\<rparr> (ss_clients s)\<rparr>)"
  by (simp add: attach_def Let_def)

lemma hm_keys_attach:
  "set (hm_keys (ss_clients (attach role s))) = insert (next_client_id s) (set (hm_keys (ss_clients s)))"
  unfolding attach_shape clients_kept_keys [OF clients_kept_replay] by (simp add: hm_keys_insert_set del: set_map)

lemma step_ids:
  fixes s i
  assumes ids: "ids_ok s" and small: "ss_next_client s < i64_max"
  defines "t \<equiv> final_session (session_step s i)"
  shows "ids_ok t \<and> ss_next_client t \<le> ss_next_client s + 1"
proof (cases i)
  case (FromUpstream m)
  show ?thesis using ids_ok_kept [OF ids, of t] clients_kept_keys [OF clients_kept_upstream_message [of s m]] FromUpstream
    by (simp add: t_def)
next
  case (Op op)
  show ?thesis
  proof (cases op)
    case (Attach role)
    have "ss_next_client t = ss_next_client s + 1"
      using next_client_plain [OF ids small] Attach Op by (simp add: t_def attach_shape)
    then show ?thesis using hm_keys_attach [of role s] ids Attach Op next_client_plain [OF ids small]
      by (auto simp: ids_ok_def list_all_iff t_def)
  next
    case (ClientSend k m)
    show ?thesis
      using ids_ok_kept [OF ids, of t] clients_kept_keys [OF clients_kept_client_message [of s k m]] Op ClientSend
      by (simp add: t_def)
  next
    case (Detach k)
    then show ?thesis using ids_ok_kept [OF ids, of t] Op by (simp add: t_def detach_def delete_keys)
  qed
next
  case (RecvDropped k)
  then show ?thesis using ids
    by (auto simp: t_def drop_recv_def ids_ok_def hm_keys_insert_known split: option.splits)
qed (use ids in \<open>simp_all add: t_def ids_ok_def\<close>)

lemma path_ids:
  assumes "session_path s is t" "ids_ok s" "ss_next_client s + int (length is) \<le> i64_max"
  shows "ids_ok t \<and> ss_next_client t \<le> ss_next_client s + int (length is)"
  using assms
proof (induction rule: session_path.induct)
  case (path_cons s i t "is" u)
  then have small: "ss_next_client s < i64_max" by simp
  from step_ids [OF path_cons.prems(1) small, of i] path_cons.hyps(1)
  have "ids_ok t" "ss_next_client t \<le> ss_next_client s + 1" by simp_all
  with path_cons.IH path_cons.prems(2) show ?case by simp
qed simp

lemma replay_delivered:
  "hm_get (ss_clients s) i = Some c \<Longrightarrow> cs_open c \<Longrightarrow>
     hm_get (ss_clients (deliver_replay i ms s)) =
       (hm_get (ss_clients s))(i \<mapsto> c\<lparr>cs_queue := cs_queue c @ ms\<rparr>)"
proof (induction ms arbitrary: s c)
  case Nil
  then show ?case by (simp add: fun_upd_idem)
next
  case (Cons m ms)
  then show ?case by (simp add: deliver_to_client_open push_queue_def fun_eq_iff)
qed

lemma attached_clients:
  "hm_get (ss_clients (attach role s)) = (hm_get (ss_clients s))(next_client_id s \<mapsto>
     \<lparr>cs_role = role, cs_queue = replay (ss_cache s), cs_open = True\<rparr>)"
  unfolding attach_shape
  by (subst replay_delivered [where c = "\<lparr>cs_role = role, cs_queue = [], cs_open = True\<rparr>"]) (simp_all add: fun_eq_iff)

section \<open>A request and its response\<close>

lemma client_trip:
  assumes hist: "session_path session_new hist s"
    and room: "int (length hist) + int (length between) + 1 < i64_max"
    and up: "ss_upstream_open s"
    and sender: "hm_get (ss_clients s) i = Some c" "cs_role c \<noteq> Editor"
    and req: "message_kind m = KRequest" "seq m = Some n"
      "\<not> (cs_role c = Control \<and> command m = Some snapshot_command)"
    and sent: "session_step s (Op (ClientSend i m)) = Running s1"
    and path: "session_path s1 between s2"
    and unanswered: "\<forall>x \<in> set between. \<not> answers (ss_backend_seq s + 1) x"
    and there: "hm_get (ss_clients s2) i = Some d" "cs_open d"
    and resp: "message_kind r = KResponse" "request_seq r = Some (ss_backend_seq s + 1)"
  shows "ss_upstream s1 = ss_upstream s @ [set_seq (ss_backend_seq s + 1) m] \<and>
    (\<exists>s3. session_step s2 (FromUpstream r) = Running s3 \<and>
       ss_clients s3 = hm_insert i (push_queue (set_request_seq n r) d) (ss_clients s2) \<and>
       owner s3 (ss_backend_seq s + 1) = None)"
proof -
  have s: "session_ok s" "ss_backend_seq s \<le> int (length hist)"
    using path_keeps [OF hist] room by simp_all
  obtain t where t: "session_step s (Op (ClientSend i m)) = Running t"
    "ss_upstream t = ss_upstream s @ [set_seq (ss_backend_seq s + 1) m]"
    "owner t (ss_backend_seq s + 1) = Some (ToClient i n)"
    "ss_backend_seq t = ss_backend_seq s + 1" "session_ok t"
    using other_request_sent [OF s(1) _ up sender req] s(2) room by auto
  have [simp]: "s1 = t" using sent t(1) by simp
  have s2: "session_ok s2" "owner s2 (ss_backend_seq s + 1) = Some (ToClient i n)"
    using path_keeps [of t between s2] path t s(2) room unanswered by auto
  show ?thesis using response_to_client_delivered [OF s2 there resp] t(2) by auto
qed

end
