(* ===== verification/MuxProperties.thy ===== *)
theory MuxProperties imports MuxGuarantees begin

text \<open>
  The properties of the multiplexer, stated over the session of \<open>MuxSession\<close> and the tracker and
  cache it holds, with a concrete session at which their hypotheses hold.
\<close>

section \<open>A concrete session\<close>

definition demo_request :: json where
  "demo_request = request_json 7 ''threads'' None"

definition demo_response :: json where
  "demo_response = response_json 3 1 True None"

definition demo_event :: json where
  "demo_event = event_json 4 ''stopped'' None"

definition demo_agent :: session where
  "demo_agent = attach Agent session_new"

definition demo_editor :: session where
  "demo_editor = attach Editor session_new"

definition demo_sent :: session where
  "demo_sent = fst (handle_client_message 1 demo_request demo_agent)"

definition demo_editor_sent :: session where
  "demo_editor_sent = fst (handle_client_message 1 demo_request demo_editor)"

definition demo_client :: "client_role \<Rightarrow> client_state" where
  "demo_client r = \<lparr>cs_role = r, cs_queue = [], cs_open = True\<rparr>"

lemma demo_facts:
  "ss_upstream_open demo_agent" "ss_upstream_open demo_editor"
  "hm_get (ss_clients demo_agent) 1 = Some (demo_client Agent)"
  "hm_get (ss_clients demo_editor) 1 = Some (demo_client Editor)"
  "message_kind demo_request = KRequest" "seq demo_request = Some 7"
  "command demo_request \<noteq> Some ''cancel''"
  "message_kind demo_response = KResponse" "request_seq demo_response = Some 1"
  "message_kind demo_event = KEvent"
  "ss_backend_seq demo_agent = 0" "ss_backend_seq demo_editor = 0"
  by code_simp+

lemma demo_paths:
  "session_path session_new [Op (Attach Agent)] demo_agent"
  "session_path session_new [Op (Attach Editor)] demo_editor"
  by (simp_all add: demo_agent_def demo_editor_def)

lemma demo_sent_facts:
  "handle_client_message 1 demo_request demo_agent = (demo_sent, None)"
  "handle_client_message 1 demo_request demo_editor = (demo_editor_sent, None)"
  "hm_get (ss_clients demo_sent) 1 = Some (demo_client Agent)"
  "hm_get (ss_clients demo_editor_sent) 1 = Some (demo_client Editor)"
  by (simp_all only: prod_eq_iff demo_sent_def demo_editor_sent_def fst_conv snd_conv) code_simp+


section \<open>Requests and their responses\<close>

text \<open>C1: a request of a client that is not an editor goes upstream under the next backend number,
  with nothing else changed, and whatever the session does before the response to that number
  arrives, the response reaches the queue of that client alone, exactly once, carrying the number
  the client had used; the number is then free.\<close>

theorem mux_client_roundtrip:
  assumes hist: "session_path session_new hist s"
    and room: "int (length hist) + int (length between) + 1 < i64_max"
    and up: "ss_upstream_open s"
    and sender: "hm_get (ss_clients s) i = Some c" "cs_role c \<noteq> Editor"
    and req: "message_kind m = KRequest" "seq m = Some n"
      "\<not> (cs_role c = Control \<and> command m = Some snapshot_command)"
    and sent: "session_step s (Op (ClientSend i m)) = Running s1"
    and path: "session_path s1 between s2"
    and unanswered: "\<forall>x \<in> set between. \<not> answers (ss_backend_seq s + 1) x"
    and there: "hm_get (ss_clients s2) i = Some d" "cs_open d"
    and resp: "message_kind r = KResponse" "request_seq r = Some (ss_backend_seq s + 1)"
  shows "ss_upstream s1 = ss_upstream s @ [set_seq (ss_backend_seq s + 1) m] \<and>
    (\<exists>s3. session_step s2 (FromUpstream r) = Running s3 \<and>
       ss_clients s3 = hm_insert i (push_queue (set_request_seq n r) d) (ss_clients s2) \<and>
       owner s3 (ss_backend_seq s + 1) = None)"
  by (rule client_trip [OF assms])

lemma mux_client_roundtrip_witness:
  "\<exists>s3. session_step demo_sent (FromUpstream demo_response) = Running s3 \<and>
     ss_clients s3 = hm_insert 1 (push_queue (set_request_seq 7 demo_response) (demo_client Agent))
       (ss_clients demo_sent)"
proof -
  have "session_step demo_agent (Op (ClientSend 1 demo_request)) = Running demo_sent"
    by (simp add: demo_sent_facts)
  with mux_client_roundtrip [OF demo_paths(1), of "[]" 1 "demo_client Agent" demo_request 7
      demo_sent demo_sent "demo_client Agent" demo_response] demo_facts demo_sent_facts
  show ?thesis by (auto simp: i64_max_def demo_client_def)
qed

text \<open>C2: a request of an editor goes upstream under the next backend number, with a cancel
  translated, and whatever the session does before the response to that number arrives, the
  response reaches every editor and no other client, exactly once each, under a fresh display
  number and carrying the number the editor had used.\<close>

theorem mux_editor_roundtrip:
  assumes hist: "session_path session_new hist s"
    and room: "int (length hist) + int (length between) + 1 < i64_max"
    and up: "ss_upstream_open s"
    and sender: "hm_get (ss_clients s) i = Some c" "cs_role c = Editor"
    and req: "message_kind m = KRequest" "seq m = Some n"
    and sent: "session_step s (Op (ClientSend i m)) = Running s1"
    and path: "session_path s1 between s2"
    and unanswered: "\<forall>x \<in> set between. \<not> answers (ss_backend_seq s + 1) x"
    and there: "all_open (\<lambda>r. r = Editor) s2"
    and resp: "message_kind r = KResponse" "request_seq r = Some (ss_backend_seq s + 1)"
  shows "ss_upstream s1 = ss_upstream s @ [set_seq (ss_backend_seq s + 1) (fst (translate_cancel m (ss_remapper s)))] \<and>
    (\<exists>s3. session_step s2 (FromUpstream r) = Running s3 \<and>
       owner s3 (ss_backend_seq s + 1) = None \<and>
       (\<forall>j. hm_get (ss_clients s3) j =
          map_option (pushed (\<lambda>r. r = Editor) (set_seq (next_display_seq s2) (set_request_seq n r)))
            (hm_get (ss_clients s2) j)))"
proof -
  have s: "session_ok s" "ss_backend_seq s \<le> int (length hist)"
    using path_keeps [OF hist] room by simp_all
  obtain t where t: "session_step s (Op (ClientSend i m)) = Running t"
    "ss_upstream t = ss_upstream s @ [set_seq (ss_backend_seq s + 1) (fst (translate_cancel m (ss_remapper s)))]"
    "owner t (ss_backend_seq s + 1) = Some (ToEditors n)"
    "ss_backend_seq t = ss_backend_seq s + 1" "session_ok t"
    using editor_request_sent [OF s(1) _ up sender req] s(2) room by auto
  have [simp]: "s1 = t" using sent t(1) by simp
  have s2: "session_ok s2" "owner s2 (ss_backend_seq s + 1) = Some (ToEditors n)"
    using path_keeps [of t between s2] path t s(2) room unanswered by auto
  show ?thesis using response_to_editors_delivered [OF s2 there resp] t(2) by auto
qed

lemma mux_editor_roundtrip_witness:
  "\<exists>s3. session_step demo_editor_sent (FromUpstream demo_response) = Running s3 \<and>
     hm_get (ss_clients s3) 1 = Some (push_queue
       (set_seq (next_display_seq demo_editor_sent) (set_request_seq 7 demo_response)) (demo_client Editor))"
proof -
  have "session_step demo_editor (Op (ClientSend 1 demo_request)) = Running demo_editor_sent"
    by (simp add: demo_sent_facts)
  moreover have "all_open (\<lambda>r. r = Editor) demo_editor_sent" by code_simp
  ultimately obtain s3 where "session_step demo_editor_sent (FromUpstream demo_response) = Running s3"
    "\<forall>j. hm_get (ss_clients s3) j = map_option (pushed (\<lambda>r. r = Editor)
       (set_seq (next_display_seq demo_editor_sent) (set_request_seq 7 demo_response)))
       (hm_get (ss_clients demo_editor_sent) j)"
    using mux_editor_roundtrip [OF demo_paths(2), of "[]" 1 "demo_client Editor" demo_request 7
      demo_editor_sent demo_editor_sent demo_response] demo_facts demo_sent_facts
    by (auto simp: i64_max_def demo_client_def)
  then show ?thesis using demo_sent_facts(4) by (auto simp: pushed_def demo_client_def)
qed




section \<open>The routing table\<close>

text \<open>C13: on every state with the session invariant, the handlers implement the abstract routing
  table: a client's message issues the next number to its sender exactly when it is forwarded, an
  upstream message releases the number it answers, attaching and detaching leave the table alone,
  and each handler keeps the invariant.\<close>

theorem mux_refines_routing:
  assumes "session_ok s" and "ss_backend_seq s < i64_max"
  shows "(case hm_get (ss_clients s) i of
      Some c \<Rightarrow> abs_routing (fst (handle_client_message i m s)) =
        spec_client_message (cs_role c) i m (abs_routing s)
    | None \<Rightarrow> handle_client_message i m s = (s, Some ClientNotFound)) \<and>
    abs_routing (fst (handle_upstream_message m s)) = spec_upstream_message m (abs_routing s) \<and>
    abs_routing (attach role s) = abs_routing s \<and> abs_routing (detach i s) = abs_routing s \<and>
    session_ok (fst (handle_client_message i m s)) \<and> session_ok (fst (handle_upstream_message m s)) \<and>
    session_ok (attach role s) \<and> session_ok (detach i s)"
  using handle_client_message_refines [OF assms, of i _ m] handle_upstream_message_refines [OF assms(1), of m]
    attach_ok [OF assms(1), of role] detach_ok [OF assms(1), of i] assms(1)
    abs_routing_cong [of "detach i s" s] handle_client_message_unknown [of s i m]
  by (auto simp: detach_def split: option.splits)

lemma mux_refines_routing_witness:
  "abs_routing (fst (handle_client_message 1 demo_request demo_agent)) =
     spec_client_message Agent 1 demo_request (abs_routing demo_agent)"
proof -
  have "session_ok demo_agent" using reached_ok [OF demo_paths(1)] by (simp add: i64_max_def)
  with mux_refines_routing [of demo_agent 1 demo_request Editor] demo_facts show ?thesis
    by (simp add: i64_max_def demo_client_def)
qed

text \<open>C14: in every state the loop reaches, whatever the inputs and their order, the invariant
  holds: a number still awaited was issued, is in one of the two tables only, every forward entry
  of the remapper is matched by its reverse entry, the ids of attached clients were handed out,
  and the breakpoint tracker is consistent.\<close>

theorem mux_reachable_invariant:
  assumes "session_path session_new inputs s" and "int (length inputs) \<le> i64_max"
  shows "session_ok s \<and> ids_ok s \<and> tracker_ok (ca_breakpoints (ss_cache s)) \<and>
    (\<forall>b. owner s b \<noteq> None \<longrightarrow> 0 < b \<and> b \<le> ss_backend_seq s)"
  using reached_ok [OF assms] path_ids [OF assms(1)] assms(2) owner_issued [of s] session_okD(8) [of s]
  by (simp add: cache_ok_def)

lemma mux_reachable_invariant_witness: "session_ok demo_editor \<and> ids_ok demo_editor"
  using mux_reachable_invariant [OF demo_paths(2)] by (simp add: i64_max_def)

text \<open>The numbers of the requests sent upstream strictly increase, so no two requests of any
  clients ever share one.\<close>

theorem mux_upstream_numbers_increase:
  assumes "ok_run loop_step numbers_left (Running session_new) inputs"
  shows "sorted_wrt (<) (List.map_filter seq
    (ss_upstream (final_session (foldl loop_step (Running session_new) inputs))))"
  using up.good_reached [OF assms] by (simp add: numbered_def sent_numbers_def)

lemma mux_upstream_numbers_increase_witness:
  "sorted_wrt (<) (List.map_filter seq (ss_upstream (final_session (foldl loop_step (Running session_new)
     [Op (Attach Agent), Op (ClientSend 1 demo_request), Op (ClientSend 1 demo_request)]))))"
  by (rule mux_upstream_numbers_increase) code_simp

section \<open>Events, cancellation and late joiners\<close>



text \<open>C16: an editor's cancel of one of its requests that is still outstanding goes upstream naming
  the backend number of that request, which the editors own, under a number of its own.\<close>

theorem mux_cancel_translated:
  assumes "session_path session_new inputs s" and "int (length inputs) < i64_max"
    and "ss_upstream_open s" and "hm_get (ss_clients s) i = Some c" "cs_role c = Editor"
    and "message_kind m = KRequest" "seq m = Some n"
    and "cancel_request_id m = Some k" and "lookup_backend (ss_remapper s) (ClientSeq k) = Some b"
  shows "\<exists>t out. session_step s (Op (ClientSend i m)) = Running t \<and> ss_upstream t = ss_upstream s @ [out] \<and>
    cancel_request_id out = Some (backend_raw b) \<and> seq out = Some (ss_backend_seq s + 1) \<and>
    owner s (backend_raw b) = Some (ToEditors k)"
proof -
  have s: "session_ok s" "ss_backend_seq s < i64_max"
    using path_keeps [OF assms(1)] assms(2) by simp_all
  note owned = cancel_names_owned [OF s(1) assms(9)]
  let ?v = "fst (translate_cancel m (ss_remapper s))"
  have v: "cancel_request_id ?v = Some (backend_raw b)"
    using translate_cancel_mapped [OF assms(8,9)] owned by simp
  have "jget (set_seq x ?v) k' = jget ?v k'" if "k' \<noteq> ''seq''" for x k' using that by simp
  then have "cancel_request_id (set_seq x ?v) = Some (backend_raw b)" for x
    using v by (cases "command m = Some ''cancel''") (simp_all add: cancel_request_id_def)
  moreover have "seq (set_seq (ss_backend_seq s + 1) ?v) = Some (ss_backend_seq s + 1)"
    using session_okD(2) [OF s(1)] s(2) assms(6)
    by (intro seq_set_seq) (simp_all add: in_i64_def i64_max_def)
  ultimately show ?thesis using editor_request_sent [OF s assms(3-7)] owned by auto
qed

definition demo_cancel :: json where
  "demo_cancel = request_json 8 ''cancel'' (Some (jobj [(''requestId'', jint 7)]))"

lemma mux_cancel_translated_witness:
  "\<exists>t out. session_step demo_editor_sent (Op (ClientSend 1 demo_cancel)) = Running t \<and>
     ss_upstream t = ss_upstream demo_editor_sent @ [out] \<and> cancel_request_id out = Some 1"
proof -
  have path: "session_path session_new [Op (Attach Editor), Op (ClientSend 1 demo_request)] demo_editor_sent"
    using demo_paths(2) demo_sent_facts(2) by simp
  have f: "ss_upstream_open demo_editor_sent" "message_kind demo_cancel = KRequest" "seq demo_cancel = Some 8"
    "cancel_request_id demo_cancel = Some 7"
    "lookup_backend (ss_remapper demo_editor_sent) (ClientSeq 7) = Some (BackendSeq 1)"
    by code_simp+
  from mux_cancel_translated [OF path _ f(1) demo_sent_facts(4) _ f(2,3,4,5)] show ?thesis
    by (auto simp: i64_max_def demo_client_def)
qed

text \<open>C17: a client that attaches to a reachable session gets an id no attached client has, a queue
  that holds exactly the replay of the cache, with the last \<open>initialized\<close> and the last \<open>stopped\<close>
  event the adapter has sent, and nobody else's queue changes.\<close>

theorem mux_late_join:
  assumes "session_path session_new inputs s" and "int (length inputs) < i64_max"
  shows "hm_get (ss_clients s) (next_client_id s) = None \<and>
    hm_get (ss_clients (attach role s)) = (hm_get (ss_clients s))(next_client_id s \<mapsto>
      \<lparr>cs_role = role, cs_queue = replay (ss_cache s), cs_open = True\<rparr>) \<and>
    (\<forall>m \<in> set (replay (ss_cache s)). message_kind m = KResponse \<or>
       event_named ''initialized'' m \<or> event_named ''stopped'' m)"
proof -
  have ids: "ids_ok s" "ss_next_client s < i64_max"
    using path_ids [OF assms(1)] assms(2) by simp_all
  have "next_client_id s \<notin> set (hm_keys (ss_clients s))"
    using ids next_client_plain [OF ids] by (force simp: ids_ok_def list_all_iff)
  then have "hm_get (ss_clients s) (next_client_id s) = None" by (simp add: map_of_eq_None_iff)
  moreover have "cache_ok (ss_cache s)" using reached_ok [OF assms(1)] assms(2) session_okD(8) by simp
  ultimately show ?thesis using replay_members [of "ss_cache s"]
    by (auto simp: attached_clients fun_eq_iff)
qed

lemma mux_late_join_witness: "hm_get (ss_clients demo_agent) (next_client_id demo_agent) = None"
  using mux_late_join [OF demo_paths(1)] by (simp add: i64_max_def)

text \<open>The cache after any sequence of messages replays the \<open>stopped\<close> event observed last,
  also when the program has continued since.\<close>

theorem cache_replays_last_stopped:
  "replay (foldl cache_step cache_new es) =
     opt_list (map_option replayed_initialize (ca_initialize_body (foldl cache_step cache_new es)))
     @ opt_list (last_observed ''initialized'' es) @ opt_list (last_observed ''stopped'' es) \<and>
   (event_named ''continued'' m \<longrightarrow>
     replay (cache_step (foldl cache_step cache_new es) (Observed m)) = replay (foldl cache_step cache_new es))"
  by (simp add: replay_def run_initialized run_last_stopped continued_keeps_stopped)
     (simp add: cache_new_def split: option.splits)

lemma cache_replays_last_stopped_witness:
  "replay (cache_step (foldl cache_step cache_new [Observed demo_event])
     (Observed (event_json 5 ''continued'' None))) = [demo_event]"
proof -
  have "event_named ''continued'' (event_json 5 ''continued'' None)" by code_simp
  with cache_replays_last_stopped [of "[Observed demo_event]" "event_json 5 ''continued'' None"]
  have "replay (cache_step (foldl cache_step cache_new [Observed demo_event])
     (Observed (event_json 5 ''continued'' None))) = replay (foldl cache_step cache_new [Observed demo_event])"
    by blast
  also have "\<dots> = [demo_event]" by code_simp
  finally show ?thesis .
qed

text \<open>The breakpoint snapshot a control client asks for is answered from the cache: one message
  in its own queue, with the tracker's snapshot as body, and nothing goes upstream or to anyone
  else.\<close>

theorem mux_snapshot_local:
  assumes "hm_get (ss_clients s) i = Some c" "cs_role c = Control" "cs_open c"
    and "message_kind m = KRequest" "command m = Some ''_dapBreakpointSnapshot''" "seq m = Some n"
  shows "\<exists>t. session_step s (Op (ClientSend i m)) = Running t \<and> ss_upstream t = ss_upstream s \<and>
    ss_backend_seq t = ss_backend_seq s \<and> owner t = owner s \<and>
    ss_clients t = hm_insert i (push_queue (response_json (next_display_seq s) n True
      (Some (snapshot (ca_breakpoints (ss_cache s))))) c) (ss_clients s)"
proof -
  let ?out = "response_json (next_display_seq s) n True (Some (snapshot (ca_breakpoints (ss_cache s))))"
  let ?t = "s\<lparr>ss_display_seq := next_display_seq s, ss_clients := hm_insert i (push_queue ?out c) (ss_clients s)\<rparr>"
  have "session_step s (Op (ClientSend i m)) = Running ?t"
    using assms by (simp add: handle_client_message_def serve_snapshot_def snapshot_command_def
        deliver_to_client_open breakpoint_snapshot_def)
  moreover have "owner ?t = owner s" by (rule owner_cong) simp_all
  ultimately show ?thesis by (intro exI [of _ ?t]) simp
qed

lemma mux_snapshot_local_witness:
  "\<exists>t. session_step (attach Control session_new) (Op (ClientSend 1 (request_json 4 ''_dapBreakpointSnapshot'' None)))
     = Running t \<and> ss_upstream t = []"
proof -
  let ?m = "request_json 4 ''_dapBreakpointSnapshot'' None"
  have "hm_get (ss_clients (attach Control session_new)) 1 = Some (demo_client Control)"
    "message_kind ?m = KRequest" "command ?m = Some ''_dapBreakpointSnapshot''" "seq ?m = Some 4"
    "ss_upstream (attach Control session_new) = []"
    by code_simp+
  from mux_snapshot_local [OF this(1) _ _ this(2,3,4)] this(5) show ?thesis
    by (auto simp: demo_client_def)
qed


section \<open>Breakpoints\<close>

text \<open>C19: whatever requests, responses and events the tracker sees, in any order, an adapter id it
  has recorded names an existing breakpoint of its file, two ids never name the same one, no file
  is listed twice and none is listed without breakpoints.\<close>

theorem tracker_invariant:
  "tracker_ok (foldl tracker_step tracker_new es)"
  using tk.good_reached [of es] by simp

text \<open>A successful answer to a tracked \<open>setBreakpoints\<close> request replaces what was known of the
  file by one entry per breakpoint the adapter did not refuse, each with the adapter's line or
  else the requested one and the requested condition where the adapter names none; ids recorded
  for the file are dropped, other files keep their entries, and the request is no longer
  pending.\<close>

theorem tracker_answer_replaces:
  assumes ans: "get_bool resp ''success'' = Some True" "get_i64 resp ''request_seq'' = Some n"
    and body: "Option.bind (jget resp ''body'') (\<lambda>b. get_array b ''breakpoints'') = Some items"
    and pend: "hm_get (tk_pending t) n = Some p" and dist: "distinct (hm_keys (tk_ids t))"
    and path: "path = resolved_path (Some items) (pd_source_path p)"
    and some: "items \<noteq> []" "\<exists>i < length items. merge_breakpoint (nth_opt (pd_specs p) i) (items ! i) \<noteq> None"
  defines "t' \<equiv> observe_set_breakpoints_response resp t"
  shows "file_entries t' path = [x. (i, bp) \<leftarrow> enumerate 0 items,
           x \<leftarrow> (case merge_breakpoint (nth_opt (pd_specs p) i) bp of Some y \<Rightarrow> [y] | None \<Rightarrow> [])] \<and>
    (\<forall>q. q \<noteq> path \<longrightarrow> hm_get (tk_source t') q = hm_get (tk_source t) q) \<and>
    (\<forall>k i. hm_get (tk_ids t') k \<noteq> Some (path, i)) \<and>
    hm_get (tk_pending t') n = None"
proof -
  have merged: "merge_breakpoints items (pd_specs p) = [x. (i, bp) \<leftarrow> enumerate 0 items,
           x \<leftarrow> (case merge_breakpoint (nth_opt (pd_specs p) i) bp of Some y \<Rightarrow> [y] | None \<Rightarrow> [])]"
    (is "_ = ?es")
    using some(1) by (simp add: merge_breakpoints_def map_filter_concat case_prod_unfold)
  obtain i where i: "i < length items" "merge_breakpoint (nth_opt (pd_specs p) i) (items ! i) \<noteq> None"
    using some(2) by blast
  then have "(i, items ! i) \<in> set (enumerate 0 items)" by (simp add: in_set_enumerate_eq)
  then have ne: "?es \<noteq> []" using i(2) by force
  have "or_else (jget resp ''request_seq'') (jget resp ''requestSeq'') = jget resp ''request_seq''"
    using ans(2) by (cases "jget resp ''request_seq''") simp_all
  then have t': "t' = rebuild_source_breakpoints path ?es (t\<lparr>tk_pending := hm_remove n (tk_pending t)\<rparr>)"
    using ans body pend by (simp add: t'_def observe_set_breakpoints_response_def Let_def merged path)
  show ?thesis using ne ids_retain [OF dist]
    by (auto simp: t' rebuild_source_breakpoints_def file_entries_def)
qed


definition demo_tracked :: tracker where
  "demo_tracked = track_set_breakpoints_request 3
     (jobj [(''arguments'', jobj [(''source'', jobj [(''path'', JString ''a.py'')]),
        (''breakpoints'', JArray [jobj [(''line'', jint 5), (''condition'', JString ''x'')]])])]) tracker_new"

definition demo_answer :: json where
  "demo_answer = response_json 9 3 True (Some (jobj [(''breakpoints'', JArray [jobj [(''line'', jint 6)]])]))"

lemma tracker_answer_replaces_witness:
  "hm_get (tk_pending (observe_set_breakpoints_response demo_answer demo_tracked)) 3 = None \<and>
   (let t = observe_set_breakpoints_response demo_answer demo_tracked
    in file_entries t ''a.py'' = [\<lparr>sb_line = 6, sb_condition = Some ''x'', sb_hit_condition = None,
                                   sb_log_message = None\<rparr>])"
proof -
  let ?p = "\<lparr>pd_source_path = ''a.py'', pd_specs = [\<lparr>sb_line = 5, sb_condition = Some ''x'',
     sb_hit_condition = None, sb_log_message = None\<rparr>]\<rparr>"
  have "get_bool demo_answer ''success'' = Some True" "get_i64 demo_answer ''request_seq'' = Some 3"
    "Option.bind (jget demo_answer ''body'') (\<lambda>b. get_array b ''breakpoints'') = Some [jobj [(''line'', jint 6)]]"
    "hm_get (tk_pending demo_tracked) 3 = Some ?p" "distinct (hm_keys (tk_ids demo_tracked))"
    "''a.py'' = resolved_path (Some [jobj [(''line'', jint 6)]]) (pd_source_path ?p)"
    by code_simp+
  moreover have "\<exists>i < length [jobj [(''line'', jint 6)]].
      merge_breakpoint (nth_opt (pd_specs ?p) i) ([jobj [(''line'', jint 6)]] ! i) \<noteq> None"
    by (rule exI [of _ 0]) code_simp
  ultimately have "hm_get (tk_pending (observe_set_breakpoints_response demo_answer demo_tracked)) 3 = None"
    using tracker_answer_replaces [of demo_answer 3 "[jobj [(''line'', jint 6)]]" demo_tracked ?p] by blast
  then show ?thesis by (simp add: Let_def) code_simp
qed

text \<open>A \<open>changed\<close> event about a breakpoint the editor set is not recognised: the answers to
  \<open>setBreakpoints\<close> never record the adapter's ids, so the event appends a second entry to the
  file beside the one it means to update.\<close>

theorem tracker_changed_appends:
  assumes known: "known_slot bp (rebuild_source_breakpoints path specs t) = None"
    and bp: "bp_source_path bp = path" "path \<noteq> []" "parse_source_breakpoint bp = Some spec" "0 \<le> sb_line spec"
    and event: "Option.bind (jget m ''body'') as_object = Some b" "obj_get b ''breakpoint'' = Some bp"
      "obj_get b ''reason'' = Some (JString ''changed'')"
  shows "file_entries (observe_breakpoint_event m (rebuild_source_breakpoints path specs t)) path =
    specs @ [spec]"
proof -
  have "file_entries (rebuild_source_breakpoints path specs t) path = specs"
    by (simp add: file_entries_def rebuild_source_breakpoints_def)
  then show ?thesis using known bp event
    by (simp add: observe_breakpoint_event_def Let_def apply_changed_breakpoint_def apply_new_breakpoint_def
        push_breakpoint_def) (simp add: file_entries_def)
qed

definition demo_changed :: json where
  "demo_changed = event_json 1 ''breakpoint'' (Some (jobj [(''reason'', JString ''changed''),
     (''breakpoint'', jobj [(''id'', jint 1), (''line'', jint 6), (''source'', jobj [(''path'', JString ''a.py'')])])]))"

lemma tracker_changed_appends_witness:
  "length (file_entries (observe_breakpoint_event demo_changed
     (rebuild_source_breakpoints ''a.py'' [\<lparr>sb_line = 5, sb_condition = None, sb_hit_condition = None,
        sb_log_message = None\<rparr>] tracker_new)) ''a.py'') = 2"
proof -
  let ?spec = "\<lparr>sb_line = 5, sb_condition = None, sb_hit_condition = None, sb_log_message = None\<rparr>"
  let ?bp = "jobj [(''id'', jint 1), (''line'', jint 6), (''source'', jobj [(''path'', JString ''a.py'')])]"
  let ?b = "obj_insert_all [] [(''reason'', JString ''changed''), (''breakpoint'', ?bp)]"
  have f: "known_slot ?bp (rebuild_source_breakpoints ''a.py'' [?spec] tracker_new) = None"
    "bp_source_path ?bp = ''a.py''"
    "parse_source_breakpoint ?bp = Some (?spec\<lparr>sb_line := 6\<rparr>)"
    "Option.bind (jget demo_changed ''body'') as_object = Some ?b"
    "obj_get ?b ''breakpoint'' = Some ?bp" "obj_get ?b ''reason'' = Some (JString ''changed'')"
    by code_simp+
  from tracker_changed_appends [OF f(1) f(2) _ f(3) _ f(4,5,6)] show ?thesis by simp
qed

end
