(* ===== verification/InstManager.thy ===== *)
theory InstManager imports DapText begin

text \<open>
  The instance registry of \<open>instance-manager/src\<close>: ids, specs, lifecycle states and handles
  (\<open>id.rs\<close>, \<open>spec.rs\<close>, \<open>state.rs\<close>, \<open>handle.rs\<close>) and the operations of \<open>manager.rs\<close> on the
  in-memory map. A fresh UUID and the clock are arguments, the processes and ports of the machine
  a parameter. The invariant: every handle is filed under its own id.
\<close>

section \<open>Instances\<close>

type_synonym instance_id = string

datatype instance_error =
    NotFound string
  | AlreadyExists string
  | InvalidTransition string string
  | InstOther string

definition instance_id_from_str :: "string \<Rightarrow> instance_error + instance_id" where
  "instance_id_from_str s =
     (if s = [] then Inl (InstOther ''instance id cannot be empty'') else Inr s)"

datatype instance_state = Pending | Starting | RunningState | Stopping | Stopped | Failed

fun can_transition_to :: "instance_state \<Rightarrow> instance_state \<Rightarrow> bool" where
  "can_transition_to Pending Starting = True"
| "can_transition_to Starting RunningState = True"
| "can_transition_to Starting Failed = True"
| "can_transition_to RunningState Stopping = True"
| "can_transition_to RunningState Failed = True"
| "can_transition_to Stopping Stopped = True"
| "can_transition_to Stopping Failed = True"
| "can_transition_to Stopped Starting = True"
| "can_transition_to Failed Starting = True"
| "can_transition_to _ _ = False"

fun state_label :: "instance_state \<Rightarrow> string" where
  "state_label Pending = ''pending''"
| "state_label Starting = ''starting''"
| "state_label RunningState = ''running''"
| "state_label Stopping = ''stopping''"
| "state_label Stopped = ''stopped''"
| "state_label Failed = ''failed''"

record instance_spec =
  is_id :: instance_id
  is_kind :: string
  is_label :: "string option"
  is_scope :: "string option"
  is_control_port :: "nat option"
  is_parent_id :: "instance_id option"
  is_pid :: "nat option"
  is_tags :: "(string, string) hmap"
  is_created_at_unix :: int

definition instance_spec_new :: "instance_id \<Rightarrow> int \<Rightarrow> string \<Rightarrow> instance_spec" where
  "instance_spec_new uuid now kind =
     \<lparr>is_id = uuid, is_kind = kind, is_label = None, is_scope = None, is_control_port = None,
      is_parent_id = None, is_pid = None, is_tags = [], is_created_at_unix = now\<rparr>"

definition with_id :: "instance_id \<Rightarrow> instance_spec \<Rightarrow> instance_spec" where
  "with_id i s = s\<lparr>is_id := i\<rparr>"

definition with_label :: "string \<Rightarrow> instance_spec \<Rightarrow> instance_spec" where
  "with_label l s = s\<lparr>is_label := Some l\<rparr>"

definition with_scope :: "string \<Rightarrow> instance_spec \<Rightarrow> instance_spec" where
  "with_scope x s = s\<lparr>is_scope := Some x\<rparr>"

definition with_control_port :: "nat \<Rightarrow> instance_spec \<Rightarrow> instance_spec" where
  "with_control_port p s = s\<lparr>is_control_port := Some p\<rparr>"

definition with_parent_id :: "instance_id \<Rightarrow> instance_spec \<Rightarrow> instance_spec" where
  "with_parent_id p s = s\<lparr>is_parent_id := Some p\<rparr>"

definition with_pid :: "nat \<Rightarrow> instance_spec \<Rightarrow> instance_spec" where
  "with_pid p s = s\<lparr>is_pid := Some p\<rparr>"

definition with_tag :: "string \<Rightarrow> string \<Rightarrow> instance_spec \<Rightarrow> instance_spec" where
  "with_tag k v s = s\<lparr>is_tags := hm_insert k v (is_tags s)\<rparr>"

record instance_handle =
  ih_spec :: instance_spec
  ih_state :: instance_state

text \<open>The machine: which processes exist and which local ports accept a connection.\<close>

record world =
  w_proc :: "nat \<Rightarrow> bool"
  w_port :: "nat \<Rightarrow> bool"

definition is_pid_alive :: "world \<Rightarrow> nat \<Rightarrow> bool" where
  "is_pid_alive w pid \<longleftrightarrow> pid \<noteq> 0 \<and> w_proc w pid"

definition is_control_port_in_use :: "world \<Rightarrow> nat \<Rightarrow> bool" where
  "is_control_port_in_use w port \<longleftrightarrow> w_port w port"

definition handle_alive :: "world \<Rightarrow> instance_handle \<Rightarrow> bool" where
  "handle_alive w h \<longleftrightarrow>
     ih_state h \<noteq> Stopped \<and> ih_state h \<noteq> Failed \<and>
     (case is_pid (ih_spec h) of Some pid \<Rightarrow> is_pid_alive w pid | None \<Rightarrow> True) \<and>
     (case is_control_port (ih_spec h) of Some port \<Rightarrow> is_control_port_in_use w port | None \<Rightarrow> True)"

section \<open>The manager\<close>

type_synonym manager = "(instance_id, instance_handle) hmap"

definition register_instance :: "instance_spec \<Rightarrow> manager \<Rightarrow> (instance_error + instance_id) \<times> manager" where
  "register_instance spec m =
     (if hm_get m (is_id spec) \<noteq> None then (Inl (AlreadyExists (is_id spec)), m)
      else (Inr (is_id spec), hm_insert (is_id spec) \<lparr>ih_spec = spec, ih_state = Pending\<rparr> m))"

definition list_instances :: "string option \<Rightarrow> manager \<Rightarrow> instance_handle list" where
  "list_instances scope m =
     filter (\<lambda>h. case scope of Some s \<Rightarrow> is_scope (ih_spec h) = Some s | None \<Rightarrow> True) (map snd m)"

definition get_instance :: "instance_id \<Rightarrow> manager \<Rightarrow> instance_error + instance_handle" where
  "get_instance i m = (case hm_get m i of Some h \<Rightarrow> Inr h | None \<Rightarrow> Inl (NotFound i))"

text \<open>The shape of the three setters: find the handle, change it in place, return a copy.\<close>

definition set_state :: "instance_id \<Rightarrow> instance_state \<Rightarrow> manager
    \<Rightarrow> (instance_error + instance_handle) \<times> manager" where
  "set_state i next m =
     (case hm_get m i of
        None \<Rightarrow> (Inl (NotFound i), m)
      | Some h \<Rightarrow>
          if \<not> can_transition_to (ih_state h) next
          then (Inl (InvalidTransition (state_label (ih_state h)) (state_label next)), m)
          else (Inr (h\<lparr>ih_state := next\<rparr>), hm_insert i (h\<lparr>ih_state := next\<rparr>) m))"

definition remove_instance :: "instance_id \<Rightarrow> manager \<Rightarrow> (instance_error + instance_handle) \<times> manager" where
  "remove_instance i m =
     (case hm_get m i of Some h \<Rightarrow> (Inr h, hm_remove i m) | None \<Rightarrow> (Inl (NotFound i), m))"

definition count_instances :: "manager \<Rightarrow> nat" where
  "count_instances m = length m"

definition set_control_port :: "instance_id \<Rightarrow> nat \<Rightarrow> manager
    \<Rightarrow> (instance_error + instance_handle) \<times> manager" where
  "set_control_port i port m =
     (case hm_get m i of
        None \<Rightarrow> (Inl (NotFound i), m)
      | Some h \<Rightarrow>
          let h' = h\<lparr>ih_spec := (ih_spec h)\<lparr>is_control_port := Some port\<rparr>\<rparr>
          in (Inr h', hm_insert i h' m))"

definition set_pid :: "instance_id \<Rightarrow> nat \<Rightarrow> manager \<Rightarrow> (instance_error + instance_handle) \<times> manager" where
  "set_pid i pid m =
     (case hm_get m i of
        None \<Rightarrow> (Inl (NotFound i), m)
      | Some h \<Rightarrow>
          let h' = h\<lparr>ih_spec := (ih_spec h)\<lparr>is_pid := Some pid\<rparr>\<rparr>
          in (Inr h', hm_insert i h' m))"

text \<open>\<open>prune_stale\<close> removes one by one the ids of the handles it found dead.\<close>

fun remove_all :: "instance_id list \<Rightarrow> manager \<Rightarrow> instance_id list \<times> manager" where
  "remove_all [] m = ([], m)"
| "remove_all (i # is) m =
     (case remove_instance i m of
        (Inr _, m') \<Rightarrow> (case remove_all is m' of (rs, m'') \<Rightarrow> (i # rs, m''))
      | (Inl _, m') \<Rightarrow> remove_all is m')"

definition prune_stale :: "world \<Rightarrow> manager \<Rightarrow> instance_id list \<times> manager" where
  "prune_stale w m =
     remove_all (map (\<lambda>h. is_id (ih_spec h)) (filter (\<lambda>h. \<not> handle_alive w h) (list_instances None m))) m"

section \<open>The invariant\<close>

definition manager_ok :: "manager \<Rightarrow> bool" where
  "manager_ok m \<longleftrightarrow> distinct (hm_keys m) \<and> list_all (\<lambda>(i, h). is_id (ih_spec h) = i) m"

lemma manager_okD: "manager_ok m \<Longrightarrow> hm_get m i = Some h \<Longrightarrow> is_id (ih_spec h) = i"
  by (auto simp: manager_ok_def list_all_iff dest!: map_of_SomeD)

lemma manager_ok_Nil [simp]: "manager_ok []"
  by (simp add: manager_ok_def)

lemma hm_insert_members: "set (hm_insert k v m) \<subseteq> insert (k, v) (set m)"
  by (induction m) auto

lemma manager_ok_insert: "manager_ok m \<Longrightarrow> is_id (ih_spec h) = i \<Longrightarrow> manager_ok (hm_insert i h m)"
  using hm_insert_members [of i h m] by (auto simp: manager_ok_def list_all_iff distinct_update)

lemma manager_ok_remove: "manager_ok m \<Longrightarrow> manager_ok (hm_remove i m)"
  by (auto simp: manager_ok_def list_all_iff distinct_delete) (auto simp: AList.delete_eq)

lemma manager_ok_remove_all: "manager_ok m \<Longrightarrow> manager_ok (snd (remove_all is m))"
  by (induction "is" m rule: remove_all.induct)
     (auto simp: remove_instance_def manager_ok_remove split: option.splits prod.splits)

datatype manager_op =
    Register instance_spec
  | SetState instance_id instance_state
  | Remove instance_id
  | SetControlPort instance_id nat
  | SetPid instance_id nat
  | Prune world

fun manager_step :: "manager \<Rightarrow> manager_op \<Rightarrow> manager" where
  "manager_step m (Register s) = snd (register_instance s m)"
| "manager_step m (SetState i n) = snd (set_state i n m)"
| "manager_step m (Remove i) = snd (remove_instance i m)"
| "manager_step m (SetControlPort i p) = snd (set_control_port i p m)"
| "manager_step m (SetPid i p) = snd (set_pid i p m)"
| "manager_step m (Prune w) = snd (prune_stale w m)"

interpretation im: guarded_machine "[]" manager_step "\<lambda>_ _. True" manager_ok
proof (unfold_locales, goal_cases)
  case 1
  show ?case by simp
next
  case (2 m e)
  then show ?case
    by (cases e) (auto simp: register_instance_def set_state_def remove_instance_def set_control_port_def
        set_pid_def prune_stale_def Let_def split: option.splits
        intro!: manager_ok_insert manager_ok_remove manager_ok_remove_all dest: manager_okD)
qed

section \<open>The lifecycle\<close>

text \<open>An instance that an operation leaves in the map is new and pending, or moved along the lifecycle.\<close>

lemma remove_all_get:
  "hm_get (snd (remove_all is m)) j = (if j \<in> set is then None else hm_get m j)"
  by (induction "is" m rule: remove_all.induct) (auto simp: remove_instance_def split: option.splits prod.splits)

lemma step_lifecycle:
  assumes "hm_get (manager_step m e) i = Some h'"
  shows "case hm_get m i of
      None \<Rightarrow> ih_state h' = Pending \<and> e = Register (ih_spec h')
    | Some h \<Rightarrow> ih_state h' = ih_state h \<or> can_transition_to (ih_state h) (ih_state h')"
  using assms
  by (cases e) (auto simp: register_instance_def set_state_def remove_instance_def set_control_port_def
      set_pid_def prune_stale_def remove_all_get Let_def split: option.splits if_splits)

text \<open>What pruning removes.\<close>

lemma remove_all_removed:
  "distinct is \<Longrightarrow> fst (remove_all is m) = filter (\<lambda>i. hm_get m i \<noteq> None) is"
proof (induction "is" m rule: remove_all.induct)
  case (2 i "is" m)
  then show ?case by (auto simp: remove_instance_def split: option.splits prod.splits intro!: filter_cong)
qed simp

end
