(* ===== verification/InstStore.thy ===== *)
theory InstStore imports InstManager "HOL-Library.List_Lexorder" "HOL-Library.Char_ord" begin

text \<open>
  The file-backed session store of \<open>instance-manager/src/store.rs\<close> and the two bridges between it
  and the manager (\<open>import_from_store\<close>, \<open>persist_to_store\<close>). The directory is the list of its
  files by name in the order the system lists them; the JSON text of a record is \<open>serde_json\<close>'s
  (\<open>encode\<close>, \<open>decode\<close>), and an \<open>io\<close> argument says which file operation fails. The system's
  own words in an error message are left out.
\<close>

section \<open>Records and files\<close>

record session_record =
  sr_instance_id :: string
  sr_pid :: nat
  sr_control_port :: nat
  sr_adapter_id :: string
  sr_program :: "string option"
  sr_scope :: "string option"
  sr_parent_id :: "string option"
  sr_started_at_unix :: int

definition record_alive :: "world \<Rightarrow> session_record \<Rightarrow> bool" where
  "record_alive w r \<longleftrightarrow> is_pid_alive w (sr_pid r) \<and> is_control_port_in_use w (sr_control_port r)"

type_synonym store = "(string, string) hmap"

datatype file_op = ReadDir | ReadFile string | WriteFile string | RenameFile string | RemoveFile string

type_synonym io = "file_op \<Rightarrow> string option"

definition record_path :: "string \<Rightarrow> string" where
  "record_path i = i @ ''.json''"

text \<open>\<open>Path::file_stem\<close> and \<open>Path::extension\<close> of a plain file name.\<close>

definition file_extension :: "string \<Rightarrow> string option" where
  "file_extension n =
     (if n = ''..'' then None
      else case rsplit_once CHR ''.'' n of
        Some (a, b) \<Rightarrow> if a = [] then None else Some b
      | None \<Rightarrow> None)"

definition with_extension :: "string \<Rightarrow> string \<Rightarrow> string" where
  "with_extension n e =
     (case rsplit_once CHR ''.'' n of
        Some (a, b) \<Rightarrow> (if a = [] \<or> last a = CHR ''/'' then n else a) @ ''.'' @ e
      | None \<Rightarrow> n @ ''.'' @ e)"

definition tmp_path :: "string \<Rightarrow> string" where
  "tmp_path i = with_extension (record_path i) ''json.tmp''"

section \<open>Operations\<close>

text \<open>Where the records are kept: the environment decides.\<close>

definition sessions_dir :: "(string \<Rightarrow> string option) \<Rightarrow> (string \<Rightarrow> string \<Rightarrow> string) \<Rightarrow> string" where
  "sessions_dir env join =
     (case env ''DAP_SESSIONS_DIR'' of
        Some d \<Rightarrow> d
      | None \<Rightarrow>
          join (case env ''XDG_DATA_HOME'' of
                  Some d \<Rightarrow> d
                | None \<Rightarrow> (case env ''HOME'' of Some h \<Rightarrow> join h ''.local/share'' | None \<Rightarrow> ''/tmp''))
            ''dap/sessions'')"

text \<open>\<open>open\<close> creates the directory; \<open>fails\<close> is the error of that, if it has one.\<close>

definition store_open :: "string option \<Rightarrow> string \<Rightarrow> instance_error + string" where
  "store_open fails dir =
     (case fails of Some e \<Rightarrow> Inl (InstOther (''create sessions dir: '' @ e)) | None \<Rightarrow> Inr dir)"

text \<open>Write beside the record, then rename over it.\<close>

definition store_save :: "(session_record \<Rightarrow> string) \<Rightarrow> io \<Rightarrow> session_record \<Rightarrow> store
    \<Rightarrow> (instance_error + unit) \<times> store" where
  "store_save encode io r d =
     (let path = record_path (sr_instance_id r); tmp = tmp_path (sr_instance_id r); body = encode r
      in case io (WriteFile tmp) of
           Some e \<Rightarrow> (Inl (InstOther (''write session tmp: '' @ e)), d)
         | None \<Rightarrow>
             let d' = hm_insert tmp body d
             in (case io (RenameFile tmp) of
                   Some e \<Rightarrow> (Inl (InstOther (''commit session file: '' @ e)), d')
                 | None \<Rightarrow> (Inr (), hm_insert path body (hm_remove tmp d'))))"

definition store_delete :: "io \<Rightarrow> string \<Rightarrow> store \<Rightarrow> (instance_error + unit) \<times> store" where
  "store_delete io i d =
     (if hm_get d (record_path i) = None then (Inr (), d)
      else case io (RemoveFile (record_path i)) of
        Some e \<Rightarrow> (Inl (InstOther (''delete session file: '' @ e)), d)
      | None \<Rightarrow> (Inr (), hm_remove (record_path i) d))"

text \<open>A removal whose failure is ignored.\<close>

definition try_remove :: "io \<Rightarrow> string \<Rightarrow> store \<Rightarrow> store" where
  "try_remove io n d = (if io (RemoveFile n) = None then hm_remove n d else d)"

definition read_record :: "(string \<Rightarrow> session_record option) \<Rightarrow> io \<Rightarrow> string \<Rightarrow> store
    \<Rightarrow> (instance_error + session_record) \<times> store" where
  "read_record decode io n d =
     (case (io (ReadFile n), hm_get d n) of
        (None, Some body) \<Rightarrow>
          (case decode body of
             Some r \<Rightarrow> (Inr r, d)
           | None \<Rightarrow> (Inl (InstOther (''parse session '' @ n)), try_remove io n d))
      | _ \<Rightarrow> (Inl (InstOther (''read session '' @ n)), d))"

definition store_get :: "(string \<Rightarrow> session_record option) \<Rightarrow> world \<Rightarrow> io \<Rightarrow> string \<Rightarrow> store
    \<Rightarrow> (instance_error + session_record option) \<times> store" where
  "store_get decode w io i d =
     (if hm_get d (record_path i) = None then (Inr None, d)
      else case read_record decode io (record_path i) d of
        (Inl e, d') \<Rightarrow> (Inl e, d')
      | (Inr r, d') \<Rightarrow>
          if record_alive w r then (Inr (Some r), d')
          else (Inr None, try_remove io (record_path i) d'))"

text \<open>The directory's entries are the names without a separator; only \<open>.json\<close> files are read.\<close>

definition is_record_file :: "string \<Rightarrow> bool" where
  "is_record_file n \<longleftrightarrow> CHR ''/'' \<notin> set n \<and> file_extension n = Some ''json''"

fun scan_records :: "(string \<Rightarrow> session_record option) \<Rightarrow> world \<Rightarrow> io \<Rightarrow> string list \<Rightarrow> store
    \<Rightarrow> session_record list \<times> store" where
  "scan_records decode w io [] d = ([], d)"
| "scan_records decode w io (n # ns) d =
     (if \<not> is_record_file n then scan_records decode w io ns d
      else case read_record decode io n d of
        (Inl e, d') \<Rightarrow> scan_records decode w io ns d'
      | (Inr r, d') \<Rightarrow>
          if record_alive w r then apfst ((#) r) (scan_records decode w io ns d')
          else scan_records decode w io ns (try_remove io n d'))"

definition store_list_active :: "(string \<Rightarrow> session_record option) \<Rightarrow> world \<Rightarrow> io \<Rightarrow> store
    \<Rightarrow> (instance_error + session_record list) \<times> store" where
  "store_list_active decode w io d =
     (case io ReadDir of
        Some e \<Rightarrow> (Inl (InstOther (''read sessions dir: '' @ e)), d)
      | None \<Rightarrow>
          (case scan_records decode w io (hm_keys d) d of
             (rs, d') \<Rightarrow> (Inr (sort_key sr_instance_id rs), d')))"

section \<open>Between the manager and the store\<close>

definition session_record_from_handle :: "instance_handle \<Rightarrow> session_record option" where
  "session_record_from_handle h =
     (case (is_control_port (ih_spec h), is_pid (ih_spec h), hm_get (is_tags (ih_spec h)) ''adapter'') of
        (Some port, Some pid, Some adapter) \<Rightarrow> Some
          \<lparr>sr_instance_id = is_id (ih_spec h), sr_pid = pid, sr_control_port = port,
           sr_adapter_id = adapter, sr_program = is_label (ih_spec h), sr_scope = is_scope (ih_spec h),
           sr_parent_id = is_parent_id (ih_spec h), sr_started_at_unix = is_created_at_unix (ih_spec h)\<rparr>
      | _ \<Rightarrow> None)"

definition persist_to_store :: "(session_record \<Rightarrow> string) \<Rightarrow> io \<Rightarrow> instance_handle \<Rightarrow> store
    \<Rightarrow> (instance_error + unit) \<times> store" where
  "persist_to_store encode io h d =
     (case session_record_from_handle h of
        None \<Rightarrow> (Inr (), d)
      | Some r \<Rightarrow> store_save encode io r d)"

definition spec_of_record :: "string \<Rightarrow> int \<Rightarrow> session_record \<Rightarrow> instance_spec" where
  "spec_of_record uuid now r =
     (let s = with_tag ''adapter'' (sr_adapter_id r) (with_pid (sr_pid r)
                (with_control_port (sr_control_port r) (with_id (sr_instance_id r)
                  (instance_spec_new uuid now ''dap-session''))));
          s = (case sr_program r of Some p \<Rightarrow> with_label p s | None \<Rightarrow> s);
          s = (case sr_scope r of Some x \<Rightarrow> with_scope x s | None \<Rightarrow> s)
      in case sr_parent_id r of Some p \<Rightarrow> with_parent_id p s | None \<Rightarrow> s)"

text \<open>The records one after the other; the first failure ends the import.\<close>

fun import_records :: "string \<Rightarrow> int \<Rightarrow> session_record list \<Rightarrow> manager
    \<Rightarrow> (instance_error + instance_id list) \<times> manager" where
  "import_records uuid now [] m = (Inr [], m)"
| "import_records uuid now (r # rs) m =
     (case get_instance (sr_instance_id r) m of
        Inr _ \<Rightarrow> import_records uuid now rs m
      | Inl _ \<Rightarrow>
          (case register_instance (spec_of_record uuid now r) m of
             (Inl e, m') \<Rightarrow> (Inl e, m')
           | (Inr _, m') \<Rightarrow>
               (case set_state (sr_instance_id r) RunningState m' of
                  (Inl e, m'') \<Rightarrow> (Inl e, m'')
                | (Inr _, m'') \<Rightarrow>
                    (case import_records uuid now rs m'' of
                       (Inl e, m3) \<Rightarrow> (Inl e, m3)
                     | (Inr is, m3) \<Rightarrow> (Inr (sr_instance_id r # is), m3)))))"

definition import_from_store :: "(string \<Rightarrow> session_record option) \<Rightarrow> world \<Rightarrow> io \<Rightarrow> string \<Rightarrow> int \<Rightarrow> store
    \<Rightarrow> manager \<Rightarrow> (instance_error + instance_id list) \<times> manager \<times> store" where
  "import_from_store decode w io uuid now d m =
     (case store_list_active decode w io d of
        (Inl e, d') \<Rightarrow> (Inl e, m, d')
      | (Inr rs, d') \<Rightarrow> (case import_records uuid now rs m of (res, m') \<Rightarrow> (res, m', d')))"


section \<open>Files of the store\<close>

text \<open>No file operation fails.\<close>

definition io_ok :: io where
  "io_ok op = None"

lemma io_ok_None: "io_ok op = None"
  by (simp add: io_ok_def)

lemma record_path_inj [simp]: "record_path i = record_path j \<longleftrightarrow> i = j"
  by (simp add: record_path_def)

lemma last_with_extension: "e \<noteq> [] \<Longrightarrow> last (with_extension n e) = last e"
  by (simp add: with_extension_def split: option.split prod.split)

lemma tmp_path_not_record [simp]: "tmp_path i \<noteq> record_path j" "record_path j \<noteq> tmp_path i"
proof -
  have "last (tmp_path i) = CHR ''p''" by (simp add: tmp_path_def last_with_extension)
  moreover have "last (record_path j) = CHR ''n''" by (simp add: record_path_def)
  ultimately show "tmp_path i \<noteq> record_path j" "record_path j \<noteq> tmp_path i" by auto
qed

lemma store_save_files:
  "hm_get (snd (store_save encode io_ok r d)) =
     (hm_get d)(tmp_path (sr_instance_id r) := None, record_path (sr_instance_id r) \<mapsto> encode r)"
  by (auto simp: store_save_def Let_def fun_eq_iff io_ok_None)

lemma store_save_ok: "fst (store_save encode io_ok r d) = Inr ()"
  by (simp add: store_save_def Let_def io_ok_None)


lemma read_record_ok:
  "hm_get d n = Some body \<Longrightarrow> decode body = Some r \<Longrightarrow> read_record decode io_ok n d = (Inr r, d)"
  by (simp add: read_record_def io_ok_None)

lemma store_get_saved:
  assumes "decode (encode r) = Some r"
  shows "fst (store_get decode w io_ok (sr_instance_id r) (snd (store_save encode io_ok r d))) =
      Inr (if record_alive w r then Some r else None)"
    and "hm_get (snd (store_get decode w io_ok (sr_instance_id r) (snd (store_save encode io_ok r d))))
      (record_path (sr_instance_id r)) = (if record_alive w r then Some (encode r) else None)"
proof -
  let ?n = "record_path (sr_instance_id r)" and ?d = "snd (store_save encode io_ok r d)"
  have g: "hm_get ?d ?n = Some (encode r)" by (simp add: store_save_files)
  have "store_get decode w io_ok (sr_instance_id r) ?d =
    (if record_alive w r then (Inr (Some r), ?d) else (Inr None, hm_remove ?n ?d))"
    using g read_record_ok [where decode = decode, OF g assms] by (simp add: store_get_def try_remove_def io_ok_None)
  then show "fst (store_get decode w io_ok (sr_instance_id r) ?d) = Inr (if record_alive w r then Some r else None)"
    and "hm_get (snd (store_get decode w io_ok (sr_instance_id r) ?d)) ?n =
      (if record_alive w r then Some (encode r) else None)"
    using g by simp_all
qed

section \<open>Listing\<close>

text \<open>What a file contributes: a live record, or nothing.\<close>

definition live_record :: "(string \<Rightarrow> session_record option) \<Rightarrow> world \<Rightarrow> store \<Rightarrow> string \<Rightarrow> session_record option" where
  "live_record decode w d n =
     (if is_record_file n
      then Option.bind (hm_get d n) (\<lambda>b. Option.bind (decode b) (\<lambda>r. if record_alive w r then Some r else None))
      else None)"

definition stale_file :: "(string \<Rightarrow> session_record option) \<Rightarrow> world \<Rightarrow> store \<Rightarrow> string \<Rightarrow> bool" where
  "stale_file decode w d n \<longleftrightarrow> is_record_file n \<and> hm_get d n \<noteq> None \<and> live_record decode w d n = None"

lemma live_record_cong: "hm_get e n = hm_get d n \<Longrightarrow> live_record decode w e n = live_record decode w d n"
  by (simp add: live_record_def)

lemma scan_records_step:
  "scan_records decode w io_ok (n # ns) d =
     (case live_record decode w d n of
        Some r \<Rightarrow> apfst ((#) r) (scan_records decode w io_ok ns d)
      | None \<Rightarrow> scan_records decode w io_ok ns (if stale_file decode w d n then hm_remove n d else d))"
  by (auto simp: live_record_def stale_file_def read_record_def try_remove_def io_ok_None split: option.splits)

declare scan_records.simps(2) [simp del]

lemma map_filter_Cons: "List.map_filter f (x # xs) = (case f x of Some y \<Rightarrow> [y] | None \<Rightarrow> []) @ List.map_filter f xs"
  by (simp add: List.map_filter_def split: option.split)

lemma scan_records_spec:
  assumes "distinct ns"
  shows "fst (scan_records decode w io_ok ns d) = List.map_filter (live_record decode w d) ns \<and>
    hm_get (snd (scan_records decode w io_ok ns d)) =
      (\<lambda>n. if n \<in> set ns \<and> stale_file decode w d n then None else hm_get d n)"
  using assms
proof (induction ns arbitrary: d)
  case Nil
  show ?case by (simp add: List.map_filter_def)
next
  case (Cons n ns)
  define e where "e = (if stale_file decode w d n then hm_remove n d else d)"
  have e: "hm_get e k = hm_get d k" if "k \<noteq> n" for k using that by (simp add: e_def)
  have le: "live_record decode w e k = live_record decode w d k" if "k \<noteq> n" for k
    using e [OF that] by (rule live_record_cong)
  have se: "stale_file decode w e k = stale_file decode w d k" if "k \<noteq> n" for k
    using e [OF that] le [OF that] by (simp add: stale_file_def)
  have "List.map_filter (live_record decode w e) ns = List.map_filter (live_record decode w d) ns"
    using Cons.prems le by (intro map_filter_cong) (auto, metis)
  then have "fst (scan_records decode w io_ok ns e) = List.map_filter (live_record decode w d) ns"
    using Cons.IH [of e] Cons.prems by simp
  moreover have "scan_records decode w io_ok (n # ns) d = (case live_record decode w d n of
      Some r \<Rightarrow> apfst ((#) r) (scan_records decode w io_ok ns e) | None \<Rightarrow> scan_records decode w io_ok ns e)"
    unfolding scan_records_step by (cases "live_record decode w d n") (simp_all add: e_def stale_file_def)
  ultimately have step: "fst (scan_records decode w io_ok (n # ns) d) = List.map_filter (live_record decode w d) (n # ns)"
      "snd (scan_records decode w io_ok (n # ns) d) = snd (scan_records decode w io_ok ns e)"
    by (cases "live_record decode w d n"; simp add: map_filter_Cons)+
  have "hm_get (snd (scan_records decode w io_ok ns e)) k =
      (if k \<in> set (n # ns) \<and> stale_file decode w d k then None else hm_get d k)" for k
  proof -
    have ih: "hm_get (snd (scan_records decode w io_ok ns e)) k =
        (if k \<in> set ns \<and> stale_file decode w e k then None else hm_get e k)"
      using Cons.IH [of e] Cons.prems by simp
    show ?thesis
    proof (cases "k = n")
      case True
      then show ?thesis using Cons.prems unfolding ih by (simp add: e_def)
    next
      case False
      then show ?thesis unfolding ih using e [OF False] se [OF False] by simp
    qed
  qed
  with step show ?case by (simp add: fun_eq_iff)
qed


section \<open>Importing\<close>

lemma get_instance_known: "get_instance i m = Inl e \<longleftrightarrow> hm_get m i = None \<and> e = NotFound i"
  by (auto simp: get_instance_def split: option.splits)

lemma spec_of_record_id [simp]: "is_id (spec_of_record uuid now r) = sr_instance_id r"
  by (simp add: spec_of_record_def Let_def with_tag_def with_pid_def with_control_port_def with_id_def
      with_label_def with_scope_def with_parent_id_def split: option.split)

text \<open>A pending instance may not become running, so the first unknown record ends the import.\<close>

lemma import_first_unknown:
  assumes "\<forall>r \<in> set known. hm_get m (sr_instance_id r) \<noteq> None" and "hm_get m (sr_instance_id r) = None"
  shows "import_records uuid now (known @ r # rs) m =
    (Inl (InvalidTransition ''pending'' ''running''),
     hm_insert (sr_instance_id r) \<lparr>ih_spec = spec_of_record uuid now r, ih_state = Pending\<rparr> m)"
  using assms
proof (induction known)
  case Nil
  then show ?case by (simp add: get_instance_def register_instance_def set_state_def)
next
  case (Cons k known)
  then show ?case by (auto simp: get_instance_def)
qed

lemma import_all_known:
  "\<forall>r \<in> set rs. hm_get m (sr_instance_id r) \<noteq> None \<Longrightarrow> import_records uuid now rs m = (Inr [], m)"
  by (induction rs) (auto simp: get_instance_def)

end
