(* ===== verification/InstProperties.thy ===== *)
theory InstProperties imports InstStore "HOL-Library.Multiset" begin

text \<open>
  The properties of the instance registry and of the session store, with the parameters of the
  store (the JSON text of a record, the processes and ports of the machine) instantiated in the
  witnesses.
\<close>

section \<open>The manager\<close>

text \<open>C32: after any operations in any order every handle is filed under the id of its own spec, and
  no single operation moves an instance other than along an edge of the lifecycle: what it leaves
  in the map was just registered and is pending, or kept its state, or made an allowed
  transition.\<close>

theorem manager_lifecycle:
  "manager_ok (foldl manager_step [] ops) \<and>
   (\<forall>i h'. hm_get (manager_step (foldl manager_step [] ops) e) i = Some h' \<longrightarrow>
      (case hm_get (foldl manager_step [] ops) i of
         None \<Rightarrow> ih_state h' = Pending \<and> e = Register (ih_spec h')
       | Some h \<Rightarrow> ih_state h' = ih_state h \<or> can_transition_to (ih_state h) (ih_state h')))"
  using im.good_reached [of ops] step_lifecycle by simp

definition demo_spec :: instance_spec where
  "demo_spec = with_pid 4 (instance_spec_new ''a'' 0 ''dap-session'')"

lemma manager_lifecycle_witness:
  "manager_ok (foldl manager_step [] [Register demo_spec, SetState ''a'' Starting]) \<and>
   ih_state (the (hm_get (foldl manager_step [] [Register demo_spec, SetState ''a'' Starting]) ''a'')) = Starting"
  using manager_lifecycle [of "[Register demo_spec, SetState ''a'' Starting]"] by (simp add: demo_spec_def
      instance_spec_new_def with_pid_def register_instance_def set_state_def)

text \<open>Registering is refused exactly for a known id and otherwise adds one pending handle; a
  state change is refused exactly for an unknown id or a transition the lifecycle does not have;
  every refusal leaves the map as it was.\<close>

theorem manager_refusals:
  "(fst (register_instance spec m) = Inl (AlreadyExists (is_id spec)) \<longleftrightarrow> hm_get m (is_id spec) \<noteq> None) \<and>
   (hm_get m (is_id spec) = None \<longrightarrow> hm_get (snd (register_instance spec m)) =
      (hm_get m)(is_id spec \<mapsto> \<lparr>ih_spec = spec, ih_state = Pending\<rparr>)) \<and>
   ((\<exists>h. fst (set_state i next m) = Inr h) \<longleftrightarrow>
      (\<exists>h. hm_get m i = Some h \<and> can_transition_to (ih_state h) next)) \<and>
   (\<forall>err. fst (register_instance spec m) = Inl err \<longrightarrow> snd (register_instance spec m) = m) \<and>
   (\<forall>err. fst (set_state i next m) = Inl err \<longrightarrow> snd (set_state i next m) = m)"
  by (auto simp: register_instance_def set_state_def split: option.splits if_splits)

lemma manager_refusals_witness:
  "hm_get (snd (register_instance demo_spec [])) ''a'' = Some \<lparr>ih_spec = demo_spec, ih_state = Pending\<rparr>"
  using manager_refusals [of demo_spec "[]" "''a''" Starting]
  by (simp add: demo_spec_def instance_spec_new_def with_pid_def)

text \<open>Pruning removes exactly the instances that are stopped, failed, or whose process or
  control port is gone, and names each of them once.\<close>

theorem prune_exact:
  assumes "manager_ok m"
  shows "hm_get (snd (prune_stale w m)) i =
      (case hm_get m i of Some h \<Rightarrow> if handle_alive w h then Some h else None | None \<Rightarrow> None) \<and>
    distinct (fst (prune_stale w m)) \<and>
    (i \<in> set (fst (prune_stale w m)) \<longleftrightarrow> (\<exists>h. hm_get m i = Some h \<and> \<not> handle_alive w h))"
proof -
  define dead where "dead = map (\<lambda>h. is_id (ih_spec h)) (filter (\<lambda>h. \<not> handle_alive w h) (list_instances None m))"
  have keyed: "\<forall>(j, h) \<in> set m. is_id (ih_spec h) = j" and dist: "distinct (hm_keys m)"
    using assms by (auto simp: manager_ok_def list_all_iff)
  have "dead = hm_keys (filter (\<lambda>(j, h). \<not> handle_alive w h) m)"
    unfolding dead_def list_instances_def using keyed by (induction m) (auto split: prod.splits)
  then have d: "distinct dead" "j \<in> set dead \<longleftrightarrow> (\<exists>h. hm_get m j = Some h \<and> \<not> handle_alive w h)" for j
    using dist by (auto simp: hm_distinct_retain case_prod_unfold) force+
  have p: "prune_stale w m = remove_all dead m" by (simp add: prune_stale_def dead_def)
  have "fst (prune_stale w m) = dead"
    using d(2) by (auto simp: p remove_all_removed [OF d(1)] filter_id_conv)
  then show ?thesis using d by (auto simp: p remove_all_get split: option.splits)
qed

lemma prune_exact_witness:
  "snd (prune_stale \<lparr>w_proc = (\<lambda>_. False), w_port = (\<lambda>_. False)\<rparr> (foldl manager_step [] [Register demo_spec])) = [] \<and>
   ''a'' \<in> set (fst (prune_stale \<lparr>w_proc = (\<lambda>_. False), w_port = (\<lambda>_. False)\<rparr> (foldl manager_step [] [Register demo_spec])))"
proof
  let ?w = "\<lparr>w_proc = (\<lambda>_. False), w_port = (\<lambda>_. False)\<rparr>" and ?m = "foldl manager_step [] [Register demo_spec]"
  show "snd (prune_stale ?w ?m) = []" by (simp add: demo_spec_def instance_spec_new_def with_pid_def
      register_instance_def prune_stale_def list_instances_def handle_alive_def is_pid_alive_def remove_instance_def)
  have "manager_ok ?m" using im.good_reached [of "[Register demo_spec]"] by simp
  from prune_exact [OF this, of ?w "''a''"] show "''a'' \<in> set (fst (prune_stale ?w ?m))"
    by (simp add: demo_spec_def instance_spec_new_def with_pid_def register_instance_def handle_alive_def is_pid_alive_def)
qed

section \<open>The store\<close>

text \<open>C33: a saved record is read back as it was while its process and port are alive, and otherwise
  is absent and its file is removed; no other record's file is touched by saving, and no temporary
  file remains.\<close>

theorem store_save_get:
  fixes d :: store
  assumes "decode (encode r) = Some r"
  defines "d' \<equiv> snd (store_save encode io_ok r d)"
  shows "fst (store_get decode w io_ok (sr_instance_id r) d') = Inr (if record_alive w r then Some r else None) \<and>
    hm_get (snd (store_get decode w io_ok (sr_instance_id r) d')) (record_path (sr_instance_id r)) =
      (if record_alive w r then Some (encode r) else None) \<and>
    hm_get d' (tmp_path (sr_instance_id r)) = None \<and>
    (\<forall>j. j \<noteq> sr_instance_id r \<longrightarrow> hm_get d' (record_path j) = hm_get d (record_path j))"
  using store_get_saved [where decode = decode and encode = encode and r = r, OF assms(1)]
  by (simp add: d'_def store_save_files)

definition demo_record :: session_record where
  "demo_record = \<lparr>sr_instance_id = ''s'', sr_pid = 7, sr_control_port = 4711, sr_adapter_id = ''python'',
     sr_program = None, sr_scope = None, sr_parent_id = None, sr_started_at_unix = 5\<rparr>"

definition demo_world :: world where
  "demo_world = \<lparr>w_proc = (\<lambda>p. p = 7), w_port = (\<lambda>p. p = 4711)\<rparr>"

lemma store_save_get_witness:
  "fst (store_get (\<lambda>_. Some demo_record) demo_world io_ok ''s'' (snd (store_save (\<lambda>_. ''{}'') io_ok demo_record []))) =
    Inr (Some demo_record)"
  using store_save_get [of "\<lambda>_. Some demo_record" "\<lambda>_. ''{}''" demo_record demo_world "[]"]
  by (simp add: demo_record_def demo_world_def record_alive_def is_pid_alive_def is_control_port_in_use_def)

text \<open>Listing returns exactly the live records of the directory's record files, sorted by id, and
  removes exactly the record files that are unreadable or belong to a dead session.\<close>

theorem store_list_exact:
  assumes "distinct (hm_keys d)"
  shows "\<exists>rs d'. store_list_active decode w io_ok d = (Inr rs, d') \<and>
    mset rs = mset (List.map_filter (live_record decode w d) (hm_keys d)) \<and>
    sorted (map sr_instance_id rs) \<and>
    hm_get d' = (\<lambda>n. if stale_file decode w d n then None else hm_get d n)"
proof -
  obtain rs d' where scan: "scan_records decode w io_ok (hm_keys d) d = (rs, d')"
    by (cases "scan_records decode w io_ok (hm_keys d) d")
  note spec = scan_records_spec [OF assms, of decode w d, unfolded scan fst_conv snd_conv]
  have "n \<in> set (hm_keys d)" if "stale_file decode w d n" for n
    using that by (auto simp: stale_file_def dest: map_of_SomeD intro: rev_image_eqI)
  then have "hm_get d' = (\<lambda>n. if stale_file decode w d n then None else hm_get d n)"
    using spec by auto
  then show ?thesis using spec by (simp add: store_list_active_def io_ok_None scan)
qed

lemma store_list_exact_witness:
  "\<exists>rs d'. store_list_active (\<lambda>_. Some demo_record) demo_world io_ok [(''s.json'', ''{}''), (''x.txt'', [])] = (Inr rs, d') \<and>
     mset rs = {#demo_record#}"
proof -
  have f: "file_extension ''s.json'' = Some ''json''" "file_extension ''x.txt'' = Some ''txt''" by code_simp+
  have "List.map_filter (live_record (\<lambda>_. Some demo_record) demo_world [(''s.json'', ''{}''), (''x.txt'', [])])
      (hm_keys [(''s.json'', ''{}''), (''x.txt'', [])]) = [demo_record]"
    using f by (simp add: List.map_filter_def live_record_def is_record_file_def record_alive_def demo_world_def
        is_pid_alive_def is_control_port_in_use_def) (simp add: demo_record_def)
  with store_list_exact [of "[(''s.json'', ''{}''), (''x.txt'', [])]" "\<lambda>_. Some demo_record" demo_world]
  show ?thesis by auto
qed



text \<open>What a manager would persist of an imported record is the record again, except for its start
  time: the import stamps the time of the import.\<close>

theorem import_persist_roundtrip:
  "session_record_from_handle \<lparr>ih_spec = spec_of_record uuid now r, ih_state = st\<rparr> =
     Some (r\<lparr>sr_started_at_unix := now\<rparr>)"
  by (cases r) (simp add: session_record_from_handle_def spec_of_record_def Let_def instance_spec_new_def with_tag_def
      with_pid_def with_control_port_def with_id_def with_label_def with_scope_def with_parent_id_def
      split: option.split)

end
