(* ===== verification/PluginTypes.thy ===== *)
theory PluginTypes imports DapJson begin

text \<open>
  The data of \<open>dap-plugin-api/src\<close>: adapters, launch and initialize specs, plugin and target
  manifests (\<open>adapter.rs\<close>, \<open>launch.rs\<close>, \<open>manifest.rs\<close>, \<open>target.rs\<close>, \<open>error.rs\<close>), with the file
  system and the process environment they are resolved against as one parameter, and validation.
\<close>

section \<open>The host\<close>

text \<open>
  What the code asks the operating system: environment variables, canonical paths, what a path
  is, the text of a file (\<open>None\<close> when it cannot be read) and the entries of a directory.
\<close>

record host =
  h_env :: "string \<Rightarrow> string option"
  h_canonical :: "string \<Rightarrow> string option"
  h_is_file :: "string \<Rightarrow> bool"
  h_is_dir :: "string \<Rightarrow> bool"
  h_read :: "string \<Rightarrow> string option"
  h_read_dir :: "string \<Rightarrow> string list option"

section \<open>Paths\<close>

text \<open>
  \<open>Path::parent\<close> and \<open>Path::join\<close> on Unix paths. \<open>trim_tail\<close> is what \<open>Components\<close> drops at the
  end of a path: separators and \<open>.\<close> components after a separator.
\<close>

function trim_tail :: "string \<Rightarrow> string" where
  "trim_tail s =
     (if (s \<noteq> [] \<and> s \<noteq> ''/'' \<and> last s = CHR ''/'') \<or> suffix ''/.'' s then trim_tail (butlast s) else s)"
  by pat_completeness auto
termination
  by (relation "measure length") (auto simp: suffix_def)

declare trim_tail.simps [simp del]

definition path_parent :: "string \<Rightarrow> string option" where
  "path_parent s =
     (let t = trim_tail s in
      if t = [] \<or> t = ''/'' then None
      else case rsplit_once CHR ''/'' t of
        None \<Rightarrow> Some []
      | Some (a, b) \<Rightarrow> Some (if a = [] then ''/'' else trim_tail a))"

definition is_absolute :: "string \<Rightarrow> bool" where
  "is_absolute s \<longleftrightarrow> prefix ''/'' s"

definition path_join :: "string \<Rightarrow> string \<Rightarrow> string" where
  "path_join base rel =
     (if is_absolute rel \<or> base = [] then rel
      else if last base = CHR ''/'' then base @ rel
      else base @ ''/'' @ rel)"

definition path_extension :: "string \<Rightarrow> string option" where
  "path_extension s =
     (case file_name s of
        None \<Rightarrow> None
      | Some n \<Rightarrow> (case rsplit_once CHR ''.'' n of
                     Some (a, b) \<Rightarrow> if a = [] then None else Some b
                   | None \<Rightarrow> None))"

section \<open>Manifests\<close>

datatype plugin_error =
    InvalidManifest string
  | PluginIo string
  | PluginParse string

datatype spawn_transport = Stdio | Tcp | Builtin

record adapter_spawn =
  as_transport :: spawn_transport
  as_command :: string
  as_args :: "string list"

record initialize_spec =
  in_adapter_id :: "string option"
  in_defaults :: "json option"

record launch_spec =
  ls_request :: string
  ls_defaults :: "json option"
  ls_fields :: "json option"

record record_entry =
  re_path :: string
  re_line :: int

record init_step =
  st_request :: "string option"
  st_use_launch_arguments :: bool
  st_arguments :: "json option"
  st_wait_for_event :: "string option"
  st_wait_for_response :: "string option"
  st_record_entry :: "record_entry option"

record plugin_manifest =
  pm_id :: string
  pm_name :: string
  pm_version :: string
  pm_languages :: "string list"
  pm_launch_types :: "string list"
  pm_file_extensions :: "string list"
  pm_adapter :: adapter_spawn
  pm_initialize :: "initialize_spec option"
  pm_launch :: "launch_spec option"
  pm_init :: "init_step list option"
  pm_attachment :: "string option"
  pm_source_path :: "string option"

record target_connect =
  tc_host :: string
  tc_port :: nat

record target_spawn =
  ts_command :: string
  ts_args :: "string list"

record target_manifest =
  tm_id :: string
  tm_name :: string
  tm_version :: string
  tm_target_types :: "string list"
  tm_description :: "string option"
  tm_spawn :: "target_spawn option"
  tm_connect :: "target_connect option"
  tm_attach :: "json option"
  tm_init :: "init_step list option"
  tm_source_path :: "string option"

definition default_connect :: target_connect where
  "default_connect = \<lparr>tc_host = ''127.0.0.1'', tc_port = 1234\<rparr>"

section \<open>Validation\<close>

text \<open>YAML is the library's: \<open>yaml_ok\<close> says whether a text parses.\<close>

definition blank :: "string \<Rightarrow> bool" where
  "blank s \<longleftrightarrow> trim s = []"

definition validate_sidecar_reference ::
  "host \<Rightarrow> (string \<Rightarrow> bool) \<Rightarrow> string \<Rightarrow> string \<Rightarrow> string option \<Rightarrow> plugin_error + unit" where
  "validate_sidecar_reference h yaml_ok field relative source =
     (let t = trim relative in
      if t = [] then Inl (InvalidManifest (field @ '' must not be empty''))
      else if \<not> (ends_with t ''.yaml'' \<or> ends_with t ''.yml'')
        then Inl (InvalidManifest (field @ '' must point to a .yaml or .yml file''))
      else case source of
        None \<Rightarrow> Inr ()
      | Some sp \<Rightarrow>
          (case path_parent sp of
             None \<Rightarrow> Inl (InvalidManifest ''manifest has no parent directory'')
           | Some parent \<Rightarrow>
               let path = path_join parent t in
               if \<not> h_is_file h path then Inl (InvalidManifest (field @ '' file not found: '' @ path))
               else case h_read h path of
                 None \<Rightarrow> Inl (PluginIo path)
               | Some text \<Rightarrow> if yaml_ok text then Inr () else Inl (PluginParse path)))"

definition validate_plugin :: "host \<Rightarrow> (string \<Rightarrow> bool) \<Rightarrow> plugin_manifest \<Rightarrow> plugin_error + unit" where
  "validate_plugin h yaml_ok m =
     (if blank (pm_id m) then Inl (InvalidManifest ''id must not be empty'')
      else if blank (pm_name m) then Inl (InvalidManifest ''name must not be empty'')
      else if blank (pm_version m) then Inl (InvalidManifest ''version must not be empty'')
      else if blank (as_command (pm_adapter m)) then Inl (InvalidManifest ''adapter.command must not be empty'')
      else if pm_launch_types m = [] \<and> pm_file_extensions m = []
        then Inl (InvalidManifest ''at least one launchType or fileExtension is required'')
      else case pm_attachment m of
        Some a \<Rightarrow> validate_sidecar_reference h yaml_ok ''attachment'' a (pm_source_path m)
      | None \<Rightarrow> Inr ())"

definition validate_target :: "target_manifest \<Rightarrow> plugin_error + unit" where
  "validate_target m =
     (if blank (tm_id m) then Inl (InvalidManifest ''id must not be empty'')
      else if blank (tm_name m) then Inl (InvalidManifest ''name must not be empty'')
      else if blank (tm_version m) then Inl (InvalidManifest ''version must not be empty'')
      else if tm_target_types m = [] then Inl (InvalidManifest ''at least one targetType is required'')
      else case tm_spawn m of
        Some s \<Rightarrow> if blank (ts_command s) then Inl (InvalidManifest ''spawn.command must not be empty'') else Inr ()
      | None \<Rightarrow> Inr ())"

definition sidecar_path :: "host \<Rightarrow> string option \<Rightarrow> string option \<Rightarrow> string option" where
  "sidecar_path h relative source =
     (case (relative, Option.bind source path_parent) of
        (Some r, Some parent) \<Rightarrow>
          (case h_canonical h (path_join parent r) of
             Some p \<Rightarrow> Some p
           | None \<Rightarrow> Some (path_join parent r))
      | _ \<Rightarrow> None)"

definition attachment_path :: "host \<Rightarrow> plugin_manifest \<Rightarrow> string option" where
  "attachment_path h m = sidecar_path h (pm_attachment m) (pm_source_path m)"

lemma validate_plugin_ok:
  "validate_plugin h yaml_ok m = Inr () \<Longrightarrow>
     \<not> blank (pm_id m) \<and> \<not> blank (pm_name m) \<and> \<not> blank (pm_version m) \<and>
     \<not> blank (as_command (pm_adapter m)) \<and> (pm_launch_types m \<noteq> [] \<or> pm_file_extensions m \<noteq> [])"
  by (auto simp: validate_plugin_def split: if_splits)

lemma validate_target_ok:
  "validate_target m = Inr () \<Longrightarrow> \<not> blank (tm_id m) \<and> tm_target_types m \<noteq> []"
  by (auto simp: validate_target_def split: if_splits)

lemma path_join_absolute: "is_absolute r \<Longrightarrow> path_join b r = r"
  by (simp add: path_join_def)

end
