(* ===== verification/PluginTemplate.thy ===== *)
theory PluginTemplate imports PluginTypes begin

text \<open>
  The \<open>${...}\<close> placeholders of manifests (\<open>dap-plugin-api/src/template.rs\<close>): the context they
  are resolved in and the recursive resolution of a JSON value, where a placeholder without a
  value takes its member or element away.
\<close>

section \<open>The context\<close>

record template_ctx =
  tx_program :: string
  tx_program_abs :: "string option"
  tx_program_parent :: "string option"
  tx_plugin_id :: string

definition resolve_program_paths :: "host \<Rightarrow> string \<Rightarrow> string option \<times> string option" where
  "resolve_program_paths h path =
     (case h_canonical h path of
        Some p \<Rightarrow> (Some p, path_parent p)
      | None \<Rightarrow>
          let parent = (case path_parent path of Some q \<Rightarrow> if q = [] then None else Some q | None \<Rightarrow> None);
              cwd = Option.bind parent (h_canonical h)
          in ((case (cwd, file_name path) of
                 (Some c, Some f) \<Rightarrow> if is_absolute path then None else Some (path_join c f)
               | _ \<Rightarrow> None), cwd))"

definition template_context_new :: "host \<Rightarrow> string \<Rightarrow> string \<Rightarrow> template_ctx" where
  "template_context_new h program plugin_id =
     \<lparr>tx_program = program, tx_program_abs = fst (resolve_program_paths h program),
      tx_program_parent = snd (resolve_program_paths h program), tx_plugin_id = plugin_id\<rparr>"

definition program_or_abs :: "template_ctx \<Rightarrow> string" where
  "program_or_abs ctx = unwrap_or (tx_program_abs ctx) (tx_program ctx)"

section \<open>Resolution\<close>

definition placeholder :: "string \<Rightarrow> string option" where
  "placeholder text =
     (if starts_with text ''${'' \<and> ends_with text ''}''
      then Some (trim (take (length text - 3) (drop 2 text))) else None)"

definition resolve_token :: "host \<Rightarrow> template_ctx \<Rightarrow> string \<Rightarrow> string \<Rightarrow> string option" where
  "resolve_token h ctx text token =
     (if token = ''program'' then Some (tx_program ctx)
      else if token = ''program.abs'' then Some (program_or_abs ctx)
      else if token = ''program.parent'' \<or> token = ''cwd'' then tx_program_parent ctx
      else if token = ''plugin.id'' then Some (tx_plugin_id ctx)
      else if starts_with token ''env:'' then h_env h (drop 4 token)
      else Some text)"

definition resolve_string :: "host \<Rightarrow> template_ctx \<Rightarrow> string \<Rightarrow> string option" where
  "resolve_string h ctx text =
     (case placeholder text of
        None \<Rightarrow> Some text
      | Some token \<Rightarrow> resolve_token h ctx text token)"

fun resolve_value :: "host \<Rightarrow> template_ctx \<Rightarrow> json \<Rightarrow> json option"
  and resolve_members :: "host \<Rightarrow> template_ctx \<Rightarrow> jmap \<Rightarrow> jmap \<Rightarrow> jmap"
  and resolve_items :: "host \<Rightarrow> template_ctx \<Rightarrow> json list \<Rightarrow> json list" where
  "resolve_value h ctx (JString text) = map_option JString (resolve_string h ctx text)"
| "resolve_value h ctx (JObject m) = Some (JObject (resolve_members h ctx m []))"
| "resolve_value h ctx (JArray xs) = Some (JArray (resolve_items h ctx xs))"
| "resolve_value h ctx v = Some v"
| "resolve_members h ctx [] acc = acc"
| "resolve_members h ctx ((k, v) # m) acc =
     resolve_members h ctx m (case resolve_value h ctx v of Some r \<Rightarrow> obj_insert k r acc | None \<Rightarrow> acc)"
| "resolve_items h ctx [] = []"
| "resolve_items h ctx (v # vs) =
     (case resolve_value h ctx v of Some r \<Rightarrow> r # resolve_items h ctx vs | None \<Rightarrow> resolve_items h ctx vs)"

section \<open>What resolution keeps\<close>

lemma resolve_string_plain: "placeholder text = None \<Longrightarrow> resolve_string h ctx text = Some text"
  by (simp add: resolve_string_def)

lemma obj_ok_resolve_members: "obj_ok acc \<Longrightarrow> obj_ok (resolve_members h ctx m acc)"
  by (induction m arbitrary: acc) (auto simp: obj_ok_insert split: option.splits)

lemma resolve_members_get:
  "distinct (map fst m) \<Longrightarrow> obj_get (resolve_members h ctx m acc) k =
     (case obj_get m k of
        Some v \<Rightarrow> (case resolve_value h ctx v of Some r \<Rightarrow> Some r | None \<Rightarrow> obj_get acc k)
      | None \<Rightarrow> obj_get acc k)"
proof (induction m arbitrary: acc)
  case Nil
  show ?case by simp
next
  case (Cons p m)
  obtain j v where p: "p = (j, v)" by (cases p)
  have "obj_get m j = None" using Cons.prems by (auto simp: p map_of_eq_None_iff)
  then show ?case using Cons.IH Cons.prems by (auto simp: p split: option.splits)
qed

lemma resolve_items_filter: "resolve_items h ctx vs = List.map_filter (resolve_value h ctx) vs"
  by (induction vs) (auto simp: List.map_filter_def split: option.splits)

lemma resolve_object: "resolve_value h ctx (JObject m) = Some v \<Longrightarrow> \<exists>m'. v = JObject m' \<and> obj_ok m'"
  by (auto simp: obj_ok_resolve_members)

text \<open>A value without placeholders resolves to itself.\<close>

fun template_free :: "json \<Rightarrow> bool" where
  "template_free (JString s) = (placeholder s = None)"
| "template_free (JArray xs) = list_all template_free xs"
| "template_free (JObject m) = list_all (\<lambda>p. template_free (snd p)) m"
| "template_free v = True"

lemma resolve_template_free:
  "json_ok v \<Longrightarrow> template_free v \<Longrightarrow> resolve_value h ctx v = Some v"
proof (induction v)
  case (JArray xs)
  then have "\<forall>x \<in> set xs. resolve_value h ctx x = Some x" by (auto simp: list_all_iff)
  then show ?case by (simp add: resolve_items_filter map_filter_concat cong: map_cong)
next
  case (JObject m)
  have m: "obj_ok m" "\<forall>p \<in> set m. resolve_value h ctx (snd p) = Some (snd p)"
  proof -
    show "obj_ok m" using JObject.prems by simp
    show "\<forall>p \<in> set m. resolve_value h ctx (snd p) = Some (snd p)"
      using JObject.prems by (intro ballI JObject.IH) (auto simp: list_all_iff prod_set_defs snds.simps)
  qed
  have "resolve_members h ctx m [] = m"
  proof (rule obj_eqI)
    show "obj_get (resolve_members h ctx m []) = obj_get m"
      using m obj_ok_distinct [OF m(1)]
      by (force simp: fun_eq_iff resolve_members_get split: option.splits dest: map_of_SomeD)
  qed (use m in \<open>auto intro: obj_ok_resolve_members\<close>)
  then show ?case by simp
next
  case (JString s)
  then show ?case by (simp add: resolve_string_plain)
qed auto

end
