(* ===== verification/PluginLaunch.thy ===== *)
theory PluginLaunch imports PluginTemplate begin

text \<open>
  The requests a manifest describes: \<open>initialize\<close> and \<open>launch\<close> arguments of a plugin
  (\<open>dap-plugin-api/src/launch.rs\<close>) and the resolved form of a target with its \<open>attach\<close> arguments
  (\<open>target.rs\<close>).
\<close>

section \<open>Plugins\<close>

definition merge_object :: "host \<Rightarrow> template_ctx \<Rightarrow> json \<Rightarrow> json \<Rightarrow> json" where
  "merge_object h ctx target patch =
     (case (resolve_value h ctx patch, target) of
        (Some (JObject p), JObject t) \<Rightarrow> JObject (obj_insert_all t p)
      | _ \<Rightarrow> target)"

definition template_context :: "host \<Rightarrow> plugin_manifest \<Rightarrow> string \<Rightarrow> template_ctx" where
  "template_context h m program = template_context_new h program (pm_id m)"

definition merge_optional :: "host \<Rightarrow> template_ctx \<Rightarrow> json option \<Rightarrow> json \<Rightarrow> json" where
  "merge_optional h ctx patch target = (case patch of Some p \<Rightarrow> merge_object h ctx target p | None \<Rightarrow> target)"

definition build_initialize_arguments :: "host \<Rightarrow> plugin_manifest \<Rightarrow> string \<Rightarrow> string option \<Rightarrow> json" where
  "build_initialize_arguments h m client_id fallback =
     (let adapter_id = unwrap_or (or_else (Option.bind (pm_initialize m) in_adapter_id) fallback) (pm_id m);
          args = jobj [(''clientID'', JString client_id), (''adapterID'', JString adapter_id),
                       (''linesStartAt1'', JBool True), (''columnsStartAt1'', JBool True),
                       (''pathFormat'', JString ''path''), (''supportsRunInTerminalRequest'', JBool True)]
      in merge_optional h (template_context h m []) (Option.bind (pm_initialize m) in_defaults) args)"

definition build_launch_arguments :: "host \<Rightarrow> plugin_manifest \<Rightarrow> string \<Rightarrow> json" where
  "build_launch_arguments h m program =
     (let ctx = template_context h m program in
      case pm_launch m of
        None \<Rightarrow> jobj [(''program'', JString (program_or_abs ctx))]
      | Some l \<Rightarrow>
          let args = merge_optional h ctx (ls_fields l) (merge_optional h ctx (ls_defaults l) (jobj []))
          in if as_object args = Some [] then jobj [(''program'', JString (program_or_abs ctx))] else args)"

definition launch_request_name :: "plugin_manifest \<Rightarrow> string" where
  "launch_request_name m = (case pm_launch m of Some l \<Rightarrow> ls_request l | None \<Rightarrow> ''launch'')"

definition init_steps :: "plugin_manifest \<Rightarrow> init_step list" where
  "init_steps m = unwrap_or (pm_init m) []"

subsection \<open>Merging\<close>

text \<open>What a patch says about a member once it is resolved.\<close>

definition patched :: "host \<Rightarrow> template_ctx \<Rightarrow> json option \<Rightarrow> string \<Rightarrow> json option" where
  "patched h ctx patch k = Option.bind patch (\<lambda>p. Option.bind (resolve_value h ctx p) (\<lambda>r. jget r k))"

lemma resolved_object_ok: "resolve_value h ctx p = Some (JObject m) \<Longrightarrow> obj_ok m"
  by (cases p) (auto simp: obj_ok_resolve_members)

lemma map_of_rev_distinct: "distinct (map fst m) \<Longrightarrow> map_of (rev m) = map_of m"
  by (rule map_of_inject_set [THEN iffD2]) (auto simp: rev_map [symmetric])

lemma merge_optional_object:
  assumes "target = JObject t" and "obj_ok t"
  shows "\<exists>t'. merge_optional h ctx patch target = JObject t' \<and> obj_ok t' \<and>
    obj_get t' = (\<lambda>k. or_else (patched h ctx patch k) (obj_get t k))"
proof (cases patch)
  case None
  then show ?thesis using assms by (simp add: merge_optional_def patched_def)
next
  case (Some p)
  show ?thesis
  proof (cases "\<exists>r. resolve_value h ctx p = Some (JObject r)")
    case False
    then have "patched h ctx patch k = None" for k
      using Some False by (cases "resolve_value h ctx p") (auto simp: patched_def jget_def split: json.splits)
    moreover have "merge_optional h ctx patch target = target"
      using False Some by (auto simp: merge_optional_def merge_object_def split: option.splits json.splits)
    ultimately show ?thesis using assms by simp
  next
    case True
    then obtain r where r: "resolve_value h ctx p = Some (JObject r)" by blast
    then have "distinct (map fst r)" using resolved_object_ok obj_ok_distinct by blast
    with r Some assms show ?thesis
      by (auto simp: merge_optional_def merge_object_def patched_def obj_get_insert_all map_of_rev_distinct
          obj_ok_insert_all or_else_def fun_eq_iff split: option.split)
  qed
qed

lemma merge_two_objects:
  "\<exists>t. merge_optional h ctx f (merge_optional h ctx d (jobj [])) = JObject t \<and> obj_ok t \<and>
     obj_get t = (\<lambda>k. or_else (patched h ctx f k) (patched h ctx d k))"
proof -
  obtain a where a: "merge_optional h ctx d (jobj []) = JObject a" "obj_ok a"
    "obj_get a = (\<lambda>k. or_else (patched h ctx d k) (obj_get [] k))"
    using merge_optional_object [of "jobj []" "[]" h ctx d] by (auto simp: jobj_def obj_insert_all_def)
  have "obj_get a = patched h ctx d" using a(3) by simp
  with merge_optional_object [OF a(1,2), of h ctx f] show ?thesis by simp
qed

section \<open>Targets\<close>

record resolved_target =
  rt_id :: string
  rt_name :: string
  rt_description :: "string option"
  rt_spawn :: "target_spawn option"
  rt_host :: string
  rt_port :: nat
  rt_attach_fields :: json
  rt_init_steps :: "init_step list"

definition resolve_required_string ::
  "host \<Rightarrow> template_ctx \<Rightarrow> string \<Rightarrow> string \<Rightarrow> plugin_error + string" where
  "resolve_required_string h ctx template field =
     (case resolve_value h ctx (JString template) of
        None \<Rightarrow> Inl (InvalidManifest (''failed to resolve template for '' @ field))
      | Some v \<Rightarrow>
          (case as_str v of
             Some s \<Rightarrow> Inr s
           | None \<Rightarrow> Inl (InvalidManifest (field @ '' must resolve to a string''))))"

fun resolve_args :: "host \<Rightarrow> template_ctx \<Rightarrow> string list \<Rightarrow> plugin_error + string list" where
  "resolve_args h ctx [] = Inr []"
| "resolve_args h ctx (a # as) =
     (case resolve_required_string h ctx a ''spawn.args'' of
        Inl e \<Rightarrow> Inl e
      | Inr s \<Rightarrow> (case resolve_args h ctx as of Inl e \<Rightarrow> Inl e | Inr ss \<Rightarrow> Inr (s # ss)))"

definition resolve_spawn :: "host \<Rightarrow> template_ctx \<Rightarrow> target_spawn \<Rightarrow> plugin_error + target_spawn" where
  "resolve_spawn h ctx s =
     (case resolve_required_string h ctx (ts_command s) ''spawn.command'' of
        Inl e \<Rightarrow> Inl e
      | Inr c \<Rightarrow> (case resolve_args h ctx (ts_args s) of
                    Inl e \<Rightarrow> Inl e
                  | Inr as \<Rightarrow> Inr \<lparr>ts_command = c, ts_args = as\<rparr>))"

definition with_endpoint :: "string \<Rightarrow> nat \<Rightarrow> jmap \<Rightarrow> jmap" where
  "with_endpoint hst port m = obj_or_insert ''port'' (jint (int port)) (obj_or_insert ''host'' (JString hst) m)"

definition merge_attach_fields :: "host \<Rightarrow> template_ctx \<Rightarrow> json option \<Rightarrow> target_connect \<Rightarrow> json" where
  "merge_attach_fields h ctx attach c =
     (case merge_optional h ctx attach (jobj []) of
        JObject m \<Rightarrow> JObject (with_endpoint (tc_host c) (tc_port c) m)
      | v \<Rightarrow> v)"

definition resolve_target :: "host \<Rightarrow> target_manifest \<Rightarrow> string \<Rightarrow> plugin_error + resolved_target" where
  "resolve_target h m program =
     (let ctx = template_context_new h program (tm_id m);
          c = unwrap_or (tm_connect m) default_connect;
          spawned = (case tm_spawn m of
                       None \<Rightarrow> Inr None
                     | Some s \<Rightarrow> (case resolve_spawn h ctx s of Inl e \<Rightarrow> Inl e | Inr r \<Rightarrow> Inr (Some r)))
      in case spawned of
           Inl e \<Rightarrow> Inl e
         | Inr sp \<Rightarrow> Inr
             \<lparr>rt_id = tm_id m, rt_name = tm_name m, rt_description = tm_description m, rt_spawn = sp,
              rt_host = tc_host c, rt_port = tc_port c,
              rt_attach_fields = merge_attach_fields h ctx (tm_attach m) c,
              rt_init_steps = unwrap_or (tm_init m) []\<rparr>)"

definition attach_arguments :: "resolved_target \<Rightarrow> json" where
  "attach_arguments r =
     (case rt_attach_fields r of
        JObject m \<Rightarrow> JObject (with_endpoint (rt_host r) (rt_port r) m)
      | _ \<Rightarrow> jobj [(''host'', JString (rt_host r)), (''port'', jint (int (rt_port r)))])"

subsection \<open>Attach arguments\<close>

lemma with_endpoint_get:
  "obj_get (with_endpoint hst port m) k =
     (case obj_get m k of
        Some v \<Rightarrow> Some v
      | None \<Rightarrow> if k = ''port'' then Some (jint (int port)) else if k = ''host'' then Some (JString hst) else None)"
  by (auto simp: with_endpoint_def obj_get_or_insert split: option.splits)

lemma with_endpoint_idem:
  "with_endpoint h1 p1 (with_endpoint h2 p2 m) = with_endpoint h2 p2 m"
proof -
  have "obj_get (with_endpoint h2 p2 m) ''port'' \<noteq> None" "obj_get (with_endpoint h2 p2 m) ''host'' \<noteq> None"
    by (auto simp: with_endpoint_get split: option.splits)
  then show ?thesis unfolding with_endpoint_def [of h1 p1] by (auto simp: obj_or_insert_def)
qed

lemma merge_attach_object:
  "\<exists>m. merge_attach_fields h ctx attach c = JObject (with_endpoint (tc_host c) (tc_port c) m) \<and>
     obj_get m = patched h ctx attach"
proof -
  obtain t where t: "merge_optional h ctx attach (jobj []) = JObject t"
    "obj_get t = (\<lambda>k. or_else (patched h ctx attach k) (obj_get [] k))"
    using merge_optional_object [of "jobj []" "[]" h ctx attach] by (auto simp: jobj_def obj_insert_all_def)
  have "obj_get t = patched h ctx attach" using t(2) by simp
  then show ?thesis using t(1) by (intro exI [of _ t]) (simp add: merge_attach_fields_def)
qed

lemma resolve_required_string_cases:
  "resolve_required_string h ctx t f = Inr s \<longleftrightarrow> resolve_string h ctx t = Some s"
  by (auto simp: resolve_required_string_def split: option.splits)

lemma resolve_args_all:
  "resolve_args h ctx as = Inr ss \<longleftrightarrow> map (resolve_string h ctx) as = map Some ss"
proof (induction as arbitrary: ss)
  case (Cons a as)
  show ?case
  proof (cases "resolve_string h ctx a")
    case None
    then have "\<exists>e. resolve_required_string h ctx a ''spawn.args'' = Inl e"
      by (simp add: resolve_required_string_def)
    with None show ?thesis by auto
  next
    case (Some s)
    then have "resolve_required_string h ctx a ''spawn.args'' = Inr s"
      by (simp add: resolve_required_string_cases)
    with Some show ?thesis using Cons.IH [of "tl ss"] by (cases ss) (auto split: sum.splits)
  qed
qed auto

end
