(* ===== verification/PluginLoader.thy ===== *)
theory PluginLoader imports PluginLaunch begin

text \<open>
  Finding and loading manifests (\<open>dap-plugin-api/src/loader.rs\<close>). Deserializing YAML is the
  library's: \<open>parse\<close> turns a text into a manifest, \<open>keys\<close> into its top-level keys. A directory
  with several manifests of one id and the override of builtin by user entries go through
  the sorted map \<open>by_id\<close>, which interprets the registry contract.
\<close>

section \<open>Single files\<close>

definition load_from_file :: "host \<Rightarrow> (string \<Rightarrow> bool) \<Rightarrow> (string \<Rightarrow> plugin_manifest option) \<Rightarrow> string
    \<Rightarrow> plugin_error + plugin_manifest" where
  "load_from_file h yaml_ok parse path =
     (case h_read h path of
        None \<Rightarrow> Inl (PluginIo path)
      | Some text \<Rightarrow>
          (case parse text of
             None \<Rightarrow> Inl (PluginParse path)
           | Some m \<Rightarrow>
               let m' = m\<lparr>pm_source_path := Some path\<rparr>
               in (case validate_plugin h yaml_ok m' of Inl e \<Rightarrow> Inl e | Inr _ \<Rightarrow> Inr m')))"

definition target_from_yaml :: "(string \<Rightarrow> target_manifest option) \<Rightarrow> string \<Rightarrow> string \<Rightarrow> plugin_error + target_manifest" where
  "target_from_yaml parse text path =
     (case parse text of
        None \<Rightarrow> Inl (PluginParse path)
      | Some m \<Rightarrow>
          let m' = m\<lparr>tm_source_path := Some path\<rparr>
          in (case validate_target m' of Inl e \<Rightarrow> Inl e | Inr _ \<Rightarrow> Inr m'))"

definition load_target_from_file :: "host \<Rightarrow> (string \<Rightarrow> target_manifest option) \<Rightarrow> string
    \<Rightarrow> plugin_error + target_manifest" where
  "load_target_from_file h parse path =
     (case h_read h path of
        None \<Rightarrow> Inl (PluginIo path)
      | Some text \<Rightarrow> target_from_yaml parse text path)"

text \<open>An attachment is any YAML value.\<close>

definition load_attachment :: "host \<Rightarrow> (string \<Rightarrow> 'yaml option) \<Rightarrow> string \<Rightarrow> plugin_error + 'yaml" where
  "load_attachment h parse path =
     (case h_read h path of
        None \<Rightarrow> Inl (PluginIo path)
      | Some text \<Rightarrow> (case parse text of None \<Rightarrow> Inl (PluginParse path) | Some v \<Rightarrow> Inr v))"

definition plugin_manifest_names :: "string list" where
  "plugin_manifest_names = [''plugin.yaml'', ''plugin.yml'', ''manifest.yaml'', ''manifest.yml'']"

definition target_manifest_names :: "string list" where
  "target_manifest_names = [''target.yaml'', ''target.yml'', ''manifest.yaml'', ''manifest.yml'']"

definition manifest_in_plugin_dir :: "host \<Rightarrow> string \<Rightarrow> string option" where
  "manifest_in_plugin_dir h dir = find (h_is_file h) (map (path_join dir) plugin_manifest_names)"

definition target_manifest_in_dir :: "host \<Rightarrow> string \<Rightarrow> string option" where
  "target_manifest_in_dir h dir = find (h_is_file h) (map (path_join dir) target_manifest_names)"

definition yaml_extension :: "string \<Rightarrow> bool" where
  "yaml_extension path \<longleftrightarrow> path_extension path = Some ''yaml'' \<or> path_extension path = Some ''yml''"

definition is_plugin_manifest_file :: "host \<Rightarrow> (string \<Rightarrow> string list option) \<Rightarrow> string \<Rightarrow> bool" where
  "is_plugin_manifest_file h keys path \<longleftrightarrow> yaml_extension path \<and>
     (case Option.bind (h_read h path) keys of
        Some ks \<Rightarrow> ''adapter'' \<in> set ks \<and> ''id'' \<in> set ks
      | None \<Rightarrow> False)"

definition is_target_manifest_file :: "host \<Rightarrow> (string \<Rightarrow> string list option) \<Rightarrow> string \<Rightarrow> bool" where
  "is_target_manifest_file h keys path \<longleftrightarrow> yaml_extension path \<and>
     (case Option.bind (h_read h path) keys of
        Some ks \<Rightarrow> ''targetTypes'' \<in> set ks \<and> ''id'' \<in> set ks \<and> ''adapter'' \<notin> set ks
      | None \<Rightarrow> False)"

section \<open>Directories\<close>

text \<open>
  The loop both directory loaders share: a subdirectory contributes its manifest if it has one, a
  file if it looks like a manifest; the first failure to load is the result.
\<close>

definition manifest_path :: "host \<Rightarrow> (string \<Rightarrow> string option) \<Rightarrow> (string \<Rightarrow> bool) \<Rightarrow> string \<Rightarrow> string option" where
  "manifest_path h in_dir is_manifest path =
     (if h_is_dir h path then in_dir path else if is_manifest path then Some path else None)"

fun load_entries :: "(string \<Rightarrow> string option) \<Rightarrow> (string \<Rightarrow> plugin_error + 'm) \<Rightarrow> string list
    \<Rightarrow> plugin_error + 'm list" where
  "load_entries path_of load [] = Inr []"
| "load_entries path_of load (e # es) =
     (case path_of e of
        None \<Rightarrow> load_entries path_of load es
      | Some p \<Rightarrow>
          (case load p of
             Inl err \<Rightarrow> Inl err
           | Inr m \<Rightarrow> (case load_entries path_of load es of Inl err \<Rightarrow> Inl err | Inr ms \<Rightarrow> Inr (m # ms))))"

definition load_dir :: "host \<Rightarrow> (string \<Rightarrow> string option) \<Rightarrow> (string \<Rightarrow> plugin_error + 'm) \<Rightarrow> ('m \<Rightarrow> string) \<Rightarrow> string
    \<Rightarrow> plugin_error + 'm list" where
  "load_dir h path_of load key dir =
     (if \<not> h_is_dir h dir then Inr []
      else case h_read_dir h dir of
        None \<Rightarrow> Inl (PluginIo dir)
      | Some entries \<Rightarrow>
          (case load_entries path_of load entries of Inl e \<Rightarrow> Inl e | Inr ms \<Rightarrow> Inr (sort_key key ms)))"

definition load_from_dir :: "host \<Rightarrow> (string \<Rightarrow> bool) \<Rightarrow> (string \<Rightarrow> string list option)
    \<Rightarrow> (string \<Rightarrow> plugin_manifest option) \<Rightarrow> string \<Rightarrow> plugin_error + plugin_manifest list" where
  "load_from_dir h yaml_ok keys parse dir =
     load_dir h (manifest_path h (manifest_in_plugin_dir h) (is_plugin_manifest_file h keys))
       (load_from_file h yaml_ok parse) pm_id dir"

definition load_targets_from_dir :: "host \<Rightarrow> (string \<Rightarrow> string list option)
    \<Rightarrow> (string \<Rightarrow> target_manifest option) \<Rightarrow> string \<Rightarrow> plugin_error + target_manifest list" where
  "load_targets_from_dir h keys parse dir =
     load_dir h (manifest_path h (target_manifest_in_dir h) (is_target_manifest_file h keys))
       (load_target_from_file h parse) tm_id dir"

section \<open>Default directories\<close>

text \<open>\<open>crate_dir\<close> is the compile-time \<open>CARGO_MANIFEST_DIR\<close>.\<close>

definition default_builtin_dir :: "host \<Rightarrow> string \<Rightarrow> string" where
  "default_builtin_dir h crate_dir =
     (case h_env h ''DAP_PLUGINS_DIR'' of
        Some dir \<Rightarrow> dir
      | None \<Rightarrow>
          (case find (h_is_dir h) [path_join crate_dir ''../../tests/fixtures/plugins/builtin'',
                                   path_join crate_dir ''../../../dap-plugins/builtin''] of
             Some dir \<Rightarrow> dir
           | None \<Rightarrow> path_join crate_dir ''../../tests/fixtures/plugins/builtin''))"

definition user_config_dir :: "host \<Rightarrow> string \<Rightarrow> string option" where
  "user_config_dir h sub =
     map_option (\<lambda>base. path_join base sub)
       (or_else (h_env h ''XDG_CONFIG_HOME'') (map_option (\<lambda>home. path_join home ''.config'') (h_env h ''HOME'')))"

definition user_plugins_dir :: "host \<Rightarrow> string option" where
  "user_plugins_dir h = user_config_dir h ''dap/plugins''"

definition user_targets_dir :: "host \<Rightarrow> string option" where
  "user_targets_dir h = user_config_dir h ''dap/targets''"

text \<open>\<open>BTreeMap\<close> keyed by the id: insertion into the list of its values in key order.\<close>

fun by_id_insert :: "('m \<Rightarrow> string) \<Rightarrow> 'm \<Rightarrow> 'm list \<Rightarrow> 'm list" where
  "by_id_insert key m [] = [m]"
| "by_id_insert key m (x # xs) =
     (if key m = key x then m # xs
      else if key m < key x then m # x # xs
      else x # by_id_insert key m xs)"

definition overlay :: "('m \<Rightarrow> string) \<Rightarrow> (string \<Rightarrow> plugin_error + 'm list) \<Rightarrow> string \<Rightarrow> string option
    \<Rightarrow> plugin_error + 'm list" where
  "overlay key load builtin user =
     (case load builtin of
        Inl e \<Rightarrow> Inl e
      | Inr ms \<Rightarrow>
          let acc = foldl (\<lambda>r m. by_id_insert key m r) [] ms
          in (case user of
                None \<Rightarrow> Inr acc
              | Some dir \<Rightarrow> (case load dir of Inl e \<Rightarrow> Inl e | Inr us \<Rightarrow> Inr (foldl (\<lambda>r m. by_id_insert key m r) acc us))))"

definition load_defaults :: "host \<Rightarrow> (string \<Rightarrow> bool) \<Rightarrow> (string \<Rightarrow> string list option)
    \<Rightarrow> (string \<Rightarrow> plugin_manifest option) \<Rightarrow> string \<Rightarrow> plugin_error + plugin_manifest list" where
  "load_defaults h yaml_ok keys parse crate_dir =
     overlay pm_id (load_from_dir h yaml_ok keys parse) (default_builtin_dir h crate_dir) (user_plugins_dir h)"

definition load_target_defaults :: "host \<Rightarrow> (string \<Rightarrow> string list option)
    \<Rightarrow> (string \<Rightarrow> target_manifest option) \<Rightarrow> string \<Rightarrow> plugin_error + target_manifest list" where
  "load_target_defaults h keys parse crate_dir =
     overlay tm_id (load_targets_from_dir h keys parse) (default_builtin_dir h crate_dir) (user_targets_dir h)"

section \<open>The sorted map as a registry\<close>

definition by_id_ok :: "('m \<Rightarrow> string) \<Rightarrow> 'm list \<Rightarrow> bool" where
  "by_id_ok key xs \<longleftrightarrow> sorted_wrt (<) (map key xs)"

lemma by_id_insert_set:
  "by_id_ok key xs \<Longrightarrow> set (by_id_insert key m xs) = insert m {x \<in> set xs. key x \<noteq> key m}"
proof (induction xs)
  case Nil
  show ?case by simp
next
  case (Cons x xs)
  then have gt: "\<forall>y \<in> set xs. key x < key y" and IH: "by_id_ok key xs" by (auto simp: by_id_ok_def)
  consider "key m = key x" | "key m < key x" | "key x < key m" by (metis linorder_less_linear)
  then show ?case
  proof cases
    case 1
    then have "\<forall>y \<in> set xs. key y \<noteq> key m" using gt by force
    then show ?thesis using 1 by auto
  next
    case 2
    have "by_id_insert key m (x # xs) = m # x # xs"
      using 2 by (simp add: order_less_imp_not_eq)
    moreover have "key x \<noteq> key m" using 2 by (rule less_imp_neq [THEN not_sym])
    moreover have "key y \<noteq> key m" if "y \<in> set xs" for y
    proof -
      have "key m < key y" using 2 gt that by (blast intro: order_less_trans)
      then show ?thesis by (rule less_imp_neq [THEN not_sym])
    qed
    ultimately show ?thesis by auto
  next
    case 3
    then have "by_id_insert key m (x # xs) = x # by_id_insert key m xs"
      by (simp add: less_imp_neq [THEN not_sym] order_less_not_sym)
    moreover have "key x \<noteq> key m" using 3 by (rule less_imp_neq)
    ultimately show ?thesis using Cons.IH [OF IH] by auto
  qed
qed

lemma by_id_insert_ok:
  "by_id_ok key xs \<Longrightarrow> by_id_ok key (by_id_insert key m xs)"
proof (induction xs)
  case Nil
  show ?case by (simp add: by_id_ok_def)
next
  case (Cons x xs)
  then have gt: "\<forall>y \<in> set xs. key x < key y" and ok: "by_id_ok key xs" by (auto simp: by_id_ok_def)
  have "\<forall>y \<in> set (by_id_insert key m xs). key y = key m \<or> y \<in> set xs"
    using by_id_insert_set [OF ok, of m] by auto
  with Cons.IH [OF ok] Cons.prems gt show ?case
    by (auto simp: by_id_ok_def not_less dest: less_trans)
qed

text \<open>The last entry inserted under an id is the one found, for every kind of manifest.\<close>

interpretation by_id: upsert_registry "\<lambda>r. r" key "\<lambda>r k. find (\<lambda>m. key m = k) r"
  "\<lambda>r m. by_id_insert key m r" "by_id_ok key" for key :: "'m \<Rightarrow> string"
  by unfold_locales
    (auto simp: by_id_insert_set by_id_insert_ok, simp add: by_id_ok_def strict_sorted_iff)

lemma load_entries_loaded:
  "load_entries path_of load es = Inr ms \<Longrightarrow> m \<in> set ms \<Longrightarrow> \<exists>p. load p = Inr m"
  by (induction es arbitrary: ms) (auto split: option.splits sum.splits)

lemma load_dir_loaded:
  assumes "load_dir h path_of load key dir = Inr ms" and "m \<in> set ms"
  shows "\<exists>p. load p = Inr m"
  using assms by (auto simp: load_dir_def split: if_splits option.splits sum.splits intro: load_entries_loaded)

lemma load_from_file_valid:
  "load_from_file h yaml_ok parse p = Inr m \<Longrightarrow>
     validate_plugin h yaml_ok m = Inr () \<and> pm_source_path m = Some p"
  by (auto simp: load_from_file_def Let_def split: option.splits sum.splits)

lemma load_target_from_file_valid:
  "load_target_from_file h parse p = Inr m \<Longrightarrow> validate_target m = Inr () \<and> tm_source_path m = Some p"
  by (auto simp: load_target_from_file_def target_from_yaml_def Let_def split: option.splits sum.splits)

end
