(* ===== verification/GatewayRoute.thy ===== *)
theory GatewayRoute imports DapText begin

text \<open>
  The protocol-agnostic router of \<open>protocol-gateway/src\<close>: spawn specs, routing contexts, the
  static plugin, the registry that refuses a second plugin of an id, and resolution by explicit
  id, then by the first plugin that matches, then by the default.
\<close>

section \<open>Specs, contexts and plugins\<close>

datatype spawn_spec =
    SpawnStdio string "string list"
  | SpawnTcp string nat
  | SpawnBuiltin string

datatype gw_transport = GwStdio | GwTcp | GwBuiltin

definition stdio_spec :: "string \<Rightarrow> string list \<Rightarrow> spawn_spec" where
  "stdio_spec cmd args = SpawnStdio cmd args"

fun spawn_transport_of :: "spawn_spec \<Rightarrow> gw_transport" where
  "spawn_transport_of (SpawnStdio _ _) = GwStdio"
| "spawn_transport_of (SpawnTcp _ _) = GwTcp"
| "spawn_transport_of (SpawnBuiltin _) = GwBuiltin"

record route_context =
  rc_explicit_plugin :: "string option"
  rc_launch_type :: "string option"
  rc_program_path :: "string option"
  rc_scope :: "string option"

definition route_context_new :: route_context where
  "route_context_new = \<lparr>rc_explicit_plugin = None, rc_launch_type = None, rc_program_path = None, rc_scope = None\<rparr>"

definition with_explicit_plugin :: "string \<Rightarrow> route_context \<Rightarrow> route_context" where
  "with_explicit_plugin i c = c\<lparr>rc_explicit_plugin := Some i\<rparr>"

definition with_launch_type :: "string \<Rightarrow> route_context \<Rightarrow> route_context" where
  "with_launch_type t c = c\<lparr>rc_launch_type := Some t\<rparr>"

definition with_program_path :: "string \<Rightarrow> route_context \<Rightarrow> route_context" where
  "with_program_path p c = c\<lparr>rc_program_path := Some p\<rparr>"

record static_plugin =
  sp_id :: string
  sp_name :: string
  sp_launch_types :: "string list"
  sp_file_extensions :: "string list"
  sp_spawn :: spawn_spec

text \<open>\<open>rsplit('.').next()\<close>: what follows the last dot, or the whole text.\<close>

definition after_last_dot :: "string \<Rightarrow> string" where
  "after_last_dot s = (case rsplit_once CHR ''.'' s of Some (_, b) \<Rightarrow> b | None \<Rightarrow> s)"

definition matches_launch_type :: "static_plugin \<Rightarrow> route_context \<Rightarrow> bool" where
  "matches_launch_type p c \<longleftrightarrow> (case rc_launch_type c of Some t \<Rightarrow> t \<in> set (sp_launch_types p) | None \<Rightarrow> False)"

definition matches_extension :: "static_plugin \<Rightarrow> route_context \<Rightarrow> bool" where
  "matches_extension p c \<longleftrightarrow>
     (case rc_program_path c of Some path \<Rightarrow> after_last_dot path \<in> set (sp_file_extensions p) | None \<Rightarrow> False)"

definition plugin_matches :: "static_plugin \<Rightarrow> route_context \<Rightarrow> bool" where
  "plugin_matches p c =
     (case rc_explicit_plugin c of
        Some e \<Rightarrow> e = sp_id p
      | None \<Rightarrow> matches_launch_type p c \<or> matches_extension p c)"

section \<open>The registry\<close>

datatype gateway_error = PluginNotFound string | NoRoute | DuplicatePlugin string | GwOther string

record gw_registry =
  gr_plugins :: "static_plugin list"
  gr_default :: "string option"

definition gw_new :: gw_registry where
  "gw_new = \<lparr>gr_plugins = [], gr_default = None\<rparr>"

definition gw_len :: "gw_registry \<Rightarrow> nat" where
  "gw_len r = length (gr_plugins r)"

definition gw_is_empty :: "gw_registry \<Rightarrow> bool" where
  "gw_is_empty r \<longleftrightarrow> gr_plugins r = []"

definition gw_register :: "static_plugin \<Rightarrow> gw_registry \<Rightarrow> (gateway_error + unit) \<times> gw_registry" where
  "gw_register p r =
     (if list_ex (\<lambda>q. sp_id q = sp_id p) (gr_plugins r) then (Inl (DuplicatePlugin (sp_id p)), r)
      else (Inr (), r\<lparr>gr_plugins := gr_plugins r @ [p]\<rparr>))"

definition gw_set_default :: "string \<Rightarrow> gw_registry \<Rightarrow> gw_registry" where
  "gw_set_default i r = r\<lparr>gr_default := Some i\<rparr>"

definition gw_get :: "gw_registry \<Rightarrow> string \<Rightarrow> static_plugin option" where
  "gw_get r i = find (\<lambda>p. sp_id p = i) (gr_plugins r)"

definition gw_list_ids :: "gw_registry \<Rightarrow> string list" where
  "gw_list_ids r = map sp_id (gr_plugins r)"

interpretation gwr: registry gr_plugins sp_id gw_get
  by unfold_locales (simp add: gw_get_def)

lemma gw_register_keyed: "gwr.well_keyed r \<Longrightarrow> gwr.well_keyed (snd (gw_register p r))"
  by (auto simp: gwr.well_keyed_def gw_register_def list_ex_iff)

interpretation gwm: guarded_machine gw_new "\<lambda>r p. snd (gw_register p r)" "\<lambda>_ _. True" gwr.well_keyed
  by unfold_locales (auto simp: gwr.well_keyed_def gw_new_def gw_register_keyed [unfolded gwr.well_keyed_def])

lemma gw_register_get:
  "gw_get (snd (gw_register p r)) i =
     (if i = sp_id p \<and> gw_get r i = None then Some p else gw_get r i)"
proof (cases "gw_get r (sp_id p)")
  case None
  then have "snd (gw_register p r) = r\<lparr>gr_plugins := gr_plugins r @ [p]\<rparr>"
    by (auto simp: gw_register_def gw_get_def list_ex_iff find_None_iff)
  then show ?thesis using None by (auto simp: gw_get_def find_append split: option.split)
next
  case (Some q)
  then have "snd (gw_register p r) = r"
    by (auto simp: gw_register_def gw_get_def list_ex_iff dest: find_mem)
  then show ?thesis using Some by auto
qed

section \<open>Resolution\<close>

definition router_resolve :: "gw_registry \<Rightarrow> route_context \<Rightarrow> gateway_error + string" where
  "router_resolve r c =
     (case rc_explicit_plugin c of
        Some i \<Rightarrow> if gw_get r i \<noteq> None then Inr i else Inl (PluginNotFound i)
      | None \<Rightarrow>
          (case find (\<lambda>p. plugin_matches p c) (gr_plugins r) of
             Some p \<Rightarrow> Inr (sp_id p)
           | None \<Rightarrow>
               (case gr_default r of
                  Some d \<Rightarrow> if gw_get r d \<noteq> None then Inr d else Inl NoRoute
                | None \<Rightarrow> Inl NoRoute)))"

lemma resolve_registered: "router_resolve r c = Inr i \<Longrightarrow> \<exists>p. gw_get r i = Some p"
proof (cases "rc_explicit_plugin c")
  case None
  assume r: "router_resolve r c = Inr i"
  show ?thesis
  proof (cases "find (\<lambda>p. plugin_matches p c) (gr_plugins r)")
    case None': None
    then show ?thesis using r None by (auto simp: router_resolve_def split: option.splits if_splits)
  next
    case (Some p)
    then have "sp_id p = i" "p \<in> set (gr_plugins r)"
      using r None by (auto simp: router_resolve_def dest: find_mem)
    then show ?thesis using gwr.lookup_none [of r i] by (cases "gw_get r i") auto
  qed
qed (auto simp: router_resolve_def split: if_splits)

text \<open>
  The pass over the plugins is one: an earlier plugin that knows the file's extension wins over a
  later one that knows the launch type.
\<close>

lemma resolve_first_match:
  assumes "rc_explicit_plugin c = None" and "gr_plugins r = us @ p # vs"
    and "\<forall>u \<in> set us. \<not> plugin_matches u c" and "plugin_matches p c"
  shows "router_resolve r c = Inr (sp_id p)"
  using assms by (simp add: router_resolve_def find_split)

end
