(* ===== verification/CoreRegistry.thy ===== *)
theory CoreRegistry imports PluginLoader GatewayRoute begin

text \<open>
  The manifest registries of \<open>dap-core/src\<close> (\<open>registry.rs\<close>, \<open>target_registry.rs\<close>) and the routing of
  a launch request through the gateway (\<open>gateway.rs\<close>, \<open>router.rs\<close>, \<open>rust_routing.rs\<close>). Both
  registries interpret the same contract: registering an id again replaces its entry.
\<close>

section \<open>Registries\<close>

type_synonym plugin_registry = "plugin_manifest list"
type_synonym target_registry = "target_manifest list"

definition register_plugin :: "plugin_manifest \<Rightarrow> plugin_registry \<Rightarrow> plugin_registry" where
  "register_plugin m r = filter (\<lambda>p. pm_id p \<noteq> pm_id m) r @ [m]"

definition plugin_get :: "plugin_registry \<Rightarrow> string \<Rightarrow> plugin_manifest option" where
  "plugin_get r i = find (\<lambda>p. pm_id p = i) r"

definition find_by_launch_type :: "plugin_registry \<Rightarrow> string \<Rightarrow> plugin_manifest option" where
  "find_by_launch_type r t = find (\<lambda>p. t \<in> set (pm_launch_types p)) r"

definition find_by_extension :: "plugin_registry \<Rightarrow> string \<Rightarrow> plugin_manifest option" where
  "find_by_extension r e = find (\<lambda>p. trim_start_char CHR ''.'' e \<in> set (pm_file_extensions p)) r"

fun register_target :: "target_manifest \<Rightarrow> target_registry \<Rightarrow> target_registry" where
  "register_target m [] = [m]"
| "register_target m (t # ts) = (if tm_id t = tm_id m then m # ts else t # register_target m ts)"

definition target_get :: "target_registry \<Rightarrow> string \<Rightarrow> target_manifest option" where
  "target_get r i = find (\<lambda>m. tm_id m = i) r"

definition register_all :: "('m \<Rightarrow> 'r \<Rightarrow> 'r) \<Rightarrow> plugin_error + 'm list \<Rightarrow> 'r \<Rightarrow> plugin_error + 'r" where
  "register_all put ms r = (case ms of Inl e \<Rightarrow> Inl e | Inr xs \<Rightarrow> Inr (foldl (\<lambda>r m. put m r) r xs))"

definition registry_load_from_dir :: "host \<Rightarrow> (string \<Rightarrow> bool) \<Rightarrow> (string \<Rightarrow> string list option)
    \<Rightarrow> (string \<Rightarrow> plugin_manifest option) \<Rightarrow> string \<Rightarrow> plugin_registry \<Rightarrow> plugin_error + plugin_registry" where
  "registry_load_from_dir h yaml_ok keys parse dir r =
     register_all register_plugin (load_from_dir h yaml_ok keys parse dir) r"

definition registry_load_defaults :: "host \<Rightarrow> (string \<Rightarrow> bool) \<Rightarrow> (string \<Rightarrow> string list option)
    \<Rightarrow> (string \<Rightarrow> plugin_manifest option) \<Rightarrow> string \<Rightarrow> plugin_registry \<Rightarrow> plugin_error + plugin_registry" where
  "registry_load_defaults h yaml_ok keys parse crate_dir r =
     register_all register_plugin (load_defaults h yaml_ok keys parse crate_dir) r"

definition registry_load_builtin :: "host \<Rightarrow> (string \<Rightarrow> bool) \<Rightarrow> (string \<Rightarrow> string list option)
    \<Rightarrow> (string \<Rightarrow> plugin_manifest option) \<Rightarrow> string \<Rightarrow> plugin_registry \<Rightarrow> plugin_error + plugin_registry" where
  "registry_load_builtin h yaml_ok keys parse crate_dir r =
     registry_load_from_dir h yaml_ok keys parse (default_builtin_dir h crate_dir) r"

definition targets_load_builtin :: "host \<Rightarrow> (string \<Rightarrow> string list option)
    \<Rightarrow> (string \<Rightarrow> target_manifest option) \<Rightarrow> string \<Rightarrow> target_registry \<Rightarrow> plugin_error + target_registry" where
  "targets_load_builtin h keys parse crate_dir r =
     register_all register_target (load_target_defaults h keys parse crate_dir) r"

definition targets_load_from_dir :: "host \<Rightarrow> (string \<Rightarrow> string list option)
    \<Rightarrow> (string \<Rightarrow> target_manifest option) \<Rightarrow> string \<Rightarrow> target_registry \<Rightarrow> plugin_error + target_registry" where
  "targets_load_from_dir h keys parse dir r =
     register_all register_target (load_targets_from_dir h keys parse dir) r"

subsection \<open>The contract\<close>

lemma register_target_set:
  "distinct (map tm_id r) \<Longrightarrow> set (register_target m r) = insert m {t \<in> set r. tm_id t \<noteq> tm_id m}"
  by (induction r) (auto simp: image_iff)

lemma register_target_ids:
  "map tm_id (register_target m r) = (if tm_id m \<in> tm_id ` set r then map tm_id r else map tm_id r @ [tm_id m])"
  by (induction r) auto

interpretation pr: upsert_registry "\<lambda>r. r" pm_id plugin_get "\<lambda>r m. register_plugin m r" "\<lambda>r. distinct (map pm_id r)"
  by unfold_locales (auto simp: plugin_get_def register_plugin_def distinct_map_filter)

interpretation tr: upsert_registry "\<lambda>r. r" tm_id target_get "\<lambda>r m. register_target m r" "\<lambda>r. distinct (map tm_id r)"
  by unfold_locales (auto simp: target_get_def register_target_set register_target_ids)

section \<open>Launch requests\<close>

record launch_options =
  lo_request :: string
  lo_program :: "string option"
  lo_adapter :: "string option"
  lo_extra :: json

definition looks_like_cargo_binary :: "string \<Rightarrow> bool" where
  "looks_like_cargo_binary path \<longleftrightarrow>
     (let n = replace_char CHR 0x5C CHR ''/'' path in
      str_contains n ''/target/debug/'' \<or> str_contains n ''/target/release/'' \<or>
      starts_with n ''target/debug/'' \<or> starts_with n ''target/release/'')"

definition is_rust_adapter :: "string option \<Rightarrow> bool" where
  "is_rust_adapter i \<longleftrightarrow> i = Some ''rust'' \<or> i = Some ''lldb-dap''"

text \<open>\<open>split_once(':')\<close> on a TCP command; a command without a port that parses gets port 0.\<close>

definition adapter_to_spawn_spec :: "adapter_spawn \<Rightarrow> spawn_spec" where
  "adapter_to_spawn_spec a =
     (case as_transport a of
        Stdio \<Rightarrow> SpawnStdio (as_command a) (as_args a)
      | Tcp \<Rightarrow>
          (case Option.bind (split_once CHR '':'' (as_command a))
                  (\<lambda>(hst, p). map_option (\<lambda>port. (hst, port)) (parse_u16 p)) of
             Some (hst, port) \<Rightarrow> SpawnTcp hst port
           | None \<Rightarrow> SpawnTcp (as_command a) 0)
      | Builtin \<Rightarrow> SpawnBuiltin (as_command a))"

fun spawn_spec_to_adapter :: "spawn_spec \<Rightarrow> adapter_spawn" where
  "spawn_spec_to_adapter (SpawnStdio c as) = \<lparr>as_transport = Stdio, as_command = c, as_args = as\<rparr>"
| "spawn_spec_to_adapter (SpawnTcp hst port) =
     \<lparr>as_transport = Tcp, as_command = hst @ '':'' @ show_nat port, as_args = []\<rparr>"
| "spawn_spec_to_adapter (SpawnBuiltin i) = \<lparr>as_transport = Builtin, as_command = i, as_args = []\<rparr>"

definition manifest_to_static_plugin :: "plugin_manifest \<Rightarrow> static_plugin" where
  "manifest_to_static_plugin m =
     \<lparr>sp_id = pm_id m, sp_name = pm_name m, sp_launch_types = pm_launch_types m,
      sp_file_extensions = pm_file_extensions m, sp_spawn = adapter_to_spawn_spec (pm_adapter m)\<rparr>"

definition build_gateway_registry :: "plugin_registry \<Rightarrow> gw_registry" where
  "build_gateway_registry r =
     (let gw = foldl (\<lambda>g m. snd (gw_register (manifest_to_static_plugin m) g)) gw_new r
      in if gw_get gw ''fake'' \<noteq> None then gw_set_default ''fake'' gw else gw)"

definition launch_to_route_context :: "launch_options \<Rightarrow> route_context" where
  "launch_to_route_context l =
     (let ctx = route_context_new;
          ctx = (case lo_adapter l of Some a \<Rightarrow> with_explicit_plugin a ctx | None \<Rightarrow> ctx);
          ctx = (case lo_program l of
                   Some p \<Rightarrow>
                     let ctx = with_program_path p ctx
                     in if lo_adapter l = None \<and> get_str (lo_extra l) ''type'' = None \<and> looks_like_cargo_binary p
                        then with_launch_type ''rust'' ctx else ctx
                 | None \<Rightarrow> ctx)
      in case get_str (lo_extra l) ''type'' of Some t \<Rightarrow> with_launch_type t ctx | None \<Rightarrow> ctx)"

definition resolve_route :: "plugin_registry \<Rightarrow> launch_options \<Rightarrow> gateway_error + (string \<times> plugin_manifest)" where
  "resolve_route r l =
     (case router_resolve (build_gateway_registry r) (launch_to_route_context l) of
        Inl e \<Rightarrow> Inl e
      | Inr i \<Rightarrow> (case plugin_get r i of Some m \<Rightarrow> Inr (i, m) | None \<Rightarrow> Inl (PluginNotFound i)))"

definition router_route :: "plugin_registry \<Rightarrow> launch_options \<Rightarrow> (string \<times> plugin_manifest) option" where
  "router_route r l = (case resolve_route r l of Inr x \<Rightarrow> Some x | Inl _ \<Rightarrow> None)"

subsection \<open>The gateway registry of a manifest registry\<close>

lemma manifest_plugin_fields [simp]:
  "sp_id (manifest_to_static_plugin m) = pm_id m"
  "sp_launch_types (manifest_to_static_plugin m) = pm_launch_types m"
  "sp_file_extensions (manifest_to_static_plugin m) = pm_file_extensions m"
  by (simp_all add: manifest_to_static_plugin_def)

lemma gw_register_fresh:
  "sp_id p \<notin> sp_id ` set (gr_plugins g) \<Longrightarrow> snd (gw_register p g) = g\<lparr>gr_plugins := gr_plugins g @ [p]\<rparr>"
proof -
  assume "sp_id p \<notin> sp_id ` set (gr_plugins g)"
  then have "\<not> list_ex (\<lambda>q. sp_id q = sp_id p) (gr_plugins g)" unfolding list_ex_iff by (metis imageI)
  then show ?thesis by (simp add: gw_register_def)
qed

lemma gw_fold_plugins:
  assumes "distinct (map sp_id (gr_plugins g) @ map pm_id r)"
  shows "foldl (\<lambda>g m. snd (gw_register (manifest_to_static_plugin m) g)) g r =
    g\<lparr>gr_plugins := gr_plugins g @ map manifest_to_static_plugin r\<rparr>"
  using assms
proof (induction r arbitrary: g)
  case (Cons m r)
  have "snd (gw_register (manifest_to_static_plugin m) g) =
      g\<lparr>gr_plugins := gr_plugins g @ [manifest_to_static_plugin m]\<rparr>"
    using Cons.prems by (intro gw_register_fresh) auto
  moreover have "distinct (map sp_id (gr_plugins (g\<lparr>gr_plugins := gr_plugins g @ [manifest_to_static_plugin m]\<rparr>)) @ map pm_id r)"
    using Cons.prems by auto
  ultimately show ?case by (simp add: Cons.IH)
qed simp

lemma find_static: "find (\<lambda>p. sp_id p = i) (map manifest_to_static_plugin r) =
    map_option manifest_to_static_plugin (plugin_get r i)"
  by (induction r) (auto simp: plugin_get_def)

lemma gateway_plugins:
  assumes "distinct (map pm_id r)"
  shows "gr_plugins (build_gateway_registry r) = map manifest_to_static_plugin r"
    and "gw_get (build_gateway_registry r) i = map_option manifest_to_static_plugin (plugin_get r i)"
    and "gr_default (build_gateway_registry r) = (if plugin_get r ''fake'' \<noteq> None then Some ''fake'' else None)"
proof -
  have f: "foldl (\<lambda>g m. snd (gw_register (manifest_to_static_plugin m) g)) gw_new r =
      gw_new\<lparr>gr_plugins := map manifest_to_static_plugin r\<rparr>"
    using gw_fold_plugins [of gw_new r] assms by (simp add: gw_new_def)
  then show g: "gr_plugins (build_gateway_registry r) = map manifest_to_static_plugin r"
    unfolding build_gateway_registry_def Let_def f by (simp add: gw_set_default_def)
  then show "gw_get (build_gateway_registry r) i = map_option manifest_to_static_plugin (plugin_get r i)"
    by (simp add: gw_get_def find_static)
  show "gr_default (build_gateway_registry r) = (if plugin_get r ''fake'' \<noteq> None then Some ''fake'' else None)"
    unfolding build_gateway_registry_def Let_def f
    by (simp add: gw_set_default_def gw_get_def find_static) (simp add: gw_new_def)
qed

text \<open>What the gateway sees of a launch request.\<close>

definition routed_type :: "launch_options \<Rightarrow> string option" where
  "routed_type l =
     (case get_str (lo_extra l) ''type'' of
        Some t \<Rightarrow> Some t
      | None \<Rightarrow> (case lo_program l of
                   Some p \<Rightarrow> if lo_adapter l = None \<and> looks_like_cargo_binary p then Some ''rust'' else None
                 | None \<Rightarrow> None))"

lemma route_context_fields:
  "rc_explicit_plugin (launch_to_route_context l) = lo_adapter l"
  "rc_program_path (launch_to_route_context l) = lo_program l"
  "rc_launch_type (launch_to_route_context l) = routed_type l"
  by (auto simp: launch_to_route_context_def Let_def route_context_new_def with_explicit_plugin_def
      with_program_path_def with_launch_type_def routed_type_def split: option.splits)

definition manifest_handles :: "launch_options \<Rightarrow> plugin_manifest \<Rightarrow> bool" where
  "manifest_handles l m \<longleftrightarrow>
     (case routed_type l of Some t \<Rightarrow> t \<in> set (pm_launch_types m) | None \<Rightarrow> False) \<or>
     (case lo_program l of Some p \<Rightarrow> after_last_dot p \<in> set (pm_file_extensions m) | None \<Rightarrow> False)"

lemma find_handles:
  assumes "lo_adapter l = None"
  shows "find (\<lambda>p. plugin_matches p (launch_to_route_context l)) (map manifest_to_static_plugin r) =
    map_option manifest_to_static_plugin (find (manifest_handles l) r)"
proof -
  have "plugin_matches (manifest_to_static_plugin m) (launch_to_route_context l) = manifest_handles l m" for m
    using assms by (simp add: plugin_matches_def route_context_fields matches_launch_type_def
        matches_extension_def manifest_handles_def split: option.split)
  then show ?thesis by (induction r) simp_all
qed

end
