(* ===== verification/CoreEngine.thy ===== *)
theory CoreEngine imports CoreRegistry InstStore begin

text \<open>
  The orchestrator of \<open>dap-core/src/engine.rs\<close>: the plugin and target registries with the
  overrides of the environment, and the path of a session from a launch request to a running
  instance. Fresh UUIDs, the clock and the own process id are arguments; the process-wide cache
  of the builtin registries is the result of loading them once.
\<close>

section \<open>State\<close>

record engine =
  en_instances :: manager
  en_registry :: plugin_registry
  en_targets :: target_registry

definition engine_new :: engine where
  "engine_new = \<lparr>en_instances = [], en_registry = [], en_targets = []\<rparr>"

record session_handle =
  sh_instance_id :: instance_id
  sh_adapter_id :: string
  sh_control_port :: "nat option"

datatype engine_error =
    NoAdapter
  | Instances instance_error
  | Plugins plugin_error

section \<open>Environment overrides\<close>

definition patch_command :: "string option \<Rightarrow> plugin_manifest \<Rightarrow> plugin_manifest" where
  "patch_command v m =
     (case v of Some c \<Rightarrow> m\<lparr>pm_adapter := (pm_adapter m)\<lparr>as_command := c\<rparr>\<rparr> | None \<Rightarrow> m)"

definition patch_adapter_from_env :: "host \<Rightarrow> plugin_manifest \<Rightarrow> plugin_manifest" where
  "patch_adapter_from_env h m =
     (let m = (if pm_id m = ''rust'' then patch_command (h_env h ''LLDB_DAP'') m else m)
      in if pm_id m = ''python'' then patch_command (h_env h ''PYTHON'') m else m)"

definition patch_registry_from_env :: "host \<Rightarrow> plugin_registry \<Rightarrow> plugin_registry" where
  "patch_registry_from_env h r = foldl (\<lambda>acc m. register_plugin (patch_adapter_from_env h m) acc) [] r"

lemma patch_command_id [simp]: "pm_id (patch_command v m) = pm_id m"
  by (simp add: patch_command_def split: option.split)

lemma patch_command_idem [simp]: "patch_command v (patch_command v m) = patch_command v m"
  by (cases v) (simp_all add: patch_command_def)

lemma patch_adapter_id [simp]: "pm_id (patch_adapter_from_env h m) = pm_id m"
  by (simp add: patch_adapter_from_env_def Let_def)

lemma patch_adapter_idem: "patch_adapter_from_env h (patch_adapter_from_env h m) = patch_adapter_from_env h m"
proof (cases "pm_id m = ''rust''")
  case True
  then show ?thesis by (simp add: patch_adapter_from_env_def)
next
  case False
  then show ?thesis by (cases "pm_id m = ''python''") (simp_all add: patch_adapter_from_env_def)
qed

lemma register_fresh: "pm_id m \<notin> pm_id ` set r \<Longrightarrow> register_plugin m r = r @ [m]"
  by (simp add: register_plugin_def filter_id_conv) (metis imageI)

lemma patch_fold:
  "distinct (map pm_id (acc @ r)) \<Longrightarrow>
     foldl (\<lambda>acc m. register_plugin (patch_adapter_from_env h m) acc) acc r =
       acc @ map (patch_adapter_from_env h) r"
proof (induction r arbitrary: acc)
  case (Cons m r)
  then have "register_plugin (patch_adapter_from_env h m) acc = acc @ [patch_adapter_from_env h m]"
    by (intro register_fresh) auto
  then show ?case using Cons.IH [of "acc @ [patch_adapter_from_env h m]"] Cons.prems by auto
qed simp

lemma patch_registry_map:
  "distinct (map pm_id r) \<Longrightarrow> patch_registry_from_env h r = map (patch_adapter_from_env h) r"
  using patch_fold [of "[]" r h] by (simp add: patch_registry_from_env_def)

section \<open>Loading\<close>

definition load_builtin_plugins :: "host \<Rightarrow> (string \<Rightarrow> bool) \<Rightarrow> (string \<Rightarrow> string list option)
    \<Rightarrow> (string \<Rightarrow> plugin_manifest option) \<Rightarrow> (string \<Rightarrow> target_manifest option) \<Rightarrow> string \<Rightarrow> engine
    \<Rightarrow> (engine_error + unit) \<times> engine" where
  "load_builtin_plugins h yaml_ok keys parse parse_target crate_dir en =
     (case registry_load_builtin h yaml_ok keys parse crate_dir (en_registry en) of
        Inl e \<Rightarrow> (Inl (Plugins e), en)
      | Inr r \<Rightarrow>
          let en = en\<lparr>en_registry := patch_registry_from_env h r\<rparr>
          in (case targets_load_builtin h keys parse_target crate_dir (en_targets en) of
                Inl e \<Rightarrow> (Inl (Plugins e), en)
              | Inr ts \<Rightarrow> (Inr (), en\<lparr>en_targets := ts\<rparr>)))"

definition with_builtin_plugins :: "host \<Rightarrow> (string \<Rightarrow> bool) \<Rightarrow> (string \<Rightarrow> string list option)
    \<Rightarrow> (string \<Rightarrow> plugin_manifest option) \<Rightarrow> (string \<Rightarrow> target_manifest option) \<Rightarrow> string
    \<Rightarrow> engine_error + engine" where
  "with_builtin_plugins h yaml_ok keys parse parse_target crate_dir =
     (case load_builtin_plugins h yaml_ok keys parse parse_target crate_dir engine_new of
        (Inl e, _) \<Rightarrow> Inl e
      | (Inr _, en) \<Rightarrow> Inr en)"

text \<open>The process-wide caches of the builtin registries: filled by the first load that succeeds.\<close>

record builtin_caches =
  bc_plugins :: "plugin_manifest list option"
  bc_targets :: "target_manifest list option"

definition cached_builtin_registry :: "host \<Rightarrow> (string \<Rightarrow> bool) \<Rightarrow> (string \<Rightarrow> string list option)
    \<Rightarrow> (string \<Rightarrow> plugin_manifest option) \<Rightarrow> string \<Rightarrow> builtin_caches
    \<Rightarrow> (engine_error + plugin_manifest list) \<times> builtin_caches" where
  "cached_builtin_registry h yaml_ok keys parse crate_dir bc =
     (case bc_plugins bc of
        Some r \<Rightarrow> (Inr r, bc)
      | None \<Rightarrow>
          (case registry_load_builtin h yaml_ok keys parse crate_dir [] of
             Inl e \<Rightarrow> (Inl (Plugins e), bc)
           | Inr r \<Rightarrow> (Inr (patch_registry_from_env h r), bc\<lparr>bc_plugins := Some (patch_registry_from_env h r)\<rparr>)))"

definition cached_builtin_target_registry :: "host \<Rightarrow> (string \<Rightarrow> string list option)
    \<Rightarrow> (string \<Rightarrow> target_manifest option) \<Rightarrow> string \<Rightarrow> builtin_caches
    \<Rightarrow> (engine_error + target_manifest list) \<times> builtin_caches" where
  "cached_builtin_target_registry h keys parse_target crate_dir bc =
     (case bc_targets bc of
        Some ts \<Rightarrow> (Inr ts, bc)
      | None \<Rightarrow>
          (case targets_load_builtin h keys parse_target crate_dir [] of
             Inl e \<Rightarrow> (Inl (Plugins e), bc)
           | Inr ts \<Rightarrow> (Inr ts, bc\<lparr>bc_targets := Some ts\<rparr>)))"

definition for_headless_session :: "host \<Rightarrow> (string \<Rightarrow> bool) \<Rightarrow> (string \<Rightarrow> string list option)
    \<Rightarrow> (string \<Rightarrow> plugin_manifest option) \<Rightarrow> (string \<Rightarrow> target_manifest option) \<Rightarrow> string \<Rightarrow> builtin_caches
    \<Rightarrow> (engine_error + engine) \<times> builtin_caches" where
  "for_headless_session h yaml_ok keys parse parse_target crate_dir bc =
     (case cached_builtin_registry h yaml_ok keys parse crate_dir bc of
        (Inl e, bc) \<Rightarrow> (Inl e, bc)
      | (Inr r, bc) \<Rightarrow>
          (case cached_builtin_target_registry h keys parse_target crate_dir bc of
             (Inl e, bc) \<Rightarrow> (Inl e, bc)
           | (Inr ts, bc) \<Rightarrow> (Inr \<lparr>en_instances = [], en_registry = r, en_targets = ts\<rparr>, bc)))"

text \<open>The first headless engine is the one with the builtin plugins, and later ones equal it.\<close>

lemma for_headless_session_first:
  "fst (for_headless_session h yaml_ok keys parse parse_target crate_dir \<lparr>bc_plugins = None, bc_targets = None\<rparr>) =
     with_builtin_plugins h yaml_ok keys parse parse_target crate_dir"
  by (simp add: for_headless_session_def cached_builtin_registry_def cached_builtin_target_registry_def
      with_builtin_plugins_def load_builtin_plugins_def engine_new_def Let_def split: sum.split)

lemma for_headless_session_again:
  assumes "for_headless_session h yaml_ok keys parse parse_target crate_dir bc = (Inr en, bc')"
  shows "for_headless_session h' yaml_ok' keys' parse' parse_target' crate_dir' bc' = (Inr en, bc')"
  using assms
  by (auto simp: for_headless_session_def cached_builtin_registry_def cached_builtin_target_registry_def
      split: option.splits sum.splits)

definition load_plugins_from_dir :: "host \<Rightarrow> (string \<Rightarrow> bool) \<Rightarrow> (string \<Rightarrow> string list option)
    \<Rightarrow> (string \<Rightarrow> plugin_manifest option) \<Rightarrow> string \<Rightarrow> engine \<Rightarrow> (engine_error + unit) \<times> engine" where
  "load_plugins_from_dir h yaml_ok keys parse dir en =
     (case registry_load_from_dir h yaml_ok keys parse dir (en_registry en) of
        Inl e \<Rightarrow> (Inl (Plugins e), en)
      | Inr r \<Rightarrow> (Inr (), en\<lparr>en_registry := patch_registry_from_env h r\<rparr>))"

definition engine_register_plugin :: "host \<Rightarrow> plugin_manifest \<Rightarrow> engine \<Rightarrow> engine" where
  "engine_register_plugin h m en =
     en\<lparr>en_registry := register_plugin (patch_adapter_from_env h m) (en_registry en)\<rparr>"

definition adapter_spawn_of :: "engine \<Rightarrow> string \<Rightarrow> adapter_spawn option" where
  "adapter_spawn_of en i = map_option pm_adapter (plugin_get (en_registry en) i)"

definition resolve_adapter_spawn :: "engine \<Rightarrow> launch_options \<Rightarrow> engine_error + adapter_spawn" where
  "resolve_adapter_spawn en l =
     (case router_route (en_registry en) l of Some (_, m) \<Rightarrow> Inr (pm_adapter m) | None \<Rightarrow> Inl NoAdapter)"

section \<open>Sessions\<close>

definition session_spec :: "string \<Rightarrow> int \<Rightarrow> string \<Rightarrow> launch_options \<Rightarrow> instance_spec" where
  "session_spec uuid now adapter l =
     (let spec = with_tag ''adapter'' adapter (instance_spec_new uuid now ''dap-session'')
      in case lo_program l of Some p \<Rightarrow> with_label p spec | None \<Rightarrow> spec)"

definition prepare_session :: "string \<Rightarrow> int \<Rightarrow> launch_options \<Rightarrow> engine
    \<Rightarrow> (engine_error + session_handle) \<times> engine" where
  "prepare_session uuid now l en =
     (case router_route (en_registry en) l of
        None \<Rightarrow> (Inl NoAdapter, en)
      | Some (adapter, _) \<Rightarrow>
          (case register_instance (session_spec uuid now adapter l) (en_instances en) of
                (Inl e, m) \<Rightarrow> (Inl (Instances e), en\<lparr>en_instances := m\<rparr>)
              | (Inr i, m) \<Rightarrow>
                  (case set_state i Starting m of
                     (Inl e, m') \<Rightarrow> (Inl (Instances e), en\<lparr>en_instances := m'\<rparr>)
                   | (Inr _, m') \<Rightarrow>
                       (Inr \<lparr>sh_instance_id = i, sh_adapter_id = adapter, sh_control_port = None\<rparr>,
                        en\<lparr>en_instances := m'\<rparr>))))"

definition engine_set_control_port :: "session_handle \<Rightarrow> nat \<Rightarrow> engine
    \<Rightarrow> (engine_error + session_handle) \<times> engine" where
  "engine_set_control_port sh port en =
     (case set_control_port (sh_instance_id sh) port (en_instances en) of
        (Inl e, m) \<Rightarrow> (Inl (Instances e), en\<lparr>en_instances := m\<rparr>)
      | (Inr _, m) \<Rightarrow>
          (Inr \<lparr>sh_instance_id = sh_instance_id sh, sh_adapter_id = sh_adapter_id sh,
                sh_control_port = Some port\<rparr>, en\<lparr>en_instances := m\<rparr>))"

definition mark_running :: "nat \<Rightarrow> session_handle \<Rightarrow> engine \<Rightarrow> (engine_error + unit) \<times> engine" where
  "mark_running own_pid sh en =
     (case set_pid (sh_instance_id sh) own_pid (en_instances en) of
        (Inl e, m) \<Rightarrow> (Inl (Instances e), en\<lparr>en_instances := m\<rparr>)
      | (Inr _, m) \<Rightarrow>
          (case set_state (sh_instance_id sh) RunningState m of
             (Inl e, m') \<Rightarrow> (Inl (Instances e), en\<lparr>en_instances := m'\<rparr>)
           | (Inr _, m') \<Rightarrow> (Inr (), en\<lparr>en_instances := m'\<rparr>)))"

text \<open>What a prepared, ported and running session looks like to the manager.\<close>

lemma session_spec_fields [simp]:
  "is_id (session_spec uuid now adapter l) = uuid"
  "is_label (session_spec uuid now adapter l) = lo_program l"
  "is_scope (session_spec uuid now adapter l) = None"
  "is_parent_id (session_spec uuid now adapter l) = None"
  "is_created_at_unix (session_spec uuid now adapter l) = now"
  "hm_get (is_tags (session_spec uuid now adapter l)) ''adapter'' = Some adapter"
  by (simp_all add: session_spec_def Let_def with_label_def with_tag_def instance_spec_new_def split: option.split)

lemma prepared_session:
  assumes "router_route (en_registry en) l = Some (adapter, m)" and "hm_get (en_instances en) uuid = None"
  shows "\<exists>en'. prepare_session uuid now l en =
      (Inr \<lparr>sh_instance_id = uuid, sh_adapter_id = adapter, sh_control_port = None\<rparr>, en') \<and>
    hm_get (en_instances en') = (hm_get (en_instances en))(uuid \<mapsto>
      \<lparr>ih_spec = session_spec uuid now adapter l, ih_state = Starting\<rparr>)"
  using assms by (simp add: prepare_session_def register_instance_def set_state_def)

lemma ported_session:
  assumes "hm_get (en_instances en) (sh_instance_id sh) = Some hnd"
  shows "\<exists>en'. engine_set_control_port sh port en = (Inr (sh\<lparr>sh_control_port := Some port\<rparr>), en') \<and>
    hm_get (en_instances en') = (hm_get (en_instances en))(sh_instance_id sh \<mapsto>
      hnd\<lparr>ih_spec := (ih_spec hnd)\<lparr>is_control_port := Some port\<rparr>\<rparr>)"
  using assms by (cases sh) (simp add: engine_set_control_port_def set_control_port_def Let_def)

lemma running_session:
  assumes "hm_get (en_instances en) (sh_instance_id sh) = Some hnd" and "ih_state hnd = Starting"
  shows "\<exists>en'. mark_running pid sh en = (Inr (), en') \<and>
    hm_get (en_instances en') = (hm_get (en_instances en))(sh_instance_id sh \<mapsto>
      hnd\<lparr>ih_spec := (ih_spec hnd)\<lparr>is_pid := Some pid\<rparr>, ih_state := RunningState\<rparr>)"
  using assms by (simp add: mark_running_def set_pid_def set_state_def Let_def)

end
