(* ===== verification/RouteProperties.thy ===== *)
theory RouteProperties imports CoreEngine begin

text \<open>
  The properties of manifests, registries, routing and the engine, with a host that has nothing
  but one environment variable in the witnesses.
\<close>

definition demo_host :: host where
  "demo_host = \<lparr>h_env = (\<lambda>v. if v = ''PYTHON'' then Some ''/py'' else None), h_canonical = (\<lambda>_. None),
     h_is_file = (\<lambda>_. False), h_is_dir = (\<lambda>_. False), h_read = (\<lambda>_. None), h_read_dir = (\<lambda>_. None)\<rparr>"

definition demo_adapter :: adapter_spawn where
  "demo_adapter = \<lparr>as_transport = Stdio, as_command = ''python3'', as_args = []\<rparr>"

definition demo_plugin :: plugin_manifest where
  "demo_plugin =
     \<lparr>pm_id = ''python'', pm_name = ''Python'', pm_version = ''1'', pm_languages = [],
      pm_launch_types = [''debugpy''], pm_file_extensions = [''py''], pm_adapter = demo_adapter,
      pm_initialize = None,
      pm_launch = Some \<lparr>ls_request = ''launch'', ls_defaults = Some (jobj [(''stop'', JBool True), (''program'', JNull)]),
        ls_fields = Some (jobj [(''program'', JString ''${program}'')])\<rparr>,
      pm_init = None, pm_attachment = None, pm_source_path = None\<rparr>"

definition demo_launch :: launch_options where
  "demo_launch = \<lparr>lo_request = ''launch'', lo_program = Some ''a.py'', lo_adapter = None, lo_extra = jobj []\<rparr>"

section \<open>Manifests\<close>

text \<open>The launch arguments of a manifest are an object in which a resolved field wins over a resolved
  default, a placeholder without a value contributes nothing, and which names the program when
  nothing else is left.\<close>

theorem launch_arguments_precedence:
  fixes h program
  assumes "pm_launch m = Some l"
  defines "ctx \<equiv> template_context h m program"
  shows "\<exists>t. build_launch_arguments h m program = JObject t \<and> t \<noteq> [] \<and>
    ((\<exists>k. or_else (patched h ctx (ls_fields l) k) (patched h ctx (ls_defaults l) k) \<noteq> None) \<longrightarrow>
       obj_get t = (\<lambda>k. or_else (patched h ctx (ls_fields l) k) (patched h ctx (ls_defaults l) k))) \<and>
    ((\<forall>k. or_else (patched h ctx (ls_fields l) k) (patched h ctx (ls_defaults l) k) = None) \<longrightarrow>
       t = [(''program'', JString (program_or_abs ctx))])"
proof -
  obtain t where t: "merge_optional h ctx (ls_fields l) (merge_optional h ctx (ls_defaults l) (jobj [])) = JObject t"
    "obj_get t = (\<lambda>k. or_else (patched h ctx (ls_fields l) k) (patched h ctx (ls_defaults l) k))"
    using merge_two_objects by blast
  have p: "jobj [(''program'', JString (program_or_abs ctx))] = JObject [(''program'', JString (program_or_abs ctx))]"
    by (simp add: jobj_def obj_insert_all_def)
  have b: "build_launch_arguments h m program =
      (if t = [] then JObject [(''program'', JString (program_or_abs ctx))] else JObject t)"
    using assms(1) t(1) p by (simp add: build_launch_arguments_def ctx_def [symmetric] Let_def)
  have get: "obj_get t k = or_else (patched h ctx (ls_fields l) k) (patched h ctx (ls_defaults l) k)" for k
    using t(2) by simp
  show ?thesis
  proof (cases "t = []")
    case True
    then have "or_else (patched h ctx (ls_fields l) k) (patched h ctx (ls_defaults l) k) = None" for k
      using get [of k] by simp
    then show ?thesis using True b by simp
  next
    case False
    then obtain k v t' where "t = (k, v) # t'" by (cases t) auto
    then have "obj_get t k \<noteq> None" by simp
    then show ?thesis using False b t(2) get [of k] by auto
  qed
qed

lemma launch_arguments_precedence_witness:
  "\<exists>t. build_launch_arguments demo_host demo_plugin ''a.py'' = JObject t \<and> t \<noteq> []"
proof -
  have "pm_launch demo_plugin = Some (the (pm_launch demo_plugin))" by (simp add: demo_plugin_def)
  from launch_arguments_precedence [OF this, of demo_host "''a.py''"] show ?thesis by blast
qed

text \<open>Resolving the placeholders of a well-formed value changes nothing when it has none; of an
  object it keeps exactly the members whose value resolves, under their keys, with the resolved
  value, and keeps the order of the map.\<close>

theorem template_resolution:
  assumes "json_ok v" and "obj_ok m"
  shows "(template_free v \<longrightarrow> resolve_value h ctx v = Some v) \<and>
    (\<exists>m'. resolve_value h ctx (JObject m) = Some (JObject m') \<and> obj_ok m' \<and>
       obj_get m' = (\<lambda>k. Option.bind (obj_get m k) (resolve_value h ctx)))"
proof -
  have "obj_get (resolve_members h ctx m []) k = Option.bind (obj_get m k) (resolve_value h ctx)" for k
    using resolve_members_get [OF obj_ok_distinct [OF assms(2)], of h ctx "[]" k]
    by (auto split: option.splits)
  then show ?thesis using resolve_template_free [OF assms(1)] by (auto simp: obj_ok_resolve_members)
qed

lemma template_resolution_witness:
  "resolve_value demo_host (template_context_new demo_host ''a.py'' ''python'') (JBool True) = Some (JBool True) \<and>
   (\<exists>m'. resolve_value demo_host (template_context_new demo_host ''a.py'' ''python'')
      (JObject [(''x'', JString ''${env:NONE}'')]) = Some (JObject m') \<and> obj_get m' ''x'' = None)"
proof -
  have "resolve_value demo_host (template_context_new demo_host ''a.py'' ''python'') (JString ''${env:NONE}'') = None"
    by code_simp
  with template_resolution [of "JBool True" "[(''x'', JString ''${env:NONE}'')]" demo_host
      "template_context_new demo_host ''a.py'' ''python''"]
  show ?thesis by (auto simp: obj_ok_def)
qed

text \<open>The attach arguments of a resolved target are an object that always names a host and a port:
  the manifest's attach members where they resolve, and the connection's endpoint where they do
  not say.\<close>

theorem target_attach_endpoint:
  fixes h program
  assumes "resolve_target h m program = Inr r"
  defines "ctx \<equiv> template_context_new h program (tm_id m)" and "c \<equiv> unwrap_or (tm_connect m) default_connect"
  shows "\<exists>t. attach_arguments r = JObject t \<and>
    obj_get t = (\<lambda>k. case patched h ctx (tm_attach m) k of
      Some v \<Rightarrow> Some v
    | None \<Rightarrow> if k = ''port'' then Some (jint (int (tc_port c)))
              else if k = ''host'' then Some (JString (tc_host c)) else None)"
proof -
  obtain a where a: "merge_attach_fields h ctx (tm_attach m) c = JObject (with_endpoint (tc_host c) (tc_port c) a)"
    "obj_get a = patched h ctx (tm_attach m)"
    using merge_attach_object by blast
  have "rt_attach_fields r = merge_attach_fields h ctx (tm_attach m) c" "rt_host r = tc_host c" "rt_port r = tc_port c"
    using assms(1) by (auto simp: resolve_target_def Let_def ctx_def c_def split: sum.splits)
  then have "attach_arguments r = JObject (with_endpoint (tc_host c) (tc_port c) a)"
    by (simp add: attach_arguments_def a(1) with_endpoint_idem)
  then show ?thesis using a(2) by (auto simp: with_endpoint_get fun_eq_iff)
qed

definition demo_target :: target_manifest where
  "demo_target = \<lparr>tm_id = ''qemu'', tm_name = ''Q'', tm_version = ''1'', tm_target_types = [''gdb-remote''],
     tm_description = None, tm_spawn = None, tm_connect = None, tm_attach = None, tm_init = None, tm_source_path = None\<rparr>"

lemma target_attach_endpoint_witness:
  "\<exists>r t. resolve_target demo_host demo_target ''fw'' = Inr r \<and> attach_arguments r = JObject t \<and>
     obj_get t ''port'' = Some (jint 1234)"
proof -
  obtain r where r: "resolve_target demo_host demo_target ''fw'' = Inr r"
    by (simp add: resolve_target_def demo_target_def)
  from target_attach_endpoint [OF r] r show ?thesis
    by (auto simp: demo_target_def default_connect_def patched_def)
qed

section \<open>Registries\<close>

text \<open>Loading the default manifests yields one valid manifest per id, in order of the ids, and where
  the user's directory has an id the user's manifest is the one found, else the builtin one.\<close>

theorem load_defaults_override:
  assumes "load_defaults h yaml_ok keys parse crate_dir = Inr ms"
    and "user_plugins_dir h = Some dir"
  shows "\<exists>bs us. load_from_dir h yaml_ok keys parse (default_builtin_dir h crate_dir) = Inr bs \<and>
    load_from_dir h yaml_ok keys parse dir = Inr us \<and>
    sorted_wrt (<) (map pm_id ms) \<and>
    (\<forall>i. plugin_get ms i = (case find (\<lambda>m. pm_id m = i) (rev us) of
        Some m \<Rightarrow> Some m | None \<Rightarrow> find (\<lambda>m. pm_id m = i) (rev bs))) \<and>
    (\<forall>i m. plugin_get ms i = Some m \<longrightarrow> validate_plugin h yaml_ok m = Inr () \<and> pm_id m = i)"
proof -
  obtain bs us where l: "load_from_dir h yaml_ok keys parse (default_builtin_dir h crate_dir) = Inr bs"
    "load_from_dir h yaml_ok keys parse dir = Inr us"
    and ms: "ms = foldl (\<lambda>r m. by_id_insert pm_id m r) (foldl (\<lambda>r m. by_id_insert pm_id m r) [] bs) us"
    using assms by (auto simp: load_defaults_def overlay_def Let_def split: sum.splits)
  have ok: "by_id_ok pm_id ([] :: plugin_manifest list)" by (simp add: by_id_ok_def)
  note ok' = by_id.put_invs [OF ok, where ms = bs]
  have sorted: "sorted_wrt (<) (map pm_id ms)"
    using by_id.put_invs [OF ok', where ms = us] by (simp add: by_id_ok_def ms)
  have get: "plugin_get ms i = (case find (\<lambda>m. pm_id m = i) (rev us) of
        Some m \<Rightarrow> Some m | None \<Rightarrow> find (\<lambda>m. pm_id m = i) (rev bs))" for i
    using by_id.lookup_puts [OF ok', where ms = us and k = i] by_id.lookup_puts [OF ok, where ms = bs and k = i]
    by (auto simp: plugin_get_def ms split: option.splits)
  have valid: "validate_plugin h yaml_ok m = Inr ()" if "m \<in> set us \<union> set bs" for m
    using that l load_dir_loaded load_from_file_valid by (fastforce simp: load_from_dir_def)
  have "validate_plugin h yaml_ok m = Inr () \<and> pm_id m = i" if "plugin_get ms i = Some m" for i m
    using that valid [of m] by (auto simp: get dest!: find_mem split: option.splits)
  with l sorted get show ?thesis by blast
qed

definition demo_host_files :: host where
  "demo_host_files = \<lparr>h_env = (\<lambda>v. if v = ''DAP_PLUGINS_DIR'' then Some ''/b'' else if v = ''HOME'' then Some ''/u'' else None),
     h_canonical = (\<lambda>_. None), h_is_file = (\<lambda>p. p = ''/b/x.yaml''), h_is_dir = (\<lambda>p. p = ''/b''),
     h_read = (\<lambda>_. Some ''y''), h_read_dir = (\<lambda>_. Some [''/b/x.yaml''])\<rparr>"

lemma load_defaults_override_witness:
  "\<exists>bs us. load_from_dir demo_host_files (\<lambda>_. True) (\<lambda>_. Some [''id'', ''adapter'']) (\<lambda>_. Some demo_plugin) ''/b'' = Inr bs \<and>
     load_from_dir demo_host_files (\<lambda>_. True) (\<lambda>_. Some [''id'', ''adapter'']) (\<lambda>_. Some demo_plugin) ''/u/.config/dap/plugins'' = Inr us"
proof -
  have "load_defaults demo_host_files (\<lambda>_. True) (\<lambda>_. Some [''id'', ''adapter'']) (\<lambda>_. Some demo_plugin) ''/c'' =
      Inr [demo_plugin\<lparr>pm_source_path := Some ''/b/x.yaml''\<rparr>]"
    and "user_plugins_dir demo_host_files = Some ''/u/.config/dap/plugins''"
    and d: "default_builtin_dir demo_host_files ''/c'' = ''/b''"
    by code_simp+
  from load_defaults_override [OF this(1,2)] show ?thesis unfolding d by blast
qed

text \<open>After any manifests were registered, in any order and with repeated ids, the plugin and the
  target registry hold one entry per id and find the one registered last.\<close>

theorem registries_last_wins:
  "distinct (map pm_id (foldl (\<lambda>r m. register_plugin m r) [] ms)) \<and>
   plugin_get (foldl (\<lambda>r m. register_plugin m r) [] ms) i = find (\<lambda>m. pm_id m = i) (rev ms) \<and>
   distinct (map tm_id (foldl (\<lambda>r t. register_target t r) [] ts)) \<and>
   target_get (foldl (\<lambda>r t. register_target t r) [] ts) i = find (\<lambda>t. tm_id t = i) (rev ts)"
  using pr.put_invs [of "[]" ms] pr.lookup_puts [of "[]" ms i] tr.put_invs [of "[]" ts] tr.lookup_puts [of "[]" ts i]
  by (auto simp: plugin_get_def target_get_def split: option.splits)

section \<open>Routing\<close>

text \<open>C35: over a registry with one entry per id, a launch request is routed to the adapter it names, or
  refused when that adapter is unknown; without a name to the first registered plugin that knows
  its launch type or the extension of its program, whichever comes first in the registry; else to
  the plugin \<open>fake\<close> if there is one; and a route always carries the manifest of its adapter.\<close>

theorem resolve_route_spec:
  assumes "distinct (map pm_id r)"
  shows "resolve_route r l =
    (case lo_adapter l of
       Some a \<Rightarrow> (case plugin_get r a of Some m \<Rightarrow> Inr (a, m) | None \<Rightarrow> Inl (PluginNotFound a))
     | None \<Rightarrow>
         (case find (manifest_handles l) r of
            Some m \<Rightarrow> Inr (pm_id m, m)
          | None \<Rightarrow> (case plugin_get r ''fake'' of Some m \<Rightarrow> Inr (''fake'', m) | None \<Rightarrow> Inl NoRoute))) \<and>
    (\<forall>a m. resolve_route r l = Inr (a, m) \<longrightarrow> plugin_get r a = Some m \<and> pm_id m = a)"
proof -
  note g = gateway_plugins [OF assms]
  have found: "plugin_get r (pm_id m) = Some m" if "m \<in> set r" for m
    using pr.lookup_mem [of r m] that assms by (simp add: pr.well_keyed_def)
  have main: "resolve_route r l =
    (case lo_adapter l of
       Some a \<Rightarrow> (case plugin_get r a of Some m \<Rightarrow> Inr (a, m) | None \<Rightarrow> Inl (PluginNotFound a))
     | None \<Rightarrow>
         (case find (manifest_handles l) r of
            Some m \<Rightarrow> Inr (pm_id m, m)
          | None \<Rightarrow> (case plugin_get r ''fake'' of Some m \<Rightarrow> Inr (''fake'', m) | None \<Rightarrow> Inl NoRoute)))"
  proof (cases "lo_adapter l")
    case (Some a)
    then show ?thesis by (simp add: resolve_route_def router_resolve_def route_context_fields g(2) split: option.split)
  next
    case None
    then show ?thesis using found
      by (auto simp: resolve_route_def router_resolve_def route_context_fields g find_handles [OF None]
          dest: find_mem split: option.splits)
  qed
  have "plugin_get r a = Some m \<and> pm_id m = a" if "resolve_route r l = Inr (a, m)" for a m
  proof -
    have "plugin_get r a = Some m"
      using that by (auto simp: resolve_route_def split: sum.splits option.splits)
    then show ?thesis using pr.lookup_key [of r a m] by simp
  qed
  with main show ?thesis by blast
qed

lemma resolve_route_spec_witness: "resolve_route [demo_plugin] demo_launch = Inr (''python'', demo_plugin)"
proof -
  have "manifest_handles demo_launch demo_plugin" "lo_adapter demo_launch = None" "pm_id demo_plugin = ''python''"
    by code_simp+
  with resolve_route_spec [of "[demo_plugin]" demo_launch] show ?thesis by simp
qed

text \<open>C36: a spawn spec survives the trip through the adapter form as long as the host of a TCP spec has
  no colon; an IPv6 host comes back as one host text with port 0.\<close>

theorem spawn_spec_roundtrip:
  assumes "port < 65536" and "CHR '':'' \<notin> set hst"
  shows "adapter_to_spawn_spec (spawn_spec_to_adapter (SpawnTcp hst port)) = SpawnTcp hst port \<and>
    adapter_to_spawn_spec (spawn_spec_to_adapter (SpawnStdio c as)) = SpawnStdio c as \<and>
    adapter_to_spawn_spec (spawn_spec_to_adapter (SpawnBuiltin c)) = SpawnBuiltin c \<and>
    adapter_to_spawn_spec (spawn_spec_to_adapter (SpawnTcp ''::1'' port)) = SpawnTcp (''::1:'' @ show_nat port) 0"
proof -
  have "parse_u16 (show_nat port) = Some port"
    using assms(1) by (simp add: parse_u16_def parse_radix_show_nat)
  moreover have "parse_u16 (CHR '':'' # x) = None" for x
    by (simp add: parse_u16_def parse_radix_def strip_plus_def digit_val_def)
  ultimately show ?thesis using split_once_append [OF assms(2), of "show_nat port"]
    by (simp add: adapter_to_spawn_spec_def)
qed

lemma spawn_spec_roundtrip_witness:
  "adapter_to_spawn_spec (spawn_spec_to_adapter (SpawnTcp ''localhost'' 4711)) = SpawnTcp ''localhost'' 4711"
  using spawn_spec_roundtrip [of 4711 "''localhost''"] by simp

section \<open>The engine\<close>

text \<open>C40: a session that is prepared for a routed launch request, given a control port and marked
  running ends as a running instance whose session record names the own process, the port, the
  routed adapter and the program; no other instance changes on the way.\<close>

theorem engine_session_published:
  assumes "router_route (en_registry en) l = Some (adapter, m)" and "hm_get (en_instances en) uuid = None"
  shows "\<exists>sh en1 sh2 en2 en3 hnd. prepare_session uuid now l en = (Inr sh, en1) \<and>
    engine_set_control_port sh port en1 = (Inr sh2, en2) \<and> mark_running pid sh2 en2 = (Inr (), en3) \<and>
    hm_get (en_instances en3) = (hm_get (en_instances en))(uuid \<mapsto> hnd) \<and> ih_state hnd = RunningState \<and>
    session_record_from_handle hnd = Some
      \<lparr>sr_instance_id = uuid, sr_pid = pid, sr_control_port = port, sr_adapter_id = adapter,
       sr_program = lo_program l, sr_scope = None, sr_parent_id = None, sr_started_at_unix = now\<rparr>"
proof -
  let ?sh = "\<lparr>sh_instance_id = uuid, sh_adapter_id = adapter, sh_control_port = None\<rparr>"
  let ?h1 = "\<lparr>ih_spec = session_spec uuid now adapter l, ih_state = Starting\<rparr>"
  obtain en1 where en1: "prepare_session uuid now l en = (Inr ?sh, en1)"
    "\<forall>k. hm_get (en_instances en1) k = (if k = uuid then Some ?h1 else hm_get (en_instances en) k)"
    using prepared_session [OF assms, of now] by auto
  let ?h2 = "?h1\<lparr>ih_spec := (ih_spec ?h1)\<lparr>is_control_port := Some port\<rparr>\<rparr>"
  obtain en2 where en2: "engine_set_control_port ?sh port en1 = (Inr (?sh\<lparr>sh_control_port := Some port\<rparr>), en2)"
    "\<forall>k. hm_get (en_instances en2) k = (if k = uuid then Some ?h2 else hm_get (en_instances en) k)"
    using ported_session [of en1 ?sh ?h1 port] en1(2) by auto
  let ?h3 = "?h2\<lparr>ih_spec := (ih_spec ?h2)\<lparr>is_pid := Some pid\<rparr>, ih_state := RunningState\<rparr>"
  obtain en3 where en3: "mark_running pid (?sh\<lparr>sh_control_port := Some port\<rparr>) en2 = (Inr (), en3)"
    "\<forall>k. hm_get (en_instances en3) k = (if k = uuid then Some ?h3 else hm_get (en_instances en) k)"
    using running_session [of en2 "?sh\<lparr>sh_control_port := Some port\<rparr>" ?h2 pid] en2(2) by auto
  have "session_record_from_handle ?h3 = Some
      \<lparr>sr_instance_id = uuid, sr_pid = pid, sr_control_port = port, sr_adapter_id = adapter,
       sr_program = lo_program l, sr_scope = None, sr_parent_id = None, sr_started_at_unix = now\<rparr>"
    by (simp add: session_record_from_handle_def)
  moreover have "ih_state ?h3 = RunningState" by simp
  moreover have "hm_get (en_instances en3) = (hm_get (en_instances en))(uuid \<mapsto> ?h3)"
    using en3(2) by (simp add: fun_eq_iff)
  ultimately show ?thesis using en1(1) en2(1) en3(1) by blast
qed

lemma engine_session_published_witness:
  "\<exists>sh en1. prepare_session ''u1'' 5 demo_launch (engine_new\<lparr>en_registry := [demo_plugin]\<rparr>) = (Inr sh, en1)"
proof -
  have "router_route [demo_plugin] demo_launch = Some (''python'', demo_plugin)" by code_simp
  with engine_session_published [of "engine_new\<lparr>en_registry := [demo_plugin]\<rparr>" demo_launch "''python''" demo_plugin "''u1''" 5 4711 9]
  show ?thesis by (auto simp: engine_new_def)
qed

end
