(* ===== verification/CoreState.thy ===== *)
theory CoreState imports DapMessage begin

text \<open>
  Small state holders and codecs of \<open>dap-core/src\<close>: the execution state derived from events
  (\<open>execution_state.rs\<close>), navigation commands (\<open>navigation.rs\<close>), adapter capabilities
  (\<open>capabilities.rs\<close>), emulated data watches (\<open>data_watch.rs\<close>) and the truncation of variable
  lists (\<open>bounds.rs\<close>). Parsing a decimal float is the standard library's and a parameter.
\<close>

section \<open>Execution state\<close>

datatype execution_status = StatusUnknown | StatusRunning | StatusStopped | StatusExited

record execution_state =
  xs_status :: execution_status
  xs_thread_id :: "int option"
  xs_stop_reason :: "string option"
  xs_description :: "string option"

record execution_tracker =
  xt_version :: int
  xt_state :: execution_state

definition execution_tracker_new :: execution_tracker where
  "execution_tracker_new =
     \<lparr>xt_version = 0, xt_state = \<lparr>xs_status = StatusUnknown, xs_thread_id = None,
        xs_stop_reason = None, xs_description = None\<rparr>\<rparr>"

definition body_str :: "json option \<Rightarrow> string \<Rightarrow> string option" where
  "body_str body k = Option.bind body (\<lambda>b. get_str b k)"

definition apply_event :: "string \<Rightarrow> json option \<Rightarrow> execution_tracker \<Rightarrow> execution_tracker" where
  "apply_event name body t =
     (let s = xt_state t;
          s' = (if name = ''stopped'' then
                  \<lparr>xs_status = StatusStopped,
                   xs_thread_id = Option.bind body (\<lambda>b. get_i64 b ''threadId''),
                   xs_stop_reason = body_str body ''reason'',
                   xs_description = body_str body ''text''\<rparr>
                else if name = ''continued'' then
                  s\<lparr>xs_status := StatusRunning, xs_stop_reason := None, xs_description := None\<rparr>
                else if name = ''exited'' \<or> name = ''terminated'' then
                  s\<lparr>xs_status := StatusExited, xs_stop_reason := body_str body ''reason''\<rparr>
                else if name = ''initialized'' then s\<lparr>xs_status := StatusRunning\<rparr>
                else s)
      in \<lparr>xt_version = wrap_u64 (xt_version t + 1), xt_state = s'\<rparr>)"

fun apply_message :: "message \<Rightarrow> execution_tracker \<Rightarrow> execution_tracker" where
  "apply_message (Event e) t = apply_event (ev_event e) (ev_body e) t"
| "apply_message _ t = t"

text \<open>The status an event name stands for.\<close>

definition status_of :: "string \<Rightarrow> execution_status option" where
  "status_of name =
     (if name = ''stopped'' then Some StatusStopped
      else if name = ''continued'' \<or> name = ''initialized'' then Some StatusRunning
      else if name = ''exited'' \<or> name = ''terminated'' then Some StatusExited
      else None)"

lemma apply_event_status:
  "xs_status (xt_state (apply_event name body t)) = unwrap_or (status_of name) (xs_status (xt_state t))"
  by (simp add: apply_event_def status_of_def Let_def)

lemma apply_event_version: "xt_version (apply_event name body t) = wrap_u64 (xt_version t + 1)"
  by (simp add: apply_event_def Let_def)

fun last_status :: "message list \<Rightarrow> execution_status option" where
  "last_status [] = None"
| "last_status (m # ms) =
     or_else (last_status ms) (case m of Event e \<Rightarrow> status_of (ev_event e) | _ \<Rightarrow> None)"

fun count_events :: "message list \<Rightarrow> int" where
  "count_events [] = 0"
| "count_events (m # ms) = (case m of Event _ \<Rightarrow> 1 | _ \<Rightarrow> 0) + count_events ms"

lemma unwrap_or_else: "unwrap_or (or_else a b) d = unwrap_or a (unwrap_or b d)"
  by (cases a) simp_all

lemma run_status:
  "xs_status (xt_state (foldl (\<lambda>t m. apply_message m t) t ms)) =
     unwrap_or (last_status ms) (xs_status (xt_state t))"
proof (induction ms arbitrary: t)
  case (Cons m ms)
  have "xs_status (xt_state (apply_message m t)) =
      unwrap_or (case m of Event e \<Rightarrow> status_of (ev_event e) | _ \<Rightarrow> None) (xs_status (xt_state t))"
    by (cases m) (simp_all add: apply_event_status)
  then show ?case by (simp add: Cons.IH unwrap_or_else)
qed simp

lemma count_events_nonneg: "0 \<le> count_events ms"
  by (induction ms) (auto split: message.splits)

lemma run_version:
  "0 \<le> xt_version t \<Longrightarrow> xt_version t + count_events ms < 2 ^ 64 \<Longrightarrow>
     xt_version (foldl (\<lambda>t m. apply_message m t) t ms) = xt_version t + count_events ms"
proof (induction ms arbitrary: t)
  case (Cons m ms)
  show ?case
  proof (cases m)
    case (Event e)
    have "xt_version (apply_message m t) = xt_version t + 1"
      using Cons.prems count_events_nonneg [of ms] Event
      by (simp add: apply_event_version wrap_u64_def)
    then show ?thesis using Cons.IH [of "apply_message m t"] Cons.prems Event by simp
  qed (use Cons in simp_all)
qed simp

section \<open>Navigation\<close>

datatype navigation_type =
    NavContinue | NavStepOver | NavStepIn | NavStepOut | NavPause | NavStepBack | NavReverseContinue

fun dap_command :: "navigation_type \<Rightarrow> string" where
  "dap_command NavContinue = ''continue''"
| "dap_command NavStepOver = ''next''"
| "dap_command NavStepIn = ''stepIn''"
| "dap_command NavStepOut = ''stepOut''"
| "dap_command NavPause = ''pause''"
| "dap_command NavStepBack = ''stepBack''"
| "dap_command NavReverseContinue = ''reverseContinue''"

definition waits_for_stop :: "navigation_type \<Rightarrow> bool" where
  "waits_for_stop n \<longleftrightarrow> n = NavContinue \<or> n = NavPause \<or> n = NavReverseContinue"

definition navigation_arguments :: "navigation_type \<Rightarrow> int \<Rightarrow> json" where
  "navigation_arguments n thread = jobj [(''threadId'', jint thread)]"

fun navigation_display :: "navigation_type \<Rightarrow> string" where
  "navigation_display NavContinue = ''continue''"
| "navigation_display NavStepOver = ''step_over''"
| "navigation_display NavStepIn = ''step_in''"
| "navigation_display NavStepOut = ''step_out''"
| "navigation_display NavPause = ''pause''"
| "navigation_display NavStepBack = ''step_back''"
| "navigation_display NavReverseContinue = ''reverse_continue''"

definition navigation_names :: "(string \<times> navigation_type) list" where
  "navigation_names =
     [(''continue'', NavContinue), (''next'', NavStepOver), (''step_over'', NavStepOver),
      (''stepover'', NavStepOver), (''step_in'', NavStepIn), (''stepin'', NavStepIn),
      (''step_out'', NavStepOut), (''stepout'', NavStepOut), (''pause'', NavPause),
      (''step_back'', NavStepBack), (''stepback'', NavStepBack),
      (''reverse_continue'', NavReverseContinue), (''reversecontinue'', NavReverseContinue)]"

definition navigation_from_str :: "string \<Rightarrow> string + navigation_type" where
  "navigation_from_str s =
     (let n = to_ascii_lowercase (replace_char CHR ''-'' CHR ''_'' s)
      in case map_of navigation_names n of
           Some t \<Rightarrow> Inr t
         | None \<Rightarrow> Inl (''unknown navigation type: '' @ n))"

section \<open>Capabilities\<close>

record capabilities =
  cp_configuration_done :: bool
  cp_function_breakpoints :: bool
  cp_conditional_breakpoints :: bool
  cp_hit_conditional_breakpoints :: bool
  cp_evaluate_for_hovers :: bool
  cp_step_back :: bool
  cp_set_variable :: bool
  cp_set_expression :: bool
  cp_goto_targets :: bool
  cp_goto :: bool
  cp_completions :: bool
  cp_breakpoint_locations :: bool
  cp_data_breakpoints :: bool
  cp_disassemble :: bool
  cp_instruction_breakpoints :: bool
  cp_exception_filter_options :: bool
  cp_log_points :: bool
  cp_restart_frame :: bool
  cp_read_memory :: bool
  cp_write_memory :: bool
  cp_exception_filters :: "json list option"
  cp_raw :: "json option"

definition capabilities_unknown :: capabilities where
  "capabilities_unknown =
     \<lparr>cp_configuration_done = False, cp_function_breakpoints = False, cp_conditional_breakpoints = False,
      cp_hit_conditional_breakpoints = False, cp_evaluate_for_hovers = False, cp_step_back = False,
      cp_set_variable = False, cp_set_expression = False, cp_goto_targets = False, cp_goto = False,
      cp_completions = False, cp_breakpoint_locations = False, cp_data_breakpoints = False,
      cp_disassemble = False, cp_instruction_breakpoints = False, cp_exception_filter_options = False,
      cp_log_points = False, cp_restart_frame = False, cp_read_memory = False, cp_write_memory = False,
      cp_exception_filters = None, cp_raw = None\<rparr>"

text \<open>The names serde reads the flags under; an absent flag is false, any value but a boolean an error.\<close>

definition flag_names :: "string list" where
  "flag_names =
     [''supportsConfigurationDoneRequest'', ''supportsFunctionBreakpoints'', ''supportsConditionalBreakpoints'',
      ''supportsHitConditionalBreakpoints'', ''supportsEvaluateForHovers'', ''supportsStepBack'',
      ''supportsSetVariable'', ''supportsSetExpression'', ''supportsGotoTargetsRequest'', ''supportsGotoRequest'',
      ''supportsCompletionsRequest'', ''supportsBreakpointLocationsRequest'', ''supportsDataBreakpoints'',
      ''supportsDisassembleRequest'', ''supportsInstructionBreakpoints'', ''supportsExceptionFilterOptions'',
      ''supportsLogPoints'', ''supportsRestartFrame'', ''supportsReadMemoryRequest'', ''supportsWriteMemoryRequest'']"

definition capability_fields :: "string list" where
  "capability_fields = flag_names @ [''exceptionBreakpointFilters'']"

definition flag_ok :: "jmap \<Rightarrow> string \<Rightarrow> bool" where
  "flag_ok m k \<longleftrightarrow> (case obj_get m k of None \<Rightarrow> True | Some x \<Rightarrow> as_bool x \<noteq> None)"

definition flag :: "jmap \<Rightarrow> nat \<Rightarrow> bool" where
  "flag m i = unwrap_or (Option.bind (obj_get m (flag_names ! i)) as_bool) False"

definition filters_ok :: "jmap \<Rightarrow> bool" where
  "filters_ok m \<longleftrightarrow> (case obj_get m ''exceptionBreakpointFilters'' of
     None \<Rightarrow> True | Some JNull \<Rightarrow> True | Some x \<Rightarrow> as_array x \<noteq> None)"

definition capabilities_from_json :: "json \<Rightarrow> capabilities option" where
  "capabilities_from_json v =
     (case struct_members capability_fields v of
        None \<Rightarrow> None
      | Some m \<Rightarrow>
     if \<not> list_all (flag_ok m) flag_names \<or> \<not> filters_ok m then None
     else Some
        \<lparr>cp_configuration_done = flag m 0, cp_function_breakpoints = flag m 1, cp_conditional_breakpoints = flag m 2,
         cp_hit_conditional_breakpoints = flag m 3, cp_evaluate_for_hovers = flag m 4, cp_step_back = flag m 5,
         cp_set_variable = flag m 6, cp_set_expression = flag m 7, cp_goto_targets = flag m 8, cp_goto = flag m 9,
         cp_completions = flag m 10, cp_breakpoint_locations = flag m 11, cp_data_breakpoints = flag m 12,
         cp_disassemble = flag m 13, cp_instruction_breakpoints = flag m 14, cp_exception_filter_options = flag m 15,
         cp_log_points = flag m 16, cp_restart_frame = flag m 17, cp_read_memory = flag m 18, cp_write_memory = flag m 19,
         cp_exception_filters = Option.bind (obj_get m ''exceptionBreakpointFilters'') as_array, cp_raw = Some v\<rparr>)"

fun from_initialize_message :: "message \<Rightarrow> capabilities option" where
  "from_initialize_message (Response r) = Option.bind (rs_body r) capabilities_from_json"
| "from_initialize_message _ = None"

text \<open>\<open>float_nonzero\<close> is the parsed text compared with zero, or \<open>None\<close> for a text that is no number.\<close>

definition condition_result_is_true :: "(string \<Rightarrow> bool option) \<Rightarrow> json \<Rightarrow> bool" where
  "condition_result_is_true float_nonzero body =
     (let result = unwrap_or (map_option trim (get_str body ''result'')) []; lower = to_ascii_lowercase result
      in if result = [] then False
         else if lower \<in> {''true'', ''1'', ''yes''} then True
         else if lower \<in> {''false'', ''0'', ''no'', ''none'', ''nil'', ''null''} then False
         else case float_nonzero result of
           Some b \<Rightarrow> b
         | None \<Rightarrow> str_contains lower ''true'' \<and> \<not> str_contains lower ''false'')"

section \<open>Data watches\<close>

record data_watch =
  dw_expression :: string
  dw_baseline :: "string option"
  dw_armed :: bool
  dw_emulated :: bool

definition data_watch_new :: "string \<Rightarrow> bool \<Rightarrow> data_watch" where
  "data_watch_new e emulated = \<lparr>dw_expression = e, dw_baseline = None, dw_armed = False, dw_emulated = emulated\<rparr>"

definition data_watch_should_stop :: "string \<Rightarrow> data_watch \<Rightarrow> bool \<times> data_watch" where
  "data_watch_should_stop v d =
     (if \<not> dw_armed d then (False, d\<lparr>dw_baseline := Some v, dw_armed := True\<rparr>)
      else if dw_baseline d \<noteq> Some v then (True, d\<lparr>dw_baseline := Some v\<rparr>)
      else (False, d))"

definition uses_emulated_data_breakpoints :: "bool \<Rightarrow> bool" where
  "uses_emulated_data_breakpoints supported \<longleftrightarrow> \<not> supported"

fun watch_run :: "data_watch \<Rightarrow> string list \<Rightarrow> bool list" where
  "watch_run d [] = []"
| "watch_run d (v # vs) =
     (case data_watch_should_stop v d of (stop, d') \<Rightarrow> stop # watch_run d' vs)"

text \<open>A new watch stops exactly at the values that differ from the one before.\<close>

lemma watch_run_armed:
  "dw_armed d \<Longrightarrow> dw_baseline d = Some u \<Longrightarrow> watch_run d vs = map (\<lambda>(a, b). a \<noteq> b) (zip (u # vs) vs)"
  by (induction vs arbitrary: d u) (auto simp: data_watch_should_stop_def)

lemma watch_run_new:
  "watch_run (data_watch_new e emulated) (v # vs) = False # map (\<lambda>(a, b). a \<noteq> b) (zip (v # vs) vs)"
  using watch_run_armed [of "\<lparr>dw_expression = e, dw_baseline = Some v, dw_armed = True, dw_emulated = emulated\<rparr>" v vs]
  by (simp add: data_watch_new_def data_watch_should_stop_def)

section \<open>Truncation of variables\<close>

text \<open>The ellipsis in UTF-8; a slice that cuts a character in two panics, which is \<open>None\<close>.\<close>

definition ellipsis :: string where
  "ellipsis = [CHR 0xE2, CHR 0x80, CHR 0xA6]"

definition truncate_variable_entry :: "nat \<Rightarrow> json \<Rightarrow> json option" where
  "truncate_variable_entry max_chars entry =
     (case (get_str entry ''value'', entry) of
        (Some s, JObject m) \<Rightarrow>
          if length s \<le> max_chars then Some entry
          else (case slice_to s max_chars of
                  None \<Rightarrow> None
                | Some kept \<Rightarrow> Some (JObject (obj_insert ''truncated'' (JBool True)
                                (obj_insert ''value'' (JString (kept @ ellipsis)) m))))
      | _ \<Rightarrow> Some entry)"

fun all_some :: "'a option list \<Rightarrow> 'a list option" where
  "all_some [] = Some []"
| "all_some (x # xs) = (case (x, all_some xs) of (Some y, Some ys) \<Rightarrow> Some (y # ys) | _ \<Rightarrow> None)"

definition truncate_variables_response :: "nat \<Rightarrow> nat \<Rightarrow> json \<Rightarrow> json option" where
  "truncate_variables_response max_vars max_chars body =
     (let vars = unwrap_or (get_array body ''variables'') []
      in case all_some (map (truncate_variable_entry max_chars) (take max_vars vars)) of
           None \<Rightarrow> None
         | Some limited \<Rightarrow> Some
             (case body of
                JObject m \<Rightarrow> JObject (obj_insert ''truncated'' (JBool (max_vars < length vars))
                  (obj_insert ''variableCount'' (jint (int (length vars))) (obj_insert ''variables'' (JArray limited) m)))
              | _ \<Rightarrow> body))"

lemma all_some_map [simp]: "all_some (map Some ys) = Some ys"
  by (induction ys) auto

lemma all_some_iff: "all_some xs = Some ys \<longleftrightarrow> xs = map Some ys"
proof
  show "all_some xs = Some ys \<Longrightarrow> xs = map Some ys"
    by (induction xs arbitrary: ys) (auto split: option.splits)
qed simp

lemma all_some_None: "all_some xs = None \<longleftrightarrow> None \<in> set xs"
  by (induction xs) (auto split: option.splits)

text \<open>A value that is cut through a character.\<close>

definition splits_character :: "nat \<Rightarrow> json \<Rightarrow> bool" where
  "splits_character max_chars entry \<longleftrightarrow>
     (case get_str entry ''value'' of
        Some s \<Rightarrow> max_chars < length s \<and> \<not> is_char_boundary s max_chars
      | None \<Rightarrow> False)"

lemma get_str_object: "get_str v k = Some s \<Longrightarrow> \<exists>m. v = JObject m"
  by (cases v) auto

lemma truncate_entry_None: "truncate_variable_entry n e = None \<longleftrightarrow> splits_character n e"
  using get_str_object [of e "''value''"]
  by (auto simp: truncate_variable_entry_def splits_character_def slice_to_def split: option.splits json.splits)

lemma truncate_entry_short:
  assumes "truncate_variable_entry n e = Some e'" and "get_str e' ''value'' = Some s"
  shows "length s \<le> n + 3"
  using assms
  by (auto simp: truncate_variable_entry_def slice_to_def ellipsis_def split: option.splits json.splits if_splits)

end
