(* ===== verification/CoreStop.thy ===== *)
theory CoreStop imports CoreState PluginTypes begin

text \<open>
  The client-side stop policy of \<open>dap-core/src\<close>: path comparison, hit conditions, skip patterns
  and line checks (\<open>stop_policy.rs\<close>), hidden stack frames (\<open>stack_filter.rs\<close>), and the resolution
  of instruction and function breakpoints (\<open>instruction_resolve.rs\<close>, \<open>function_resolve.rs\<close>).
  The file system is a parameter. A skip pattern is compared with a reference matcher, in which a
  star stands for any text.
\<close>

section \<open>Source paths\<close>

definition normalize_path :: "string \<Rightarrow> string" where
  "normalize_path p = trim_end_char CHR ''/'' (replace_char CHR 0x5C CHR ''/'' p)"

definition source_paths_match :: "string \<Rightarrow> string \<Rightarrow> bool" where
  "source_paths_match stored current \<longleftrightarrow>
     stored = current \<or>
     (let s = normalize_path stored; c = normalize_path current
      in s = c
         \<or> (ends_with c s \<or> ends_with s c \<or> ends_with c (''/'' @ s) \<or> ends_with s (''/'' @ c))
         \<or> (file_name s \<noteq> None \<and> file_name s = file_name c))"

lemma source_paths_match_sym: "source_paths_match a b \<longleftrightarrow> source_paths_match b a"
  unfolding source_paths_match_def Let_def by (metis)

section \<open>Hit conditions\<close>

definition strip_prefix :: "string \<Rightarrow> string \<Rightarrow> string option" where
  "strip_prefix p s = (if starts_with s p then Some (drop (length p) s) else None)"

definition hit_count_matches :: "string \<Rightarrow> nat \<Rightarrow> bool" where
  "hit_count_matches hit_condition count =
     (let trimmed = trim hit_condition; number = (\<lambda>rest d. unwrap_or (parse_u32 (trim rest)) d)
      in if trimmed = [] then True
         else case strip_prefix ''>='' trimmed of Some rest \<Rightarrow> number rest 0 \<le> count
         | None \<Rightarrow> (case strip_prefix ''<='' trimmed of Some rest \<Rightarrow> count \<le> number rest 0
         | None \<Rightarrow> (case strip_prefix ''>'' trimmed of Some rest \<Rightarrow> number rest 0 < count
         | None \<Rightarrow> (case strip_prefix ''<'' trimmed of Some rest \<Rightarrow> count < number rest 0
         | None \<Rightarrow> (case strip_prefix ''%'' trimmed of Some rest \<Rightarrow> count mod max (number rest 1) 1 = 0
         | None \<Rightarrow> unwrap_or (parse_u32 trimmed) 1 \<le> count)))))"

text \<open>What the condition with an operator and a number is meant to say.\<close>

definition hit_condition_means :: "string \<Rightarrow> nat \<Rightarrow> nat \<Rightarrow> bool" where
  "hit_condition_means operator n count \<longleftrightarrow>
     (if operator = ''>='' then n \<le> count
      else if operator = ''<='' then count \<le> n
      else if operator = ''>'' then n < count
      else if operator = ''<'' then count < n
      else if operator = ''%'' then max n 1 dvd count
      else n \<le> count)"

lemma solid_digit: "is_digit c \<Longrightarrow> solid c"
  by (auto simp: is_digit_def solid_def ws_seqs_def)

lemma solid_show_nat [simp]: "solid (hd (show_nat n))" "solid (last (show_nat n))"
  using show_nat_digits [of "hd (show_nat n)" n] show_nat_digits [of "last (show_nat n)" n]
  by (simp_all add: solid_digit)

lemma trim_show_nat [simp]: "trim (show_nat n) = show_nat n"
  by (rule trim_solid) simp_all

lemma parse_u32_show_nat [simp]: "n < 2 ^ 32 \<Longrightarrow> parse_u32 (show_nat n) = Some n"
  unfolding parse_u32_def by (rule parse_radix_show_nat) simp

lemma solid_operators: "solid CHR ''>''" "solid CHR ''<''" "solid CHR ''%''"
  by (simp_all add: solid_def ws_seqs_def)

lemma trim_operator: "op \<in> {'''', ''>='', ''<='', ''>'', ''<'', ''%''} \<Longrightarrow> trim (op @ show_nat n) = op @ show_nat n"
  by (rule trim_solid) (auto simp: solid_operators last_append)

lemma strip_prefix_append [simp]: "strip_prefix p (p @ s) = Some s"
  by (simp add: strip_prefix_def)

lemma strip_prefix_Nil [simp]: "strip_prefix [] s = Some s"
  by (simp add: strip_prefix_def)

lemma strip_prefix_Cons [simp]:
  "strip_prefix (c # p) (d # s) = (if c = d then strip_prefix p s else None)"
  by (simp add: strip_prefix_def)

lemma strip_prefix_digits: "\<not> is_digit c \<Longrightarrow> strip_prefix (c # p) (show_nat n) = None"
  using show_nat_free [of c n] by (auto simp: strip_prefix_def prefix_def)

lemma is_digit_operators [simp]:
  "\<not> is_digit CHR ''>''" "\<not> is_digit CHR ''<''" "\<not> is_digit CHR ''%''" "\<not> is_digit CHR ''=''"
  by (simp_all add: is_digit_def)

lemma hit_count_operator:
  assumes op: "op \<in> {'''', ''>='', ''<='', ''>'', ''<'', ''%''}" and n: "n < 2 ^ 32"
  shows "hit_count_matches (op @ show_nat n) count \<longleftrightarrow> hit_condition_means op n count"
  using op n trim_operator [OF op, of n]
  by (elim insertE emptyE)
     (simp_all add: hit_count_matches_def hit_condition_means_def strip_prefix_digits
        mod_eq_0_iff_dvd del: strip_prefix_append)

section \<open>Skip patterns\<close>

fun match_parts :: "nat \<Rightarrow> string list \<Rightarrow> string \<Rightarrow> bool" where
  "match_parts index [] cursor = True"
| "match_parts index (part # parts) cursor =
     (if part = [] then match_parts (Suc index) parts cursor
      else if index = 0 then
        starts_with cursor part \<and> match_parts (Suc index) parts (drop (length part) cursor)
      else if parts = [] then ends_with cursor part
      else case str_find cursor part of
             Some pos \<Rightarrow> match_parts (Suc index) parts (drop (pos + length part) cursor)
           | None \<Rightarrow> False)"

definition path_matches_skip :: "string \<Rightarrow> string \<Rightarrow> bool" where
  "path_matches_skip path pattern =
     (if pattern = [] then False
      else if CHR ''*'' \<in> set pattern then match_parts 0 (split_on CHR ''*'' pattern) path
      else str_contains path pattern)"

text \<open>The reference matcher.\<close>

fun glob :: "string \<Rightarrow> string \<Rightarrow> bool" where
  "glob [] s = (s = [])"
| "glob (c # p) s =
     (if c = CHR ''*'' then glob p s \<or> (case s of [] \<Rightarrow> False | _ # t \<Rightarrow> glob (c # p) t)
      else case s of [] \<Rightarrow> False | x # t \<Rightarrow> x = c \<and> glob p t)"

lemma glob_star: "glob (CHR ''*'' # p) s \<longleftrightarrow> (\<exists>a b. s = a @ b \<and> glob p b)"
proof (induction s)
  case (Cons x s)
  have "(\<exists>a b. x # s = a @ b \<and> glob p b) \<longleftrightarrow> glob p (x # s) \<or> (\<exists>a b. s = a @ b \<and> glob p b)"
    by (auto simp: Cons_eq_append_conv)
  with Cons show ?case by simp
qed simp

lemma glob_literal: "CHR ''*'' \<notin> set q \<Longrightarrow> glob (q @ p) s \<longleftrightarrow> (\<exists>t. s = q @ t \<and> glob p t)"
proof (induction q arbitrary: s)
  case (Cons c q)
  then have "c \<noteq> CHR ''*''" by auto
  with Cons show ?case by (cases s) simp_all
qed simp

lemma glob_star_append: "glob (CHR ''*'' # p) s \<Longrightarrow> glob (CHR ''*'' # p) (a @ s)"
  by (metis append_assoc glob_star)

lemma glob_literal_only: "CHR ''*'' \<notin> set q \<Longrightarrow> glob q s \<longleftrightarrow> s = q"
  using glob_literal [of q "[]" s] by simp

text \<open>Taking the first occurrence of a part loses no match.\<close>

lemma first_occurrence:
  assumes mono: "\<And>a s. P s \<Longrightarrow> P (a @ s)"
  shows "(\<exists>a b. s = a @ q @ b \<and> P b) \<longleftrightarrow>
     (case str_find s q of Some n \<Rightarrow> P (drop (n + length q) s) | None \<Rightarrow> False)"
proof (cases "str_find s q")
  case None
  moreover from this have "\<not> sublist q s" by (simp add: str_find_None)
  ultimately show ?thesis by (auto simp: sublist_def)
next
  case (Some n)
  have "P (drop (n + length q) s)" if s: "s = a @ q @ b" and b: "P b" for a b
  proof -
    have "n \<le> length a" using str_find_least [OF Some, of "length a"] s by simp
    then have "drop (n + length q) s = drop (n + length q) (a @ q) @ b" by (simp add: s)
    with b show ?thesis by (simp add: mono)
  qed
  moreover have "s = take n s @ q @ drop (n + length q) s"
  proof -
    obtain r where r: "drop n s = q @ r" using str_find_Some [OF Some] by (auto simp: prefix_def)
    have "drop (n + length q) s = drop (length q) (drop n s)" by (simp add: add.commute)
    then show ?thesis using r append_take_drop_id [of n s] by simp
  qed
  ultimately have "(\<exists>a b. s = a @ q @ b \<and> P b) \<longleftrightarrow> P (drop (n + length q) s)" by blast
  then show ?thesis by (simp add: Some)
qed

lemma str_find_empty [simp]: "str_find s [] = Some 0"
  by (cases s) simp_all

lemma match_parts_glob:
  "ps \<noteq> [] \<Longrightarrow> \<forall>p \<in> set ps. CHR ''*'' \<notin> set p \<Longrightarrow> 0 < i \<Longrightarrow>
     match_parts i ps s \<longleftrightarrow> glob (CHR ''*'' # join_with [CHR ''*''] ps) s"
proof (induction ps arbitrary: i s)
  case (Cons p ps)
  note free = Cons.prems(2)
  show ?case
  proof (cases ps)
    case Nil
    with free Cons.prems show ?thesis
      by (auto simp: glob_star glob_literal_only suffix_def simp del: glob.simps)
  next
    case (Cons q qs)
    define rest where "rest = CHR ''*'' # join_with [CHR ''*''] ps"
    have IH: "match_parts j ps t = glob rest t" if "0 < j" for j t
      unfolding rest_def using Cons.IH [OF _ _ that] free Cons by simp
    have join: "join_with [CHR ''*''] (p # ps) = p @ rest" by (simp add: rest_def Cons)
    have star: "CHR ''*'' \<notin> set p" using free by simp
    have "glob (CHR ''*'' # join_with [CHR ''*''] (p # ps)) s \<longleftrightarrow>
        (\<exists>a b. s = a @ p @ b \<and> glob rest b)"
      unfolding join glob_star [of "p @ rest"] by (auto simp: glob_literal [OF star])
    also have "\<dots> \<longleftrightarrow> (case str_find s p of Some n \<Rightarrow> glob rest (drop (n + length p) s) | None \<Rightarrow> False)"
      by (rule first_occurrence) (simp add: rest_def glob_star_append del: glob.simps)
    also have "\<dots> \<longleftrightarrow> match_parts i (p # ps) s"
    proof (cases "p = []")
      case True
      then show ?thesis by (simp add: IH)
    next
      case False
      have "ps \<noteq> []" using Cons by simp
      with False Cons.prems(3) show ?thesis by (simp add: IH cong: option.case_cong)
    qed
    finally show ?thesis by simp
  qed
qed simp

lemma match_parts_start:
  assumes "CHR ''*'' \<in> set pattern"
  shows "match_parts 0 (split_on CHR ''*'' pattern) s = glob pattern s"
proof -
  define parts where "parts = split_on CHR ''*'' pattern"
  have pattern: "join_with [CHR ''*''] parts = pattern" by (simp add: parts_def join_split_on)
  have free: "\<forall>p \<in> set parts. CHR ''*'' \<notin> set p" using split_on_sep_free by (auto simp: parts_def)
  obtain p ps where parts: "parts = p # ps" by (cases parts) (auto simp: parts_def)
  have "ps \<noteq> []" using assms pattern free parts by auto
  then obtain q qs where ps: "ps = q # qs" by (cases ps) auto
  have eq: "pattern = p @ CHR ''*'' # join_with [CHR ''*''] ps" using pattern parts ps by simp
  have rest: "match_parts 1 ps t = glob (CHR ''*'' # join_with [CHR ''*''] ps) t" for t
    using free parts ps by (intro match_parts_glob) auto
  have "match_parts 0 parts s \<longleftrightarrow> (\<exists>t. s = p @ t \<and> match_parts 1 ps t)"
    by (cases "p = []") (auto simp: parts prefix_def)
  also have "\<dots> = glob pattern s"
    unfolding rest eq using free parts by (subst glob_literal) simp_all
  finally show ?thesis by (simp add: parts_def)
qed

text \<open>Without a star a pattern is a substring to look for, which is a star on each side of it.\<close>

lemma glob_around: "CHR ''*'' \<notin> set q \<Longrightarrow> glob (CHR ''*'' # q @ ''*'') s \<longleftrightarrow> sublist q s"
  by (auto simp: glob_star glob_literal sublist_def simp del: glob.simps(2))

section \<open>Source lines\<close>

text \<open>The file is its text, or \<open>None\<close> when the path is no file or cannot be read.\<close>

definition validate_source_line :: "host \<Rightarrow> string \<Rightarrow> int \<Rightarrow> string option" where
  "validate_source_line h path line =
     (if line < 1 then Some (''line '' @ show_int line @ '' is less than 1'')
      else if \<not> h_is_file h path then None
      else case h_read h path of
        None \<Rightarrow> None
      | Some content \<Rightarrow>
          (let line_count = int (length (str_lines content))
           in if line > line_count then
                Some (''line '' @ show_int line @ '' is past end of file ('' @ show_int line_count @ '' lines)'')
              else if trim (str_lines content ! nat (line - 1)) = [] then
                Some (''line '' @ show_int line @ '' appears empty'')
              else None))"

text \<open>Whether a line of a text is one to stop at.\<close>

definition line_present :: "string \<Rightarrow> int \<Rightarrow> bool" where
  "line_present content line \<longleftrightarrow>
     1 \<le> line \<and> line \<le> int (length (str_lines content)) \<and> trim (str_lines content ! nat (line - 1)) \<noteq> []"

lemma validate_source_line_iff:
  "validate_source_line h path line = None \<longleftrightarrow>
     1 \<le> line \<and> (h_is_file h path \<longrightarrow> (\<forall>content. h_read h path = Some content \<longrightarrow> line_present content line))"
  by (auto simp: validate_source_line_def line_present_def Let_def split: option.split)

section \<open>Capability gates\<close>

definition ensure_navigation_supported :: "capabilities \<Rightarrow> navigation_type \<Rightarrow> string + unit" where
  "ensure_navigation_supported c n =
     (if (n = NavStepBack \<or> n = NavReverseContinue) \<and> \<not> cp_step_back c
      then Inl (''adapter does not support '' @ navigation_display n @ '' (supportsStepBack=false)'')
      else Inr ())"

definition uses_emulated_exception_condition :: "capabilities \<Rightarrow> string option \<Rightarrow> bool" where
  "uses_emulated_exception_condition c condition \<longleftrightarrow>
     condition \<noteq> None \<and> \<not> cp_exception_filter_options c"

record client_stop_policy =
  csp_condition :: bool
  csp_hit :: bool
  csp_log :: bool

definition uses_client_stop_policy ::
    "capabilities \<Rightarrow> string option \<Rightarrow> string option \<Rightarrow> string option \<Rightarrow> client_stop_policy" where
  "uses_client_stop_policy c condition hit_condition log_message =
     \<lparr>csp_condition = (condition \<noteq> None \<and> \<not> cp_conditional_breakpoints c),
      csp_hit = (hit_condition \<noteq> None \<and> \<not> cp_hit_conditional_breakpoints c),
      csp_log = (log_message \<noteq> None \<and> \<not> cp_log_points c)\<rparr>"

definition policy_any :: "client_stop_policy \<Rightarrow> bool" where
  "policy_any p \<longleftrightarrow> csp_condition p \<or> csp_hit p \<or> csp_log p"

section \<open>Hidden stack frames\<close>

definition default_hidden_stack_patterns :: "string list" where
  "default_hidden_stack_patterns =
     [''site-packages'', ''runpy.py'', ''/runpy'', ''_run_code'', ''/rustc/'', ''/target/deps/'', ''debugpy/'']"

definition is_hidden_stack_frame :: "string \<Rightarrow> bool \<Rightarrow> bool" where
  "is_hidden_stack_frame path full =
     (if full then False else list_ex (path_matches_skip path) default_hidden_stack_patterns)"

definition smart_step_should_skip :: "string \<Rightarrow> bool \<Rightarrow> bool" where
  "smart_step_should_skip path enabled \<longleftrightarrow> enabled \<and> is_hidden_stack_frame path False"

lemma smart_step_iff:
  "smart_step_should_skip path enabled \<longleftrightarrow>
     enabled \<and> (\<exists>q \<in> set default_hidden_stack_patterns. str_contains path q)"
  by (auto simp: smart_step_should_skip_def is_hidden_stack_frame_def path_matches_skip_def
        default_hidden_stack_patterns_def)

section \<open>Instruction breakpoints\<close>

definition resolve_instruction_location :: "json \<Rightarrow> (string \<times> int) option" where
  "resolve_instruction_location body =
     (case get_array body ''instructions'' of
        Some (instruction # _) \<Rightarrow>
          (case get_i64 instruction ''line'' of
             None \<Rightarrow> None
           | Some line \<Rightarrow>
               (case Option.bind (jget instruction ''location'') (\<lambda>l. get_str l ''path'') of
                  None \<Rightarrow> None
                | Some path \<Rightarrow> if path = [] then None else Some (path, line)))
      | _ \<Rightarrow> None)"

definition instruction_breakpoint_key :: "string \<Rightarrow> int \<Rightarrow> string" where
  "instruction_breakpoint_key reference off = reference @ '':'' @ show_int off"

section \<open>Function breakpoints\<close>

text \<open>The text before the first character that stops it or is white space.\<close>

fun text_until :: "char list \<Rightarrow> string \<Rightarrow> string" where
  "text_until stops [] = []"
| "text_until stops (c # s) =
     (if c \<in> set stops \<or> drop_seq ws_seqs (c # s) \<noteq> None then [] else c # text_until stops s)"

definition nonempty_name :: "string \<Rightarrow> string option" where
  "nonempty_name n = (if n = [] then None else Some n)"

definition python_def_name :: "string \<Rightarrow> string option" where
  "python_def_name line =
     (let rest = unwrap_or (strip_prefix ''def '' (unwrap_or (strip_prefix ''async '' line) line)) line
      in nonempty_name (text_until ''('' rest))"

definition rust_fn_name :: "string \<Rightarrow> string option" where
  "rust_fn_name line =
     (case str_find line ''fn '' of
        None \<Rightarrow> None
      | Some marker \<Rightarrow> nonempty_name (text_until ''(<'' (drop (marker + 3) line)))"

definition line_matches_function_definition :: "string \<Rightarrow> string \<Rightarrow> bool" where
  "line_matches_function_definition line name =
     (let trimmed = trim_start line
      in if starts_with trimmed ''def '' \<or> starts_with trimmed ''async def ''
         then python_def_name trimmed = Some name
         else if starts_with trimmed ''fn '' \<or> str_contains trimmed '' fn ''
         then rust_fn_name trimmed = Some name
         else False)"

fun find_line :: "int \<Rightarrow> string list \<Rightarrow> string \<Rightarrow> int option" where
  "find_line index [] name = None"
| "find_line index (line # ls) name =
     (if line_matches_function_definition line name then Some (index + 1)
      else find_line (index + 1) ls name)"

definition resolve_function_line :: "string \<Rightarrow> string \<Rightarrow> int option" where
  "resolve_function_line content name = find_line 0 (str_lines content) name"

definition is_source_file :: "string \<Rightarrow> bool" where
  "is_source_file path \<longleftrightarrow>
     (case path_extension path of
        Some e \<Rightarrow> e \<in> {''py'', ''rs'', ''js'', ''ts'', ''go''}
      | None \<Rightarrow> False)"

text \<open>
  The search of one directory: \<open>Inl\<close> ends the whole search with an answer (a hit, or nothing when a
  source file cannot be read), \<open>Inr\<close> goes on with the next directory.
\<close>

fun search_entries :: "host \<Rightarrow> string \<Rightarrow> string list \<Rightarrow> (string \<times> int) option + unit" where
  "search_entries h name [] = Inr ()"
| "search_entries h name (path # paths) =
     (if \<not> is_source_file path then search_entries h name paths
      else case h_read h path of
        None \<Rightarrow> Inl None
      | Some content \<Rightarrow>
          (case resolve_function_line content name of
             Some line \<Rightarrow> Inl (Some (path, line))
           | None \<Rightarrow> search_entries h name paths))"

fun find_function_in_dirs :: "host \<Rightarrow> string \<Rightarrow> string list \<Rightarrow> (string \<times> int) option" where
  "find_function_in_dirs h name [] = None"
| "find_function_in_dirs h name (dir # dirs) =
     (if \<not> h_is_dir h dir then find_function_in_dirs h name dirs
      else case h_read_dir h dir of
        None \<Rightarrow> None
      | Some entries \<Rightarrow>
          (case search_entries h name entries of
             Inl answer \<Rightarrow> answer
           | Inr _ \<Rightarrow> find_function_in_dirs h name dirs))"

lemma find_line_Some:
  "find_line i ls name = Some l \<longleftrightarrow>
     (\<exists>k < length ls. l = i + int k + 1 \<and> line_matches_function_definition (ls ! k) name \<and>
        (\<forall>j < k. \<not> line_matches_function_definition (ls ! j) name))"
proof (induction ls arbitrary: i)
  case (Cons x xs)
  show ?case
  proof (cases "line_matches_function_definition x name")
    case True
    then show ?thesis by (auto intro: exI [of _ 0]) (metis less_nat_zero_code not_gr_zero nth_Cons_0)
  next
    case False
    have "find_line i (x # xs) name = find_line (i + 1) xs name" using False by simp
    also have "\<dots> = Some l \<longleftrightarrow> (\<exists>k < length (x # xs). l = i + int k + 1 \<and>
        line_matches_function_definition ((x # xs) ! k) name \<and>
        (\<forall>j < k. \<not> line_matches_function_definition ((x # xs) ! j) name))"
      unfolding Cons.IH length_Cons Ex_less_Suc2 using False
      by (simp add: All_less_Suc2)
    finally show ?thesis .
  qed
qed simp

lemma search_entries_hit:
  "search_entries h name ps = Inl (Some (path, l)) \<Longrightarrow>
     path \<in> set ps \<and> is_source_file path \<and> (\<exists>content. h_read h path = Some content \<and>
       resolve_function_line content name = Some l)"
  by (induction ps) (auto split: if_splits option.splits)

lemma find_function_hit:
  "find_function_in_dirs h name dirs = Some (path, l) \<Longrightarrow>
     \<exists>dir \<in> set dirs. \<exists>entries. h_read_dir h dir = Some entries \<and> path \<in> set entries \<and>
       is_source_file path \<and> (\<exists>content. h_read h path = Some content \<and>
         resolve_function_line content name = Some l)"
proof (induction dirs)
  case (Cons d ds)
  show ?case
  proof (cases "find_function_in_dirs h name ds = Some (path, l)")
    case True
    then show ?thesis using Cons.IH by auto
  next
    case False
    then obtain es where es: "h_read_dir h d = Some es" "search_entries h name es = Inl (Some (path, l))"
      using Cons.prems by (auto split: if_splits option.splits sum.splits)
    then show ?thesis using search_entries_hit [OF es(2)] by auto
  qed
qed simp

end
