(* ===== verification/CoreMemory.thy ===== *)
theory CoreMemory imports DapMessage begin

text \<open>
  \<open>dap-core/src/memory.rs\<close>: the bounds of a memory read, the hex payload of a memory write and
  the rendering of a memory dump. The base64 codec is a crate and a parameter. A byte is a
  natural number below 256.
\<close>

section \<open>Bounds\<close>

definition max_read_bytes :: int where
  "max_read_bytes = 2 ^ 20"

definition max_write_bytes :: nat where
  "max_write_bytes = 2 ^ 20"

definition validate_read_count :: "int \<Rightarrow> string + int" where
  "validate_read_count count =
     (if count \<le> 0 then Inl (''count must be > 0, got '' @ show_int count)
      else if count > max_read_bytes
      then Inl (''count '' @ show_int count @ '' exceeds maximum of '' @ show_int max_read_bytes @ '' bytes'')
      else Inr count)"

section \<open>Hex payloads\<close>

text \<open>The outcome of a function that may also panic, which slicing inside a character does.\<close>

datatype 'a outcome = Panic | Failure string | Success 'a

definition slice_range :: "string \<Rightarrow> nat \<Rightarrow> nat \<Rightarrow> string option" where
  "slice_range s i j =
     (if i \<le> j \<and> j \<le> length s \<and> is_char_boundary s i \<and> is_char_boundary s j
      then Some (take (j - i) (drop i s)) else None)"

definition parse_u8_hex :: "string \<Rightarrow> nat option" where
  "parse_u8_hex = parse_radix 16 255"

fun hex_pairs :: "string \<Rightarrow> nat list \<Rightarrow> nat list outcome" where
  "hex_pairs data [] = Success []"
| "hex_pairs data (idx # idxs) =
     (case slice_range data idx (idx + 2) of
        None \<Rightarrow> Panic
      | Some pair \<Rightarrow>
          (case parse_u8_hex pair of
             None \<Rightarrow> Failure (''invalid hex byte '' @ [CHR 0x27] @ pair @ [CHR 0x27])
           | Some byte \<Rightarrow>
               (case hex_pairs data idxs of
                  Success bytes \<Rightarrow> Success (byte # bytes)
                | other \<Rightarrow> other)))"

definition step_by_two :: "nat \<Rightarrow> nat list" where
  "step_by_two n = map (\<lambda>k. 2 * k) [0..<(n + 1) div 2]"

definition hex_string_to_bytes :: "string \<Rightarrow> nat list outcome" where
  "hex_string_to_bytes text =
     (let data = trim text
      in if data = [] then Failure ''data must not be empty''
         else if length data mod 2 \<noteq> 0 then Failure ''hex data must have an even number of characters''
         else case hex_pairs data (step_by_two (length data)) of
                Success out \<Rightarrow>
                  if length out > max_write_bytes
                  then Failure (''write payload '' @ show_nat (length out) @ '' bytes exceeds maximum of ''
                         @ show_nat max_write_bytes @ '' bytes'')
                  else Success out
              | other \<Rightarrow> other)"

section \<open>Hex digits\<close>

definition hex_char :: "nat \<Rightarrow> char" where
  "hex_char d = char_of (if d < 10 then 48 + d else 55 + d)"

fun show_hex :: "nat \<Rightarrow> string" where
  "show_hex n = (if n < 16 then [hex_char n] else show_hex (n div 16) @ [hex_char (n mod 16)])"

declare show_hex.simps [simp del]

definition pad_zero :: "nat \<Rightarrow> string \<Rightarrow> string" where
  "pad_zero w s = replicate (w - length s) CHR ''0'' @ s"

definition hex_byte :: "nat \<Rightarrow> string" where
  "hex_byte b = pad_zero 2 (show_hex b)"

lemma hex_char_zero: "hex_char 0 = CHR ''0''"
  by code_simp

lemma hex_byte_digits: "b < 256 \<Longrightarrow> hex_byte b = [hex_char (b div 16), hex_char (b mod 16)]"
proof (cases "b < 16")
  case True
  then show ?thesis by (simp add: hex_byte_def pad_zero_def show_hex.simps hex_char_zero)
next
  case False
  moreover assume "b < 256"
  ultimately show ?thesis by (simp add: hex_byte_def pad_zero_def show_hex.simps [of b] show_hex.simps [of "b div 16"])
qed

lemma digit_val_hex_char: "d < 16 \<Longrightarrow> digit_val 16 (hex_char d) = Some d"
  by (auto simp: digit_val_def hex_char_def Let_def)

lemma hex_char_code: "d < 16 \<Longrightarrow> (of_char (hex_char d) :: nat) = (if d < 10 then 48 + d else 55 + d)"
  by (simp add: hex_char_def)

lemma hex_char_ascii: "d < 16 \<Longrightarrow> (of_char (hex_char d) :: nat) < 128"
  by (simp add: hex_char_code)

lemma hex_char_not_plus: "d < 16 \<Longrightarrow> hex_char d \<noteq> CHR ''+''"
  using hex_char_code [of d] by (auto split: if_splits)

lemma hex_char_solid: "d < 16 \<Longrightarrow> solid (hex_char d)"
  using hex_char_code [of d] by (auto simp: solid_def ws_seqs_def split: if_splits)

lemma parse_hex_byte: "b < 256 \<Longrightarrow> parse_u8_hex (hex_byte b) = Some b"
  by (simp add: parse_u8_hex_def parse_radix_def hex_byte_digits strip_plus_def hex_char_not_plus digit_val_hex_char)

text \<open>Every position of a text of ASCII bytes is a character boundary.\<close>

lemma ascii_boundary:
  "\<forall>c \<in> set s. (of_char c :: nat) < 128 \<Longrightarrow> i \<le> length s \<Longrightarrow> is_char_boundary s i"
  by (auto simp: is_char_boundary_def)

lemma ascii_slice:
  "\<forall>c \<in> set s. (of_char c :: nat) < 128 \<Longrightarrow> i + n \<le> length s \<Longrightarrow>
     slice_range s i (i + n) = Some (take n (drop i s))"
  by (simp add: slice_range_def ascii_boundary)

definition hex_text :: "nat list \<Rightarrow> string" where
  "hex_text bs = concat (map hex_byte bs)"

lemma hex_text_length: "\<forall>b \<in> set bs. b < 256 \<Longrightarrow> length (hex_text bs) = 2 * length bs"
  by (induction bs) (auto simp: hex_text_def hex_byte_digits)

lemma hex_text_ascii:
  assumes "\<forall>b \<in> set bs. b < 256"
  shows "\<forall>c \<in> set (hex_text bs). (of_char c :: nat) < 128"
  using assms by (auto simp: hex_text_def hex_byte_digits intro!: hex_char_ascii)

lemma hex_text_drop: "\<forall>b \<in> set bs. b < 256 \<Longrightarrow> drop (2 * k) (hex_text bs) = hex_text (drop k bs)"
proof (induction k arbitrary: bs)
  case (Suc k)
  then show ?case by (cases bs) (simp_all add: hex_text_def hex_byte_digits)
qed simp

lemma hex_text_pair:
  assumes "\<forall>b \<in> set bs. b < 256" and "k < length bs"
  shows "slice_range (hex_text bs) (2 * k) (2 * k + 2) = Some (hex_byte (bs ! k))"
proof -
  have "drop k bs = bs ! k # drop (Suc k) bs" using assms(2) by (simp add: Cons_nth_drop_Suc)
  then have "drop (2 * k) (hex_text bs) = hex_byte (bs ! k) @ hex_text (drop (Suc k) bs)"
    using hex_text_drop [OF assms(1), of k] by (simp add: hex_text_def)
  moreover have "length (hex_byte (bs ! k)) = 2" using assms by (simp add: hex_byte_digits)
  ultimately have "take 2 (drop (2 * k) (hex_text bs)) = hex_byte (bs ! k)" by simp
  then show ?thesis
    using ascii_slice [OF hex_text_ascii [OF assms(1)], of "2 * k" 2] hex_text_length [OF assms(1)] assms(2)
    by simp
qed

lemma hex_pairs_text:
  assumes "\<forall>b \<in> set bs. b < 256" and "\<forall>k \<in> set ks. k < length bs"
  shows "hex_pairs (hex_text bs) (map (\<lambda>k. 2 * k) ks) = Success (map ((!) bs) ks)"
  using assms(2)
proof (induction ks)
  case (Cons k ks)
  then have "bs ! k < 256" using assms(1) by simp
  with Cons show ?case by (simp add: hex_text_pair [OF assms(1), simplified] parse_hex_byte)
qed simp

lemma trim_hex_text:
  assumes "\<forall>b \<in> set bs. b < 256" and "bs \<noteq> []"
  shows "trim (hex_text bs) = hex_text bs" "hex_text bs \<noteq> []"
proof -
  obtain b cs where b: "bs = b # cs" using assms(2) by (cases bs) auto
  obtain ds c where c: "bs = ds @ [c]" using assms(2) by (cases bs rule: rev_cases) auto
  have less: "b < 256" "c < 256" using assms(1) b c by (metis in_set_conv_decomp list.set_intros(1))+
  have first: "hex_text bs = hex_char (b div 16) # hex_char (b mod 16) # hex_text cs"
    by (simp add: b hex_text_def hex_byte_digits less)
  have last: "hex_text bs = hex_text ds @ [hex_char (c div 16), hex_char (c mod 16)]"
    by (simp add: c hex_text_def hex_byte_digits less)
  show "hex_text bs \<noteq> []" by (simp add: first)
  have "solid (hd (hex_text bs))" using less by (simp add: first hex_char_solid)
  moreover have "solid (List.last (hex_text bs))" using less by (simp add: last hex_char_solid)
  ultimately show "trim (hex_text bs) = hex_text bs" by (intro trim_solid) (simp_all add: first)
qed

lemma hex_bytes_of_text:
  assumes "\<forall>b \<in> set bs. b < 256" and "bs \<noteq> []" and "length bs \<le> max_write_bytes"
  shows "hex_string_to_bytes (hex_text bs) = Success bs"
  using assms hex_pairs_text [OF assms(1), of "[0..<length bs]"]
  by (simp add: hex_string_to_bytes_def trim_hex_text hex_text_length step_by_two_def Let_def map_nth)

section \<open>Addresses and dumps\<close>

definition parse_address :: "string \<Rightarrow> nat option" where
  "parse_address s =
     (if starts_with s ''0x'' \<or> starts_with s ''0X'' then parse_radix 16 (2 ^ 64 - 1) (drop 2 s)
      else parse_u64 s)"

fun chunks16 :: "nat list \<Rightarrow> nat list list" where
  "chunks16 bs = (if bs = [] then [] else take 16 bs # chunks16 (drop 16 bs))"

declare chunks16.simps [simp del]

definition dump_prefix :: "nat option \<Rightarrow> nat \<Rightarrow> string" where
  "dump_prefix base i =
     (case base of
        Some a \<Rightarrow> ''0x'' @ pad_zero 16 (show_hex ((a + i * 16) mod 2 ^ 64)) @ '': ''
      | None \<Rightarrow> ''+0x'' @ pad_zero 8 (show_hex (i * 16)) @ '':        '')"

definition dump_cell :: "nat \<Rightarrow> string \<Rightarrow> string" where
  "dump_cell j s = (if j = 8 then '' '' else []) @ s"

definition dump_hex :: "nat list \<Rightarrow> string" where
  "dump_hex chunk =
     concat (map (\<lambda>(j, b). dump_cell j (hex_byte b @ '' '')) (enumerate 0 chunk))
     @ concat (map (\<lambda>j. dump_cell j ''   '') [length chunk..<16])"

definition dump_char :: "nat \<Rightarrow> char" where
  "dump_char b = (if 32 \<le> b \<and> b < 127 then char_of b else CHR ''.'')"

definition dump_row :: "nat option \<Rightarrow> nat \<Rightarrow> nat list \<Rightarrow> string" where
  "dump_row base i chunk =
     dump_prefix base i @ dump_hex chunk @ '' '' @ map dump_char chunk @ [CHR 0x0A]"

definition format_memory_read :: "(string \<Rightarrow> nat list option) \<Rightarrow> json \<Rightarrow> string + string" where
  "format_memory_read decode body =
     (let address = unwrap_or (get_str body ''address'') ''?'';
          unreadable_bytes = get_i64 body ''unreadableBytes''
      in case get_str body ''data'' of
           None \<Rightarrow> Inr (''Address: '' @ address @ [CHR 0x0A] @
             (case unreadable_bytes of
                Some n \<Rightarrow> show_int n @ '' byte(s) unreadable.''
              | None \<Rightarrow> ''No data returned.''))
         | Some b64 \<Rightarrow>
             (case decode b64 of
                None \<Rightarrow> Inl (''decode memory data at '' @ address)
              | Some data \<Rightarrow> Inr
                  (''Memory at '' @ address @ '' ('' @ show_nat (length data) @ '' bytes):'' @ [CHR 0x0A]
                   @ (case unreadable_bytes of
                        Some n \<Rightarrow> ''('' @ show_int n @ '' byte(s) unreadable)'' @ [CHR 0x0A]
                      | None \<Rightarrow> [])
                   @ concat (map (\<lambda>(i, chunk). dump_row (parse_address address) i chunk)
                       (enumerate 0 (chunks16 data))))))"

definition encode_write_payload :: "(nat list \<Rightarrow> string) \<Rightarrow> nat list \<Rightarrow> string" where
  "encode_write_payload encode bytes = encode bytes"

text \<open>Every row of a dump has the same width up to its text column, which shows one character a byte.\<close>

lemma hex_byte_width: "b < 256 \<Longrightarrow> length (hex_byte b) = 2"
  by (simp add: hex_byte_digits)

lemma dump_cells_width:
  assumes "\<forall>b \<in> set bs. b < 256"
  shows "length (concat (map (\<lambda>(j, b). dump_cell j (hex_byte b @ '' '')) (enumerate k bs))) =
    3 * length bs + (if k \<le> 8 \<and> 8 < k + length bs then 1 else 0)"
  using assms by (induction bs arbitrary: k) (auto simp: dump_cell_def hex_byte_width)

lemma dump_pads_width:
  "length (concat (map (\<lambda>j. dump_cell j ''   '') [k..<k + n])) = 3 * n + (if k \<le> 8 \<and> 8 < k + n then 1 else 0)"
  by (induction n) (auto simp: dump_cell_def)

lemma dump_hex_width:
  assumes "\<forall>b \<in> set bs. b < 256" and "length bs \<le> 16"
  shows "length (dump_hex bs) = 49"
  using dump_cells_width [OF assms(1), of 0] dump_pads_width [of "length bs" "16 - length bs"] assms(2)
  by (auto simp: dump_hex_def)

lemma chunks16_concat: "concat (chunks16 bs) = bs"
  by (induction bs rule: chunks16.induct) (subst chunks16.simps, simp)

lemma chunks16_length: "c \<in> set (chunks16 bs) \<Longrightarrow> c \<noteq> [] \<and> length c \<le> 16"
proof (induction bs rule: chunks16.induct)
  case (1 bs)
  then show ?case by (subst (asm) (2) chunks16.simps) (auto split: if_splits)
qed

end
