(* ===== verification/StopProperties.thy ===== *)
theory StopProperties imports CoreStop CoreMemory begin

text \<open>
  The properties of the state holders, the stop policy and the memory codec of \<open>dap-core/src\<close>,
  each with a witness at a concrete input.
\<close>

text \<open>After any sequence of messages the execution tracker has the status of the last event
  that stands for one (unknown when there was none) and its version is the number of events
  observed, whatever responses and requests were between them.\<close>

theorem execution_status_follows:
  assumes "count_events ms < 2 ^ 64"
  shows "xs_status (xt_state (foldl (\<lambda>t m. apply_message m t) execution_tracker_new ms)) =
      unwrap_or (last_status ms) StatusUnknown \<and>
    xt_version (foldl (\<lambda>t m. apply_message m t) execution_tracker_new ms) = count_events ms"
  using run_status [of execution_tracker_new ms] run_version [of execution_tracker_new ms] assms
  by (simp add: execution_tracker_new_def)

lemma execution_status_follows_witness:
  "xs_status (xt_state (foldl (\<lambda>t m. apply_message m t) execution_tracker_new
      [Event \<lparr>ev_seq = 1, ev_event = ''initialized'', ev_body = None\<rparr>,
       Event \<lparr>ev_seq = 2, ev_event = ''stopped'', ev_body = None\<rparr>,
       Event \<lparr>ev_seq = 3, ev_event = ''output'', ev_body = None\<rparr>])) = StatusStopped \<and>
   xt_version (foldl (\<lambda>t m. apply_message m t) execution_tracker_new
      [Event \<lparr>ev_seq = 1, ev_event = ''initialized'', ev_body = None\<rparr>,
       Event \<lparr>ev_seq = 2, ev_event = ''stopped'', ev_body = None\<rparr>,
       Event \<lparr>ev_seq = 3, ev_event = ''output'', ev_body = None\<rparr>]) = 3"
  using execution_status_follows
    [of "[Event \<lparr>ev_seq = 1, ev_event = ''initialized'', ev_body = None\<rparr>,
          Event \<lparr>ev_seq = 2, ev_event = ''stopped'', ev_body = None\<rparr>,
          Event \<lparr>ev_seq = 3, ev_event = ''output'', ev_body = None\<rparr>]"]
  by (simp add: status_of_def or_else_def)

text \<open>C37: Truncating a variables response panics exactly when one of the entries it keeps has a
  value cut inside a character. Otherwise the response keeps its other members, lists at most
  the given number of entries with values of at most the given number of bytes and an ellipsis,
  and says how many variables there were and whether some are missing.\<close>

theorem truncation_bounds:
  "(truncate_variables_response n k (JObject m) = None \<longleftrightarrow>
      (\<exists>e \<in> set (take n (unwrap_or (get_array (JObject m) ''variables'') [])). splits_character k e)) \<and>
   (\<forall>out. truncate_variables_response n k (JObject m) = Some out \<longrightarrow>
      (\<exists>limited. get_array out ''variables'' = Some limited \<and> length limited \<le> n \<and>
         (\<forall>e \<in> set limited. \<forall>s. get_str e ''value'' = Some s \<longrightarrow> length s \<le> k + 3)) \<and>
      jget out ''variableCount'' = Some (jint (int (length (unwrap_or (get_array (JObject m) ''variables'') [])))) \<and>
      get_bool out ''truncated'' = Some (n < length (unwrap_or (get_array (JObject m) ''variables'') [])) \<and>
      (\<forall>key. key \<notin> {''variables'', ''variableCount'', ''truncated''} \<longrightarrow> jget out key = obj_get m key))"
proof -
  define vars where "vars = unwrap_or (get_array (JObject m) ''variables'') []"
  have vars: "unwrap_or (Option.bind (obj_get m ''variables'') as_array) [] = vars" by (simp add: vars_def)
  have none: "truncate_variables_response n k (JObject m) = None \<longleftrightarrow>
      None \<in> set (map (truncate_variable_entry k) (take n vars))"
    using all_some_None [of "map (truncate_variable_entry k) (take n vars)"]
    by (cases "all_some (map (truncate_variable_entry k) (take n vars))")
       (simp_all add: truncate_variables_response_def vars Let_def)
  have some: "\<exists>limited. map (truncate_variable_entry k) (take n vars) = map Some limited \<and>
      out = JObject (obj_insert ''truncated'' (JBool (n < length vars))
        (obj_insert ''variableCount'' (jint (int (length vars))) (obj_insert ''variables'' (JArray limited) m)))"
    if "truncate_variables_response n k (JObject m) = Some out" for out
    using that
    by (auto simp: truncate_variables_response_def vars all_some_iff Let_def split: option.splits)
  have short: "length s \<le> k + 3"
    if "map (truncate_variable_entry k) (take n vars) = map Some limited" "e \<in> set limited"
      "get_str e ''value'' = Some s" for limited e s
  proof -
    have "Some e \<in> set (map (truncate_variable_entry k) (take n vars))" using that(1,2) by simp
    then show ?thesis using truncate_entry_short [OF _ that(3)] by auto
  qed
  have len: "length limited \<le> n"
    if "map (truncate_variable_entry k) (take n vars) = map Some limited" for limited
    using arg_cong [OF that, of length] by simp
  show ?thesis
    unfolding vars_def [symmetric]
  proof (intro conjI allI impI)
    show "truncate_variables_response n k (JObject m) = None \<longleftrightarrow> (\<exists>e \<in> set (take n vars). splits_character k e)"
      unfolding none using truncate_entry_None [of k] by (auto simp: image_iff) metis+
    fix out assume out: "truncate_variables_response n k (JObject m) = Some out"
    obtain limited where l: "map (truncate_variable_entry k) (take n vars) = map Some limited"
      and o: "out = JObject (obj_insert ''truncated'' (JBool (n < length vars))
        (obj_insert ''variableCount'' (jint (int (length vars))) (obj_insert ''variables'' (JArray limited) m)))"
      using some [OF out] by blast
    show "\<exists>limited. get_array out ''variables'' = Some limited \<and> length limited \<le> n \<and>
        (\<forall>e \<in> set limited. \<forall>s. get_str e ''value'' = Some s \<longrightarrow> length s \<le> k + 3)"
      using len [OF l] short [OF l] by (intro exI [of _ limited]) (simp add: o)
    show "jget out ''variableCount'' = Some (jint (int (length vars)))" by (simp add: o)
    show "get_bool out ''truncated'' = Some (n < length vars)" by (simp add: o)
    show "jget out key = obj_get m key" if "key \<notin> {''variables'', ''variableCount'', ''truncated''}" for key
      using that by (simp add: o)
  qed
qed

lemma truncation_bounds_witness:
  "truncate_variables_response 1 1 (jobj [(''variables'', JArray [jobj [(''value'', JString [CHR 0xC3, CHR 0xA9])]])]) = None \<and>
   truncate_variables_response 1 2 (jobj [(''variables'', JArray [jobj [(''value'', JString [CHR 0xC3, CHR 0xA9])], JNull])])
     \<noteq> None"
proof -
  have obj: "jobj [(''variables'', x)] = JObject [(''variables'', x)]" for x by (simp add: jobj_def obj_insert_all_def)
  show ?thesis
    unfolding obj
    using truncation_bounds [of 1 1 "[(''variables'', JArray [jobj [(''value'', JString [CHR 0xC3, CHR 0xA9])]])]"]
      truncation_bounds [of 1 2 "[(''variables'', JArray [jobj [(''value'', JString [CHR 0xC3, CHR 0xA9])], JNull])]"]
    by (simp add: splits_character_def is_char_boundary_def jobj_def obj_insert_all_def)
qed

text \<open>C38: The loop over the parts of a skip pattern decides what the pattern means: with stars it
  is matched against the whole path, a star standing for any text; without one it is searched
  for anywhere in the path. The empty pattern matches nothing.\<close>

theorem skip_pattern_glob:
  "path_matches_skip path pattern \<longleftrightarrow>
     pattern \<noteq> [] \<and> glob (if CHR ''*'' \<in> set pattern then pattern else CHR ''*'' # pattern @ ''*'') path"
proof (cases "CHR ''*'' \<in> set pattern")
  case True
  then have "pattern \<noteq> []" by auto
  with True show ?thesis by (simp add: path_matches_skip_def match_parts_start)
next
  case False
  then show ?thesis by (auto simp: path_matches_skip_def glob_around simp del: glob.simps)
qed

text \<open>A hit condition made of an operator (or none) and a number that fits the counter is
  satisfied exactly when its words say so; a number alone is a lower bound, and a modulus of
  zero counts as one.\<close>

theorem hit_count_semantics:
  assumes "operator \<in> {'''', ''>='', ''<='', ''>'', ''<'', ''%''}" and "n < 2 ^ 32"
  shows "hit_count_matches (operator @ show_nat n) count \<longleftrightarrow> hit_condition_means operator n count"
  using assms by (rule hit_count_operator)

lemma hit_count_semantics_witness: "hit_count_matches (''%'' @ show_nat 3) 9 \<and> \<not> hit_count_matches (''>'' @ show_nat 3) 3"
  using hit_count_semantics [of "''%''" 3 9] hit_count_semantics [of "''>''" 3 3]
  by (simp add: hit_condition_means_def)

text \<open>Two source paths are compared symmetrically, and they match as soon as one is a suffix of
  the other, at a component boundary or not, or they have the same file name, in whatever
  directories: \<open>main.py\<close> matches \<open>/p/domain.py\<close>, and \<open>/a/x.py\<close> matches \<open>/b/x.py\<close>.\<close>

theorem source_paths_overmatch:
  "(source_paths_match a b \<longleftrightarrow> source_paths_match b a) \<and>
   (ends_with (normalize_path b) (normalize_path a) \<longrightarrow> source_paths_match a b) \<and>
   (file_name (normalize_path a) = Some f \<and> file_name (normalize_path b) = Some f \<longrightarrow> source_paths_match a b)"
  using source_paths_match_sym [of a b] by (auto simp: source_paths_match_def Let_def)

lemma source_paths_overmatch_witness:
  "source_paths_match ''main.py'' ''/p/domain.py'' \<and> source_paths_match ''/a/x.py'' ''/b/x.py''"
proof -
  have "ends_with (normalize_path ''/p/domain.py'') (normalize_path ''main.py'')"
    "file_name (normalize_path ''/a/x.py'') = Some ''x.py''" "file_name (normalize_path ''/b/x.py'') = Some ''x.py''"
    by code_simp+
  then show ?thesis
    using source_paths_overmatch [of "''main.py''" "''/p/domain.py''"]
      source_paths_overmatch [of "''/a/x.py''" "''/b/x.py''" "''x.py''"] by blast
qed

text \<open>C39: The bytes of a hex payload are read back from their two-digit form, up to the size limit;
  a payload of odd length is refused; and a pair with a plus sign is read as a one-digit number,
  which is not a byte in hex.\<close>

theorem hex_payload_roundtrip:
  "(bs \<noteq> [] \<and> length bs \<le> max_write_bytes \<and> (\<forall>b \<in> set bs. b < 256) \<longrightarrow>
      hex_string_to_bytes (hex_text bs) = Success bs) \<and>
   (odd (length (trim t)) \<longrightarrow> (\<exists>e. hex_string_to_bytes t = Failure e)) \<and>
   (d < 16 \<longrightarrow> hex_string_to_bytes [CHR ''+'', hex_char d] = Success [d])"
proof (intro conjI impI)
  assume "bs \<noteq> [] \<and> length bs \<le> max_write_bytes \<and> (\<forall>b \<in> set bs. b < 256)"
  then show "hex_string_to_bytes (hex_text bs) = Success bs" by (intro hex_bytes_of_text) auto
next
  assume "odd (length (trim t))"
  then show "\<exists>e. hex_string_to_bytes t = Failure e" by (auto simp: hex_string_to_bytes_def Let_def)
next
  assume d: "d < 16"
  have "solid CHR ''+''" by (simp add: solid_def ws_seqs_def)
  then have "trim [CHR ''+'', hex_char d] = [CHR ''+'', hex_char d]"
    using hex_char_solid [OF d] by (intro trim_solid) simp_all
  moreover have "slice_range [CHR ''+'', hex_char d] 0 (Suc (Suc 0)) = Some [CHR ''+'', hex_char d]"
    by (simp add: slice_range_def is_char_boundary_def)
  moreover have "parse_u8_hex [CHR ''+'', hex_char d] = Some d"
    using d by (simp add: parse_u8_hex_def parse_radix_def strip_plus_def digit_val_hex_char)
  ultimately show "hex_string_to_bytes [CHR ''+'', hex_char d] = Success [d]"
    by (simp add: hex_string_to_bytes_def step_by_two_def max_write_bytes_def Let_def)
qed

lemma hex_payload_roundtrip_witness:
  "hex_string_to_bytes (hex_text [72, 101]) = Success [72, 101] \<and>
   hex_string_to_bytes [CHR ''+'', hex_char 15] = Success [15]"
  using hex_payload_roundtrip [of "[72, 101]" "''''" 15] by (simp add: max_write_bytes_def)

end
