(* ===== verification/CoreClient.thy ===== *)
theory CoreClient imports CoreState InstStore begin

text \<open>
  The buffered DAP client of \<open>dap-core/src/control_client.rs\<close> (also \<open>DapClient\<close>) with
  \<open>roundtrip_request\<close> of \<open>mux_bridge.rs\<close>. The transport is the list of what will arrive: whole
  messages, the end of the stream, a protocol error, and the moments at which the timeout of the
  wait in progress expires, if it has one. A list that has run out is a closed stream. What is
  written goes to a log.
\<close>

section \<open>The transport\<close>

datatype arrival = Arrives message | Closed | Broken string | Elapsed

text \<open>How a wait for a message ends.\<close>

datatype 'a wait_end = Found 'a | StreamEnd | StreamError string | TimedOut

text \<open>
  The shape of every read loop: take messages off the wire until a wanted one, and give those
  passed over. The end of the stream is seen again by the next read; an expired timeout only
  matters to a wait that has one.
\<close>

fun await_message ::
    "bool \<Rightarrow> (message \<Rightarrow> bool) \<Rightarrow> arrival list \<Rightarrow> message list \<times> message wait_end \<times> arrival list" where
  "await_message timed wanted [] = ([], StreamEnd, [])"
| "await_message timed wanted (Arrives m # w) =
     (if wanted m then ([], Found m, w) else apfst ((#) m) (await_message timed wanted w))"
| "await_message timed wanted (Closed # w) = ([], StreamEnd, Closed # w)"
| "await_message timed wanted (Broken e # w) = ([], StreamError e, w)"
| "await_message timed wanted (Elapsed # w) =
     (if timed then ([], TimedOut, w) else await_message timed wanted w)"

text \<open>The messages that are still to be read.\<close>

fun arriving :: "arrival list \<Rightarrow> message list" where
  "arriving [] = []"
| "arriving (Arrives m # w) = m # arriving w"
| "arriving (_ # w) = arriving w"

lemma await_found:
  "await_message timed wanted w = (passed, Found m, w') \<Longrightarrow>
     wanted m \<and> list_all (\<lambda>x. \<not> wanted x) passed \<and> arriving w = passed @ m # arriving w'"
  by (induction timed wanted w arbitrary: passed rule: await_message.induct)
     (auto split: if_splits prod.splits simp: apfst_def map_prod_def)

lemma await_none:
  "await_message timed wanted w = (passed, r, w') \<Longrightarrow> \<forall>m. r \<noteq> Found m \<Longrightarrow>
     list_all (\<lambda>x. \<not> wanted x) passed \<and> arriving w = passed @ arriving w'"
  by (induction timed wanted w arbitrary: passed rule: await_message.induct)
     (auto split: if_splits prod.splits simp: apfst_def map_prod_def)

lemma await_first:
  "list_all (\<lambda>x. \<not> wanted x) passed \<Longrightarrow> wanted m \<Longrightarrow>
     await_message timed wanted (map Arrives passed @ Arrives m # w) = (passed, Found m, w)"
  by (induction passed) auto

section \<open>The client\<close>

record client =
  cl_seq :: int
  cl_pending :: "message list"
  cl_capabilities :: capabilities
  cl_wire :: "arrival list"
  cl_sent :: "message list"
  cl_write_error :: "string option"

datatype client_error =
    Timeout string
  | ChannelClosed string
  | Transport string
  | Unexpected
  | Ambiguous string

definition client_from_duplex :: "arrival list \<Rightarrow> client" where
  "client_from_duplex w =
     \<lparr>cl_seq = 1, cl_pending = [], cl_capabilities = capabilities_unknown, cl_wire = w, cl_sent = [],
      cl_write_error = None\<rparr>"

text \<open>Everything the client holds or will still receive, in the order it reads it.\<close>

definition available :: "client \<Rightarrow> message list" where
  "available c = cl_pending c @ arriving (cl_wire c)"

definition set_capabilities :: "capabilities \<Rightarrow> client \<Rightarrow> client" where
  "set_capabilities caps c = c\<lparr>cl_capabilities := caps\<rparr>"

definition buffer_message :: "message \<Rightarrow> client \<Rightarrow> client" where
  "buffer_message m c = c\<lparr>cl_pending := cl_pending c @ [m]\<rparr>"

definition response_matches_seq :: "int \<Rightarrow> message \<Rightarrow> bool" where
  "response_matches_seq n m \<longleftrightarrow> (case m of Response r \<Rightarrow> rs_request_seq r = n | _ \<Rightarrow> False)"

definition response_matches_command :: "string \<Rightarrow> message \<Rightarrow> bool" where
  "response_matches_command cmd m \<longleftrightarrow> (case m of Response r \<Rightarrow> rs_command r = Some cmd | _ \<Rightarrow> False)"

definition event_named :: "string \<Rightarrow> message \<Rightarrow> bool" where
  "event_named name m \<longleftrightarrow> (case m of Event e \<Rightarrow> ev_event e = name | _ \<Rightarrow> False)"

fun take_matching :: "(message \<Rightarrow> bool) \<Rightarrow> message list \<Rightarrow> (message \<times> message list) option" where
  "take_matching wanted [] = None"
| "take_matching wanted (m # ms) =
     (if wanted m then Some (m, ms) else map_option (apsnd ((#) m)) (take_matching wanted ms))"

lemma take_matching_Some:
  "take_matching wanted ms = Some (m, rest) \<Longrightarrow>
     wanted m \<and> (\<exists>xs ys. ms = xs @ m # ys \<and> rest = xs @ ys \<and> list_all (\<lambda>x. \<not> wanted x) xs)"
proof (induction ms arbitrary: rest)
  case (Cons a ms)
  show ?case
  proof (cases "wanted a")
    case True
    then show ?thesis using Cons.prems by (auto intro: exI [of _ "[]"])
  next
    case False
    then obtain r where r: "take_matching wanted ms = Some (m, r)" "rest = a # r" using Cons.prems by auto
    then obtain xs ys where "wanted m" "ms = xs @ m # ys" "r = xs @ ys" "list_all (\<lambda>x. \<not> wanted x) xs"
      using Cons.IH by blast
    then have "a # ms = (a # xs) @ m # ys" "rest = (a # xs) @ ys" "list_all (\<lambda>x. \<not> wanted x) (a # xs)"
      using False r(2) by simp_all
    then show ?thesis using \<open>wanted m\<close> by blast
  qed
qed simp

lemma take_matching_None: "take_matching wanted ms = None \<longleftrightarrow> list_all (\<lambda>x. \<not> wanted x) ms"
  by (induction ms) auto

subsection \<open>Sending and receiving\<close>

definition send_dap_request :: "string \<Rightarrow> json option \<Rightarrow> client \<Rightarrow> (client_error + int) \<times> client" where
  "send_dap_request cmd args c =
     (let n = cl_seq c; c = c\<lparr>cl_seq := wrap_i64 (n + 1)\<rparr>;
          r = Request \<lparr>rq_seq = n, rq_command = cmd, rq_arguments = args\<rparr>
      in case cl_write_error c of
           Some e \<Rightarrow> (Inl (Transport e), c)
         | None \<Rightarrow> (Inr n, c\<lparr>cl_sent := cl_sent c @ [r]\<rparr>))"

text \<open>The loop that buffers what it passes over, with the text its errors name.\<close>

definition await_buffering ::
    "bool \<Rightarrow> (message \<Rightarrow> bool) \<Rightarrow> string \<Rightarrow> string \<Rightarrow> client \<Rightarrow> (client_error + message) \<times> client" where
  "await_buffering timed wanted late closed c =
     (case await_message timed wanted (cl_wire c) of
        (passed, r, w) \<Rightarrow>
          (let c' = c\<lparr>cl_pending := cl_pending c @ passed, cl_wire := w\<rparr>
           in case r of
                Found m \<Rightarrow> (Inr m, c')
              | StreamEnd \<Rightarrow> (Inl (ChannelClosed closed), c')
              | StreamError e \<Rightarrow> (Inl (Transport e), c')
              | TimedOut \<Rightarrow> (Inl (Timeout late), c')))"

definition recv_from_wire :: "client \<Rightarrow> (client_error + message option) \<times> client" where
  "recv_from_wire c =
     (case await_message False (\<lambda>_. True) (cl_wire c) of
        (_, r, w) \<Rightarrow>
          (let c' = c\<lparr>cl_wire := w\<rparr>
           in case r of
                Found m \<Rightarrow> (Inr (Some m), c')
              | StreamError e \<Rightarrow> (Inl (Transport e), c')
              | _ \<Rightarrow> (Inr None, c')))"

definition recv_next :: "client \<Rightarrow> (client_error + message option) \<times> client" where
  "recv_next c =
     (case cl_pending c of
        m # ms \<Rightarrow> (Inr (Some m), c\<lparr>cl_pending := ms\<rparr>)
      | [] \<Rightarrow> recv_from_wire c)"

definition read_message_client :: "client \<Rightarrow> (client_error + message option) \<times> client" where
  "read_message_client c = recv_next c"

definition recv_timeout :: "client \<Rightarrow> (client_error + message option) \<times> client" where
  "recv_timeout c =
     (case cl_pending c of
        m # ms \<Rightarrow> (Inr (Some m), c\<lparr>cl_pending := ms\<rparr>)
      | [] \<Rightarrow>
          (case await_message True (\<lambda>_. True) (cl_wire c) of
             (_, r, w) \<Rightarrow>
               (let c' = c\<lparr>cl_wire := w\<rparr>
                in case r of
                     Found m \<Rightarrow> (Inr (Some m), c')
                   | StreamError e \<Rightarrow> (Inl (Transport e), c')
                   | _ \<Rightarrow> (Inr None, c'))))"

definition wait_for_response_seq :: "int \<Rightarrow> client \<Rightarrow> (client_error + message) \<times> client" where
  "wait_for_response_seq n c =
     (case take_matching (response_matches_seq n) (cl_pending c) of
        Some (m, rest) \<Rightarrow> (Inr m, c\<lparr>cl_pending := rest\<rparr>)
      | None \<Rightarrow> await_buffering False (response_matches_seq n) [] (''response to seq '' @ show_int n) c)"

definition wait_for_response_named :: "string \<Rightarrow> client \<Rightarrow> (client_error + message) \<times> client" where
  "wait_for_response_named cmd c =
     (case take_matching (response_matches_command cmd) (cl_pending c) of
        Some (m, rest) \<Rightarrow> (Inr m, c\<lparr>cl_pending := rest\<rparr>)
      | None \<Rightarrow> await_buffering False (response_matches_command cmd) [] (''response to '' @ cmd) c)"

text \<open>Both the deadline and the end of the stream are reported as a timeout.\<close>

definition wait_for_event :: "string \<Rightarrow> client \<Rightarrow> (client_error + message) \<times> client" where
  "wait_for_event name c =
     (case take_matching (event_named name) (cl_pending c) of
        Some (m, rest) \<Rightarrow> (Inr m, c\<lparr>cl_pending := rest\<rparr>)
      | None \<Rightarrow>
          (case await_buffering True (event_named name) name name c of
             (Inl (ChannelClosed _), c') \<Rightarrow> (Inl (Timeout name), c')
           | r \<Rightarrow> r))"

definition send_and_wait_for_event :: "string \<Rightarrow> json option \<Rightarrow> string \<Rightarrow> client \<Rightarrow> (client_error + int) \<times> client" where
  "send_and_wait_for_event cmd args name c =
     (case send_dap_request cmd args c of
        (Inl e, c1) \<Rightarrow> (Inl e, c1)
      | (Inr n, c1) \<Rightarrow>
          (case await_buffering True (event_named name) (''event '' @ name) (''event '' @ name) c1 of
             (Inl e, c2) \<Rightarrow> (Inl e, c2)
           | (Inr _, c2) \<Rightarrow> (Inr n, c2)))"

definition dap_request_preserve_events :: "string \<Rightarrow> json option \<Rightarrow> client \<Rightarrow> (client_error + message) \<times> client" where
  "dap_request_preserve_events cmd args c =
     (case send_dap_request cmd args c of
        (Inl e, c1) \<Rightarrow> (Inl e, c1)
      | (Inr n, c1) \<Rightarrow> await_buffering True (response_matches_seq n) cmd (''response to '' @ cmd) c1)"

text \<open>\<open>roundtrip_request\<close> passes over what is not its response without keeping it.\<close>

definition dap_request :: "string \<Rightarrow> json option \<Rightarrow> client \<Rightarrow> (client_error + message) \<times> client" where
  "dap_request cmd args c =
     (case send_dap_request cmd args c of
        (Inl e, c1) \<Rightarrow> (Inl e, c1)
      | (Inr n, c1) \<Rightarrow>
          (case await_message True (response_matches_seq n) (cl_wire c1) of
             (_, r, w) \<Rightarrow>
               (let c2 = c1\<lparr>cl_wire := w\<rparr>
                in case r of
                     Found m \<Rightarrow> (Inr m, c2)
                   | StreamEnd \<Rightarrow> (Inl (ChannelClosed (''response to '' @ cmd)), c2)
                   | StreamError e \<Rightarrow> (Inl (Transport e), c2)
                   | TimedOut \<Rightarrow> (Inl (Timeout cmd), c2))))"

fun drain_wire :: "arrival list \<Rightarrow> (client_error + message list) \<times> arrival list" where
  "drain_wire [] = (Inr [], [])"
| "drain_wire (Arrives m # w) = (case drain_wire w of (Inr ms, w') \<Rightarrow> (Inr (m # ms), w') | (Inl e, w') \<Rightarrow> (Inl e, w'))"
| "drain_wire (Closed # w) = (Inr [], Closed # w)"
| "drain_wire (Broken e # w) = (Inl (Transport e), w)"
| "drain_wire (Elapsed # w) = (Inr [], w)"

text \<open>
  \<open>drain\<close> reads until a short wait expires, waits once more, and when that brought a message reads on.
  A transport error loses everything drained so far.
\<close>

definition drain :: "bool \<Rightarrow> client \<Rightarrow> (client_error + message list) \<times> client" where
  "drain zero c =
     (let messages = cl_pending c; c = c\<lparr>cl_pending := []\<rparr>
      in if zero then (Inr messages, c)
         else case drain_wire (cl_wire c) of
             (Inl e, w) \<Rightarrow> (Inl e, c\<lparr>cl_wire := w\<rparr>)
           | (Inr ms, w) \<Rightarrow>
               (case recv_timeout (c\<lparr>cl_wire := w\<rparr>) of
                  (Inl e, c2) \<Rightarrow> (Inl e, c2)
                | (Inr None, c2) \<Rightarrow> (Inr (messages @ ms), c2)
                | (Inr (Some m), c2) \<Rightarrow>
                    (case drain_wire (cl_wire c2) of
                       (Inl e, w2) \<Rightarrow> (Inl e, c2\<lparr>cl_wire := w2\<rparr>)
                     | (Inr ms2, w2) \<Rightarrow> (Inr (messages @ ms @ m # ms2), c2\<lparr>cl_wire := w2\<rparr>))))"

subsection \<open>Connecting\<close>

text \<open>The late-join replay restores the capabilities and stays buffered.\<close>

fun absorb_message :: "message \<Rightarrow> client \<Rightarrow> client" where
  "absorb_message (Response r) c =
     buffer_message (Response r)
       (if rs_command r = Some ''initialize''
        then case from_initialize_message (Response r) of Some caps \<Rightarrow> c\<lparr>cl_capabilities := caps\<rparr> | None \<Rightarrow> c
        else c)"
| "absorb_message m c = buffer_message m c"

definition absorb_late_join_replay :: "client \<Rightarrow> (client_error + unit) \<times> client" where
  "absorb_late_join_replay c =
     (case drain False c of
        (Inl e, c') \<Rightarrow> (Inl e, c')
      | (Inr ms, c') \<Rightarrow> (Inr (), foldl (\<lambda>c m. absorb_message m c) c' ms))"

definition client_connect :: "arrival list \<Rightarrow> client_error + client" where
  "client_connect w =
     (case absorb_late_join_replay (client_from_duplex w) of (Inl e, _) \<Rightarrow> Inl e | (Inr _, c) \<Rightarrow> Inr c)"

section \<open>Requests\<close>

text \<open>The body of a response, whether it reports success or not.\<close>

definition response_body :: "message \<Rightarrow> client_error + json" where
  "response_body m = (case m of Response r \<Rightarrow> Inr (opt_json (rs_body r)) | _ \<Rightarrow> Inl Unexpected)"

definition request_body :: "string \<Rightarrow> json option \<Rightarrow> client \<Rightarrow> (client_error + json) \<times> client" where
  "request_body cmd args c =
     (case dap_request cmd args c of
        (Inl e, c') \<Rightarrow> (Inl e, c')
      | (Inr m, c') \<Rightarrow> (response_body m, c'))"

definition with_field :: "string \<Rightarrow> json option \<Rightarrow> json \<Rightarrow> json" where
  "with_field k x v = (case (x, v) of (Some y, JObject m) \<Rightarrow> JObject (obj_insert k y m) | _ \<Rightarrow> v)"

abbreviation with_int :: "string \<Rightarrow> int option \<Rightarrow> json \<Rightarrow> json" where
  "with_int k n v \<equiv> with_field k (map_option jint n) v"

abbreviation with_str :: "string \<Rightarrow> string option \<Rightarrow> json \<Rightarrow> json" where
  "with_str k s v \<equiv> with_field k (map_option JString s) v"

definition source_of :: "string \<Rightarrow> json" where
  "source_of path = jobj [(''path'', JString path)]"

definition threads :: "client \<Rightarrow> (client_error + json) \<times> client" where
  "threads c = request_body ''threads'' (Some (jobj [])) c"

definition stack_trace_with_options ::
    "int \<Rightarrow> int option \<Rightarrow> int option \<Rightarrow> client \<Rightarrow> (client_error + json) \<times> client" where
  "stack_trace_with_options thread start_frame levels c =
     request_body ''stackTrace''
       (Some (with_int ''levels'' levels (with_int ''startFrame'' start_frame (jobj [(''threadId'', jint thread)])))) c"

definition stack_trace :: "int \<Rightarrow> client \<Rightarrow> (client_error + json) \<times> client" where
  "stack_trace thread c = stack_trace_with_options thread None None c"

definition read_memory :: "string \<Rightarrow> int \<Rightarrow> int option \<Rightarrow> client \<Rightarrow> (client_error + json) \<times> client" where
  "read_memory reference count off c =
     request_body ''readMemory''
       (Some (with_int ''offset'' off (jobj [(''memoryReference'', JString reference), (''count'', jint count)]))) c"

definition write_memory ::
    "string \<Rightarrow> string \<Rightarrow> int option \<Rightarrow> bool option \<Rightarrow> client \<Rightarrow> (client_error + json) \<times> client" where
  "write_memory reference data_base64 off allow_partial c =
     request_body ''writeMemory''
       (Some (with_field ''allowPartial'' (map_option JBool allow_partial)
         (with_int ''offset'' off (jobj [(''memoryReference'', JString reference), (''data'', JString data_base64)])))) c"

record source_breakpoint_spec =
  sb_line :: int
  sb_condition :: "string option"
  sb_hit_condition :: "string option"
  sb_log_message :: "string option"

record exception_breakpoint_spec =
  xb_filter :: string
  xb_condition :: "string option"

definition source_breakpoint_line :: "int \<Rightarrow> source_breakpoint_spec" where
  "source_breakpoint_line n = \<lparr>sb_line = n, sb_condition = None, sb_hit_condition = None, sb_log_message = None\<rparr>"

definition source_breakpoint_json :: "source_breakpoint_spec \<Rightarrow> json" where
  "source_breakpoint_json b =
     with_str ''logMessage'' (sb_log_message b) (with_str ''hitCondition'' (sb_hit_condition b)
       (with_str ''condition'' (sb_condition b) (jobj [(''line'', jint (sb_line b))])))"

definition set_breakpoints :: "string \<Rightarrow> source_breakpoint_spec list \<Rightarrow> client \<Rightarrow> (client_error + json) \<times> client" where
  "set_breakpoints path bps c =
     request_body ''setBreakpoints''
       (Some (jobj [(''source'', source_of path), (''breakpoints'', JArray (map source_breakpoint_json bps))])) c"

definition scopes :: "int \<Rightarrow> client \<Rightarrow> (client_error + json) \<times> client" where
  "scopes frame c = request_body ''scopes'' (Some (jobj [(''frameId'', jint frame)])) c"

definition variables :: "int \<Rightarrow> client \<Rightarrow> (client_error + json) \<times> client" where
  "variables reference c = request_body ''variables'' (Some (jobj [(''variablesReference'', jint reference)])) c"

definition evaluate :: "string \<Rightarrow> int option \<Rightarrow> client \<Rightarrow> (client_error + json) \<times> client" where
  "evaluate expression frame c =
     request_body ''evaluate'' (Some (with_int ''frameId'' frame (jobj [(''expression'', JString expression)]))) c"

definition set_variable :: "string \<Rightarrow> string \<Rightarrow> int \<Rightarrow> client \<Rightarrow> (client_error + json) \<times> client" where
  "set_variable name v reference c =
     request_body ''setVariable''
       (Some (jobj [(''variablesReference'', jint reference), (''name'', JString name), (''value'', JString v)])) c"

definition set_expression :: "string \<Rightarrow> string \<Rightarrow> int option \<Rightarrow> client \<Rightarrow> (client_error + json) \<times> client" where
  "set_expression expression v frame c =
     request_body ''setExpression''
       (Some (with_int ''frameId'' frame (jobj [(''expression'', JString expression), (''value'', JString v)]))) c"

definition set_function_breakpoints :: "string list \<Rightarrow> client \<Rightarrow> (client_error + json) \<times> client" where
  "set_function_breakpoints names c =
     request_body ''setFunctionBreakpoints''
       (Some (jobj [(''breakpoints'', JArray (map (\<lambda>n. jobj [(''name'', JString n)]) names))])) c"

definition breakpoint_locations :: "string \<Rightarrow> int \<Rightarrow> int option \<Rightarrow> client \<Rightarrow> (client_error + json) \<times> client" where
  "breakpoint_locations path line end_line c =
     request_body ''breakpointLocations''
       (Some (with_int ''endLine'' end_line (jobj [(''source'', source_of path), (''line'', jint line)]))) c"

definition goto_targets :: "string \<Rightarrow> int \<Rightarrow> client \<Rightarrow> (client_error + json) \<times> client" where
  "goto_targets path line c =
     request_body ''gotoTargets'' (Some (jobj [(''source'', source_of path), (''line'', jint line)])) c"

definition goto_target :: "int \<Rightarrow> int \<Rightarrow> client \<Rightarrow> (client_error + json) \<times> client" where
  "goto_target thread target c =
     request_body ''goto'' (Some (jobj [(''threadId'', jint thread), (''targetId'', jint target)])) c"

definition completions :: "string \<Rightarrow> int \<Rightarrow> int option \<Rightarrow> client \<Rightarrow> (client_error + json) \<times> client" where
  "completions txt column frame c =
     request_body ''completions''
       (Some (with_int ''frameId'' frame (jobj [(''text'', JString txt), (''column'', jint column)]))) c"

definition restart_frame :: "int \<Rightarrow> client \<Rightarrow> (client_error + json) \<times> client" where
  "restart_frame frame c = request_body ''restartFrame'' (Some (jobj [(''frameId'', jint frame)])) c"

definition disassemble :: "string \<Rightarrow> int \<Rightarrow> int \<Rightarrow> client \<Rightarrow> (client_error + json) \<times> client" where
  "disassemble reference off count c =
     request_body ''disassemble''
       (Some (jobj [(''memoryReference'', JString reference), (''offset'', jint off), (''instructionCount'', jint count)])) c"

definition set_instruction_breakpoints :: "json list \<Rightarrow> client \<Rightarrow> (client_error + json) \<times> client" where
  "set_instruction_breakpoints bps c =
     request_body ''setInstructionBreakpoints'' (Some (jobj [(''breakpoints'', JArray bps)])) c"

definition set_data_breakpoints :: "json list \<Rightarrow> client \<Rightarrow> (client_error + json) \<times> client" where
  "set_data_breakpoints bps c = request_body ''setDataBreakpoints'' (Some (jobj [(''breakpoints'', JArray bps)])) c"

definition exception_filter_options :: "exception_breakpoint_spec list \<Rightarrow> json list" where
  "exception_filter_options bps =
     List.map_filter (\<lambda>b. map_option
       (\<lambda>cond. jobj [(''filterId'', JString (xb_filter b)), (''condition'', JString cond)]) (xb_condition b)) bps"

definition set_exception_breakpoints ::
    "exception_breakpoint_spec list \<Rightarrow> bool \<Rightarrow> client \<Rightarrow> (client_error + json) \<times> client" where
  "set_exception_breakpoints bps supports_filter_options c =
     (let args = jobj [(''filters'', JArray (map (\<lambda>b. JString (xb_filter b)) bps))];
          opts = exception_filter_options bps
      in request_body ''setExceptionBreakpoints''
           (Some (if supports_filter_options \<and> opts \<noteq> [] then with_field ''filterOptions'' (Some (JArray opts)) args
                  else args)) c)"

definition proxy_plugin_info :: "client \<Rightarrow> (client_error + json) \<times> client" where
  "proxy_plugin_info c = request_body ''dapProxyPluginInfo'' None c"

definition session_breakpoint_snapshot :: "string \<Rightarrow> client \<Rightarrow> (client_error + json) \<times> client" where
  "session_breakpoint_snapshot snapshot_name c = request_body snapshot_name None c"

section \<open>Navigation and status\<close>

record navigate_result =
  nr_navigation_type :: navigation_type
  nr_success :: bool
  nr_stop_reason :: "string option"
  nr_thread_id :: "int option"

fun stopped_fields :: "message \<Rightarrow> string option \<times> int option" where
  "stopped_fields (Event e) =
     (body_str (ev_body e) ''reason'', Option.bind (ev_body e) (\<lambda>b. get_i64 b ''threadId''))"
| "stopped_fields _ = (None, None)"

definition observe_all :: "message list \<Rightarrow> execution_tracker \<Rightarrow> execution_tracker" where
  "observe_all ms t = foldl (\<lambda>t m. apply_message m t) t ms"

definition navigate :: "navigation_type \<Rightarrow> int \<Rightarrow> client \<Rightarrow> (client_error + navigate_result) \<times> client" where
  "navigate n thread c =
     (case dap_request_preserve_events (dap_command n) (Some (navigation_arguments n thread)) c of
        (Inl e, c1) \<Rightarrow> (Inl e, c1)
      | (Inr _, c1) \<Rightarrow>
          (let finish = (\<lambda>reason stopped. \<lparr>nr_navigation_type = n, nr_success = True, nr_stop_reason = reason,
                            nr_thread_id = or_else stopped (Some thread)\<rparr>)
           in if waits_for_stop n then
                (case wait_for_event ''stopped'' c1 of
                   (Inl e, c2) \<Rightarrow> (Inl e, c2)
                 | (Inr m, c2) \<Rightarrow> (Inr (case stopped_fields m of (reason, stopped) \<Rightarrow> finish reason stopped), c2))
              else
                (case drain False c1 of
                   (Inl e, c2) \<Rightarrow> (Inl e, c2)
                 | (Inr ms, c2) \<Rightarrow>
                     (let summary = xt_state (observe_all ms execution_tracker_new)
                      in (Inr (finish (xs_stop_reason summary) (xs_thread_id summary)), c2)))))"

text \<open>The outcome of a disconnect is ignored.\<close>

definition disconnect_with_options :: "bool \<Rightarrow> client \<Rightarrow> client" where
  "disconnect_with_options terminate_debuggee c =
     snd (dap_request ''disconnect'' (Some (jobj [(''terminateDebuggee'', JBool terminate_debuggee)])) c)"

definition disconnect :: "client \<Rightarrow> client" where
  "disconnect c = disconnect_with_options False c"

definition terminate_client :: "client \<Rightarrow> client" where
  "terminate_client c = disconnect_with_options True c"

definition probe_status :: "client \<Rightarrow> (client_error + execution_tracker) \<times> client" where
  "probe_status c =
     (case drain False c of
        (Inl e, c1) \<Rightarrow> (Inl e, c1)
      | (Inr ms, c1) \<Rightarrow>
          (let t = observe_all ms execution_tracker_new
           in if xs_status (xt_state t) \<noteq> StatusUnknown then (Inr t, c1)
              else case threads c1 of
                (Inl e, c2) \<Rightarrow> (Inl e, c2)
              | (Inr _, c2) \<Rightarrow>
                  (case drain False c2 of
                     (Inl e, c3) \<Rightarrow> (Inl e, c3)
                   | (Inr ms2, c3) \<Rightarrow> (Inr (observe_all ms2 t), c3))))"

section \<open>Finding a session\<close>

datatype port_error = StoreFailed instance_error | NoSession | ManySessions "(string \<times> nat) list"

definition resolve_control_port ::
    "(string \<Rightarrow> session_record option) \<Rightarrow> world \<Rightarrow> io \<Rightarrow> nat option \<Rightarrow> string option \<Rightarrow> store
       \<Rightarrow> (port_error + nat) \<times> store" where
  "resolve_control_port decode w io port scope d =
     (case port of
        Some p \<Rightarrow> (Inr p, d)
      | None \<Rightarrow>
          (case store_list_active decode w io d of
             (Inl e, d') \<Rightarrow> (Inl (StoreFailed e), d')
           | (Inr rs, d') \<Rightarrow>
               (let active = filter (\<lambda>r. scope = None \<or> sr_scope r = scope) rs
                in case active of
                     [] \<Rightarrow> (Inl NoSession, d')
                   | [r] \<Rightarrow> (Inr (sr_control_port r), d')
                   | _ \<Rightarrow> (Inl (ManySessions (map (\<lambda>r. (sr_instance_id r, sr_control_port r)) active)), d'))))"

section \<open>What a wait keeps\<close>

text \<open>The first wanted message is taken out, everything else stays in its place.\<close>

definition picks :: "(message \<Rightarrow> bool) \<Rightarrow> message list \<Rightarrow> message \<Rightarrow> message list \<Rightarrow> bool" where
  "picks wanted xs m ys \<longleftrightarrow>
     wanted m \<and> (\<exists>a b. xs = a @ m # b \<and> ys = a @ b \<and> list_all (\<lambda>x. \<not> wanted x) a)"

text \<open>A wait that delivers the first wanted message the client has or gets, and loses nothing.\<close>

fun delivers_first :: "(message \<Rightarrow> bool) \<Rightarrow> client \<Rightarrow> (client_error + message) \<times> client \<Rightarrow> bool" where
  "delivers_first wanted c (Inr m, c') = picks wanted (available c) m (available c')"
| "delivers_first wanted c (Inl e, c') = (available c' = available c)"

lemma picksI:
  "wanted m \<Longrightarrow> xs = a @ m # b \<Longrightarrow> ys = a @ b \<Longrightarrow> list_all (\<lambda>x. \<not> wanted x) a \<Longrightarrow> picks wanted xs m ys"
  by (auto simp: picks_def)

lemma picks_append:
  assumes "list_all (\<lambda>x. \<not> wanted x) zs" and "picks wanted xs m ys"
  shows "picks wanted (zs @ xs) m (zs @ ys)"
proof -
  obtain a b where "wanted m" "xs = a @ m # b" "ys = a @ b" "list_all (\<lambda>x. \<not> wanted x) a"
    using assms(2) by (auto simp: picks_def)
  with assms(1) show ?thesis by (intro picksI [of wanted m _ "zs @ a" b]) auto
qed

lemma await_buffering_pending:
  "await_buffering timed wanted late closed c = (r, c') \<Longrightarrow>
     (case r of
        Inr m \<Rightarrow> \<exists>ws. picks wanted (arriving (cl_wire c)) m ws \<and> available c' = cl_pending c @ ws
      | Inl _ \<Rightarrow> available c' = available c)"
proof -
  assume run: "await_buffering timed wanted late closed c = (r, c')"
  obtain passed res w where a: "await_message timed wanted (cl_wire c) = (passed, res, w)"
    by (cases "await_message timed wanted (cl_wire c)")
  have c': "available c' = cl_pending c @ passed @ arriving w"
    using run a by (auto simp: await_buffering_def available_def Let_def split: wait_end.splits)
  show ?thesis
  proof (cases res)
    case (Found m)
    have "r = Inr m" using run a Found by (simp add: await_buffering_def Let_def)
    moreover have "picks wanted (arriving (cl_wire c)) m (passed @ arriving w)"
      using await_found [of timed wanted "cl_wire c" passed m w] a Found by (auto simp: picks_def)
    ultimately show ?thesis using c' by auto
  qed (use run a c' await_none [OF a] in \<open>auto simp: await_buffering_def available_def Let_def\<close>)
qed

lemma await_buffering_first:
  assumes "take_matching wanted (cl_pending c) = None"
  shows "delivers_first wanted c (await_buffering timed wanted late closed c)"
proof -
  obtain r c' where run: "await_buffering timed wanted late closed c = (r, c')"
    by (cases "await_buffering timed wanted late closed c")
  show ?thesis
    using await_buffering_pending [OF run] assms
    by (cases r) (auto simp: run take_matching_None available_def [of c] intro: picks_append)
qed

lemma take_matching_picks:
  assumes "take_matching wanted (cl_pending c) = Some (m, rest)"
  shows "picks wanted (available c) m (available (c\<lparr>cl_pending := rest\<rparr>))"
proof -
  obtain a b where "wanted m" "cl_pending c = a @ m # b" "rest = a @ b" "list_all (\<lambda>x. \<not> wanted x) a"
    using take_matching_Some [OF assms] by blast
  then show ?thesis by (intro picksI [of wanted m _ a "b @ arriving (cl_wire c)"]) (auto simp: available_def)
qed

lemmas wait_defs = wait_for_event_def wait_for_response_seq_def wait_for_response_named_def

lemma wait_for_response_seq_first: "delivers_first (response_matches_seq n) c (wait_for_response_seq n c)"
  by (auto simp: wait_defs split: option.split intro: take_matching_picks await_buffering_first)

lemma wait_for_response_named_first: "delivers_first (response_matches_command cmd) c (wait_for_response_named cmd c)"
  by (auto simp: wait_defs split: option.split intro: take_matching_picks await_buffering_first)

lemma wait_for_event_first: "delivers_first (event_named name) c (wait_for_event name c)"
proof (cases "take_matching (event_named name) (cl_pending c)")
  case None
  obtain r c' where run: "await_buffering True (event_named name) name name c = (r, c')"
    by (cases "await_buffering True (event_named name) name name c")
  show ?thesis
    using await_buffering_first [OF None, of True name name]
    by (auto simp: wait_defs None run split: sum.split client_error.split)
qed (auto simp: wait_defs intro: take_matching_picks)

lemma preserve_events_pending:
  assumes "dap_request_preserve_events cmd args c = (r, c')"
  shows "case r of
      Inr m \<Rightarrow> \<exists>ws. picks (response_matches_seq (cl_seq c)) (arriving (cl_wire c)) m ws \<and> available c' = cl_pending c @ ws
    | Inl _ \<Rightarrow> available c' = available c"
proof (cases "cl_write_error c")
  case None
  then show ?thesis
    using assms await_buffering_pending [of True "response_matches_seq (cl_seq c)" cmd "''response to '' @ cmd"
        "c\<lparr>cl_seq := wrap_i64 (cl_seq c + 1), cl_sent := cl_sent c @ [Request \<lparr>rq_seq = cl_seq c, rq_command = cmd, rq_arguments = args\<rparr>]\<rparr>"
        r c']
    by (cases r) (simp_all add: dap_request_preserve_events_def send_dap_request_def Let_def available_def)
next
  case (Some e)
  then show ?thesis
    using assms by (auto simp: dap_request_preserve_events_def send_dap_request_def Let_def available_def)
qed

text \<open>The response comes after the messages \<open>passed\<close>: one request keeps them, the other drops them.\<close>

lemma preserve_events_found:
  assumes "cl_write_error c = None" and "cl_wire c = map Arrives passed @ Arrives reply # w"
    and "list_all (\<lambda>m. \<not> response_matches_seq (cl_seq c) m) passed" and "response_matches_seq (cl_seq c) reply"
  shows "dap_request_preserve_events cmd args c = (Inr reply,
    c\<lparr>cl_seq := wrap_i64 (cl_seq c + 1), cl_pending := cl_pending c @ passed, cl_wire := w,
      cl_sent := cl_sent c @ [Request \<lparr>rq_seq = cl_seq c, rq_command = cmd, rq_arguments = args\<rparr>]\<rparr>)"
  using assms await_first [of "response_matches_seq (cl_seq c)" passed reply True w]
  by (simp add: dap_request_preserve_events_def send_dap_request_def await_buffering_def Let_def)

lemma dap_request_found:
  assumes "cl_write_error c = None" and "cl_wire c = map Arrives passed @ Arrives reply # w"
    and "list_all (\<lambda>m. \<not> response_matches_seq (cl_seq c) m) passed" and "response_matches_seq (cl_seq c) reply"
  shows "dap_request cmd args c = (Inr reply,
    c\<lparr>cl_seq := wrap_i64 (cl_seq c + 1), cl_wire := w,
      cl_sent := cl_sent c @ [Request \<lparr>rq_seq = cl_seq c, rq_command = cmd, rq_arguments = args\<rparr>]\<rparr>)"
  using assms await_first [of "response_matches_seq (cl_seq c)" passed reply True w]
  by (simp add: dap_request_def send_dap_request_def Let_def)

lemma wait_for_event_pending:
  assumes "cl_pending c = before @ m # after" and "event_named name m"
    and "list_all (\<lambda>x. \<not> event_named name x) before"
  shows "wait_for_event name c = (Inr m, c\<lparr>cl_pending := before @ after\<rparr>)"
proof -
  have "take_matching (event_named name) (before @ m # after) = Some (m, before @ after)"
    using assms(2,3) by (induction before) auto
  then show ?thesis by (simp add: wait_defs assms(1))
qed

text \<open>Connecting when the replay has arrived and then nothing does for a while.\<close>

lemma drain_wire_map: "drain_wire (map Arrives ms @ Elapsed # w) = (Inr ms, w)"
  by (induction ms) auto

lemma absorb_all:
  "\<exists>caps. foldl (\<lambda>c m. absorb_message m c) c ms = c\<lparr>cl_pending := cl_pending c @ ms, cl_capabilities := caps\<rparr>"
proof (induction ms arbitrary: c)
  case Nil
  show ?case by (rule exI [of _ "cl_capabilities c"]) simp
next
  case (Cons m ms)
  have "\<exists>caps. absorb_message m c = c\<lparr>cl_pending := cl_pending c @ [m], cl_capabilities := caps\<rparr>"
  proof (cases m)
    case (Response r)
    show ?thesis
      unfolding Response absorb_message.simps buffer_message_def
      by (cases c, cases "from_initialize_message (Response r)") auto
  qed (cases c, auto simp: buffer_message_def)+
  then obtain caps where "absorb_message m c = c\<lparr>cl_pending := cl_pending c @ [m], cl_capabilities := caps\<rparr>" by blast
  then show ?case using Cons.IH [of "absorb_message m c"] by auto
qed

lemma connect_replay:
  "\<exists>caps. client_connect (map Arrives replay @ Elapsed # Elapsed # w) =
     Inr ((client_from_duplex w)\<lparr>cl_pending := replay, cl_capabilities := caps\<rparr>)"
proof -
  let ?c = "client_from_duplex (map Arrives replay @ Elapsed # Elapsed # w)"
  have "drain False ?c = (Inr replay, ?c\<lparr>cl_wire := w\<rparr>)"
    by (simp add: drain_def client_from_duplex_def drain_wire_map recv_timeout_def Let_def)
  moreover obtain caps where "foldl (\<lambda>c m. absorb_message m c) (?c\<lparr>cl_wire := w\<rparr>) replay =
      ?c\<lparr>cl_wire := w, cl_pending := cl_pending ?c @ replay, cl_capabilities := caps\<rparr>"
    using absorb_all [of "?c\<lparr>cl_wire := w\<rparr>" replay] by auto
  ultimately show ?thesis
    by (intro exI [of _ caps]) (simp add: client_connect_def absorb_late_join_replay_def client_from_duplex_def)
qed

end
