(* ===== verification/CoreInit.thy ===== *)
theory CoreInit imports CoreClient PluginLaunch begin

text \<open>
  The headless start of a session (\<open>dap-core/src/session_init.rs\<close>): initialize, launch or attach,
  the \<open>initialized\<close> event, \<open>configurationDone\<close> and the first stop, either in the default order or
  in the steps a manifest lists.
\<close>

section \<open>Configuration and results\<close>

record init_config =
  ic_program :: string
  ic_adapter_id :: "string option"
  ic_client_id :: string
  ic_manifest :: "plugin_manifest option"
  ic_launch_overrides :: "json option"

definition init_config_new :: "string \<Rightarrow> init_config" where
  "init_config_new program =
     \<lparr>ic_program = program, ic_adapter_id = None, ic_client_id = ''dap-core'', ic_manifest = None,
      ic_launch_overrides = None\<rparr>"

definition with_adapter_id :: "string \<Rightarrow> init_config \<Rightarrow> init_config" where
  "with_adapter_id i c = c\<lparr>ic_adapter_id := Some i\<rparr>"

definition with_manifest :: "plugin_manifest \<Rightarrow> init_config \<Rightarrow> init_config" where
  "with_manifest m c = c\<lparr>ic_manifest := Some m\<rparr>"

definition with_launch_overrides :: "json \<Rightarrow> init_config \<Rightarrow> init_config" where
  "with_launch_overrides v c = c\<lparr>ic_launch_overrides := Some v\<rparr>"

record entry_location =
  el_path :: string
  el_line :: int
  el_frame_id :: "int option"

record init_result =
  ir_ready :: bool
  ir_stop_reason :: "string option"
  ir_thread_id :: "int option"
  ir_entry_location :: "entry_location option"
  ir_capabilities :: capabilities

text \<open>A failure of the client carries what the code was doing.\<close>

datatype init_error =
    ClientFailed string client_error
  | BadCapabilities
  | UnresolvedEntry string

section \<open>Arguments\<close>

definition session_initialize_arguments :: "host \<Rightarrow> init_config \<Rightarrow> json" where
  "session_initialize_arguments h c =
     (case ic_manifest c of
        Some m \<Rightarrow> build_initialize_arguments h m (ic_client_id c) (ic_adapter_id c)
      | None \<Rightarrow> jobj [(''clientID'', JString (ic_client_id c)),
                (''adapterID'', JString (unwrap_or (ic_adapter_id c) ''dap-proxy'')),
                (''linesStartAt1'', JBool True), (''columnsStartAt1'', JBool True),
                (''pathFormat'', JString ''path''), (''supportsRunInTerminalRequest'', JBool True)])"

fun merge_launch_arguments :: "json \<Rightarrow> json \<Rightarrow> json" where
  "merge_launch_arguments (JObject base) (JObject overrides) = JObject (obj_insert_all base overrides)"
| "merge_launch_arguments base _ = base"

definition session_launch_arguments :: "host \<Rightarrow> init_config \<Rightarrow> json" where
  "session_launch_arguments h c =
     (let args = (case ic_manifest c of
                    Some m \<Rightarrow> build_launch_arguments h m (ic_program c)
                  | None \<Rightarrow> jobj [(''program'', JString (ic_program c))])
      in case ic_launch_overrides c of Some v \<Rightarrow> merge_launch_arguments args v | None \<Rightarrow> args)"

section \<open>Sequences\<close>

text \<open>Running a client operation that names its failure, and then another.\<close>

definition then_do ::
    "string \<Rightarrow> (client_error + 'a) \<times> client \<Rightarrow> ('a \<Rightarrow> client \<Rightarrow> (init_error + 'b) \<times> client) \<Rightarrow> (init_error + 'b) \<times> client" where
  "then_do what out k =
     (case out of
        (Inl e, c) \<Rightarrow> (Inl (ClientFailed what e), c)
      | (Inr x, c) \<Rightarrow> k x c)"

lemma then_do_simps [simp]:
  "then_do what (Inr x, c) k = k x c" "then_do what (Inl e, c) k = (Inl (ClientFailed what e), c)"
  by (simp_all add: then_do_def)

definition run_default_init_sequence :: "string \<Rightarrow> json \<Rightarrow> client \<Rightarrow> (init_error + unit) \<times> client" where
  "run_default_init_sequence request args c =
     then_do request (dap_request_preserve_events request (Some args) c) (\<lambda>_ c.
     then_do ''wait for initialized event'' (wait_for_event ''initialized'' c) (\<lambda>_ c.
     then_do ''configurationDone'' (dap_request_preserve_events ''configurationDone'' (Some (jobj [])) c) (\<lambda>_ c.
     (Inr (), c))))"

text \<open>The arguments of a step; \<open>None\<close> is a request without arguments.\<close>

definition step_arguments :: "host \<Rightarrow> template_ctx \<Rightarrow> string \<Rightarrow> json \<Rightarrow> init_step \<Rightarrow> json option" where
  "step_arguments h ctx request launch_args step =
     (if st_use_launch_arguments step then Some launch_args
      else case st_arguments step of
        Some v \<Rightarrow> resolve_value h ctx v
      | None \<Rightarrow> if st_request step = Some request then Some launch_args else Some (jobj []))"

definition resolve_entry_location :: "host \<Rightarrow> template_ctx \<Rightarrow> record_entry \<Rightarrow> init_error + entry_location" where
  "resolve_entry_location h ctx r =
     (case Option.bind (resolve_value h ctx (JString (re_path r))) as_str of
        Some p \<Rightarrow> Inr \<lparr>el_path = p, el_line = re_line r, el_frame_id = Some 1\<rparr>
      | None \<Rightarrow> Inl (UnresolvedEntry (re_path r)))"

definition record_location ::
    "host \<Rightarrow> template_ctx \<Rightarrow> init_step \<Rightarrow> entry_location option \<Rightarrow> init_error + entry_location option" where
  "record_location h ctx step loc =
     (case st_record_entry step of
        None \<Rightarrow> Inr loc
      | Some r \<Rightarrow> (case resolve_entry_location h ctx r of Inl e \<Rightarrow> Inl e | Inr l \<Rightarrow> Inr (Some l)))"

definition run_init_step ::
    "host \<Rightarrow> template_ctx \<Rightarrow> string \<Rightarrow> json \<Rightarrow> init_step \<Rightarrow> entry_location option \<Rightarrow> client
       \<Rightarrow> (init_error + entry_location option) \<times> client" where
  "run_init_step h ctx request launch_args step loc c =
     (case st_request step of
        None \<Rightarrow>
          (case st_wait_for_response step of
             Some w \<Rightarrow> then_do (''wait for '' @ w @ '' response'') (wait_for_response_named w c) (\<lambda>_ c. (Inr loc, c))
           | None \<Rightarrow> (Inr loc, c))
      | Some cmd \<Rightarrow>
          (let args = step_arguments h ctx request launch_args step
           in case st_wait_for_event step of
                Some ev \<Rightarrow>
                  then_do (cmd @ '' waiting for '' @ ev) (send_and_wait_for_event cmd args ev c) (\<lambda>n c.
                  case record_location h ctx step loc of
                    Inl e \<Rightarrow> (Inl e, c)
                  | Inr loc' \<Rightarrow>
                      if st_wait_for_response step = Some cmd
                      then then_do (''wait for '' @ cmd @ '' response'') (wait_for_response_seq n c) (\<lambda>_ c. (Inr loc', c))
                      else (Inr loc', c))
              | None \<Rightarrow>
                  then_do cmd (dap_request_preserve_events cmd args c) (\<lambda>_ c.
                  case record_location h ctx step loc of
                    Inl e \<Rightarrow> (Inl e, c)
                  | Inr loc' \<Rightarrow>
                      (case st_wait_for_response step of
                         Some w \<Rightarrow> then_do (''wait for '' @ w @ '' response'') (wait_for_response_named w c) (\<lambda>_ c. (Inr loc', c))
                       | None \<Rightarrow> (Inr loc', c)))))"

fun run_init_steps ::
    "host \<Rightarrow> template_ctx \<Rightarrow> string \<Rightarrow> json \<Rightarrow> init_step list \<Rightarrow> entry_location option \<Rightarrow> client
       \<Rightarrow> (init_error + entry_location option) \<times> client" where
  "run_init_steps h ctx request launch_args [] loc c = (Inr loc, c)"
| "run_init_steps h ctx request launch_args (step # steps) loc c =
     (case run_init_step h ctx request launch_args step loc c of
        (Inl e, c') \<Rightarrow> (Inl e, c')
      | (Inr loc', c') \<Rightarrow> run_init_steps h ctx request launch_args steps loc' c')"

definition run_manifest_init_sequence ::
    "host \<Rightarrow> init_config \<Rightarrow> plugin_manifest \<Rightarrow> string \<Rightarrow> json \<Rightarrow> client \<Rightarrow> (init_error + entry_location option) \<times> client" where
  "run_manifest_init_sequence h config m request launch_args c =
     run_init_steps h (template_context h m (ic_program config)) request launch_args (init_steps m) None c"

definition run_init_sequence ::
    "host \<Rightarrow> init_config \<Rightarrow> string \<Rightarrow> json \<Rightarrow> client \<Rightarrow> (init_error + entry_location option) \<times> client" where
  "run_init_sequence h config request args c =
     (case ic_manifest config of
        Some m \<Rightarrow>
          if init_steps m = [] then
            (case run_default_init_sequence request args c of (Inl e, c) \<Rightarrow> (Inl e, c) | (Inr _, c) \<Rightarrow> (Inr None, c))
          else run_manifest_init_sequence h config m request args c
      | None \<Rightarrow>
          (case run_default_init_sequence request args c of (Inl e, c) \<Rightarrow> (Inl e, c) | (Inr _, c) \<Rightarrow> (Inr None, c)))"

definition run_debug_request ::
    "host \<Rightarrow> init_config \<Rightarrow> string \<Rightarrow> json \<Rightarrow> client \<Rightarrow> (init_error + init_result) \<times> client" where
  "run_debug_request h config request args c =
     then_do ''initialize'' (dap_request_preserve_events ''initialize'' (Some (session_initialize_arguments h config)) c) (\<lambda>m c.
     case from_initialize_message m of
       None \<Rightarrow> (Inl BadCapabilities, c)
     | Some caps \<Rightarrow>
         (case run_init_sequence h config request args (set_capabilities caps c) of
            (Inl e, c) \<Rightarrow> (Inl e, c)
          | (Inr loc, c) \<Rightarrow>
              then_do ''wait for stopped event'' (wait_for_event ''stopped'' c) (\<lambda>stopped c.
                (Inr \<lparr>ir_ready = True, ir_stop_reason = fst (stopped_fields stopped),
                      ir_thread_id = snd (stopped_fields stopped), ir_entry_location = loc, ir_capabilities = caps\<rparr>, c))))"

definition run_session_init :: "host \<Rightarrow> init_config \<Rightarrow> client \<Rightarrow> (init_error + init_result) \<times> client" where
  "run_session_init h config c =
     run_debug_request h config
       (case ic_manifest config of Some m \<Rightarrow> launch_request_name m | None \<Rightarrow> ''launch'')
       (session_launch_arguments h config) c"

section \<open>Completion\<close>

text \<open>Waiting for an event that is buffered or arrives before the rest \<open>w\<close> of the wire.\<close>

lemma wait_for_event_arriving:
  assumes wire: "cl_wire c = map Arrives es @ w" and split: "cl_pending c @ es = x @ m # y"
    and m: "event_named name m" and x: "list_all (\<lambda>u. \<not> event_named name u) x"
  shows "\<exists>p e'. wait_for_event name c = (Inr m, c\<lparr>cl_pending := p, cl_wire := map Arrives e' @ w\<rparr>) \<and>
    p @ e' = x @ y \<and> suffix e' es"
proof -
  from split consider u where "cl_pending c = x @ m # u" "y = u @ es"
    | u where "x = cl_pending c @ u" "es = u @ m # y"
    by (auto simp: append_eq_append_conv2 append_eq_Cons_conv)
  then show ?thesis
  proof cases
    case 1
    then have "wait_for_event name c = (Inr m, c\<lparr>cl_pending := x @ u\<rparr>)"
      using m x by (intro wait_for_event_pending)
    moreover have "c\<lparr>cl_pending := x @ u\<rparr> = c\<lparr>cl_pending := x @ u, cl_wire := map Arrives es @ w\<rparr>"
      using wire by (cases c) simp
    ultimately show ?thesis using 1 by (intro exI [of _ "x @ u"] exI [of _ es]) simp
  next
    case 2
    then have "take_matching (event_named name) (cl_pending c) = None" using x by (simp add: take_matching_None)
    moreover have "await_message True (event_named name) (cl_wire c) = (u, Found m, map Arrives y @ w)"
      using wire 2 x m await_first [of "event_named name" u m True "map Arrives y @ w"] by simp
    ultimately show ?thesis
      using 2 by (intro exI [of _ "cl_pending c @ u"] exI [of _ y])
        (auto simp: wait_for_event_def await_buffering_def suffix_def Let_def)
  qed
qed

lemma first_after_removal:
  assumes "x @ i # y = X @ s # Y" and "i \<noteq> s"
  shows "\<exists>X' Y'. x @ y = X' @ s # Y' \<and> set X' \<subseteq> set X"
  using assms(1)
proof (induction x arbitrary: X)
  case Nil
  then show ?case using assms(2) by (cases X) auto
next
  case (Cons a x)
  show ?case
  proof (cases X)
    case Nil
    then show ?thesis using Cons.prems by auto
  next
    case (Cons b X2)
    then obtain X' Y' where "x @ y = X' @ s # Y'" "set X' \<subseteq> set X2" using Cons.IH [of X2] Cons.prems by auto
    then show ?thesis using Cons Cons.prems by (intro exI [of _ "a # X'"] exI [of _ Y']) auto
  qed
qed

lemma event_names_differ: "event_named a m \<Longrightarrow> event_named b k \<Longrightarrow> a \<noteq> b \<Longrightarrow> m \<noteq> k"
  by (auto simp: event_named_def split: message.splits)

lemma split_first_event:
  assumes "\<exists>m \<in> set ms. event_named name m"
  shows "\<exists>x m y. ms = x @ m # y \<and> event_named name m \<and> list_all (\<lambda>u. \<not> event_named name u) x"
proof -
  obtain x m y where "ms = x @ m # y" "event_named name m" "\<forall>u \<in> set x. \<not> event_named name u"
    using split_list_first_prop [OF assms] by blast
  then show ?thesis by (intro exI [of _ x] exI [of _ m] exI [of _ y]) (simp add: list_all_iff)
qed

text \<open>
  The default sequence against an adapter that answers: \<open>b\<close> comes before the response to the
  request, \<open>d\<close> before the one to \<open>configurationDone\<close>; the \<open>initialized\<close> event may come at any time before.
\<close>

lemma default_sequence_completes:
  assumes ok: "cl_write_error c = None" and n: "cl_seq c = n" "0 \<le> n" "n + 2 < 2 ^ 63"
    and wire: "cl_wire c = map Arrives b @ Arrives r1 # map Arrives d @ Arrives r2 # w"
    and r: "response_matches_seq n r1" "response_matches_seq (n + 1) r2"
    and none: "list_all (\<lambda>m. \<not> response_matches_seq n m) b" "list_all (\<lambda>m. \<not> response_matches_seq (n + 1) m) d"
    and ini: "\<exists>i \<in> set (cl_pending c @ b @ d). event_named ''initialized'' i"
  shows "\<exists>c' x i y. run_default_init_sequence request args c = (Inr (), c') \<and>
    cl_wire c' = w \<and> cl_write_error c' = None \<and> cl_pending c @ b @ d = x @ i # y \<and> cl_pending c' = x @ y \<and>
    event_named ''initialized'' i \<and>
    cl_sent c' = cl_sent c @ [Request \<lparr>rq_seq = n, rq_command = request, rq_arguments = Some args\<rparr>,
      Request \<lparr>rq_seq = n + 1, rq_command = ''configurationDone'', rq_arguments = Some (jobj [])\<rparr>]"
proof -
  let ?q1 = "Request \<lparr>rq_seq = n, rq_command = request, rq_arguments = Some args\<rparr>"
  let ?q2 = "Request \<lparr>rq_seq = n + 1, rq_command = ''configurationDone'', rq_arguments = Some (jobj [])\<rparr>"
  define c1 where "c1 = c\<lparr>cl_seq := n + 1, cl_pending := cl_pending c @ b,
    cl_wire := map Arrives d @ Arrives r2 # w, cl_sent := cl_sent c @ [?q1]\<rparr>"
  have s1: "dap_request_preserve_events request (Some args) c = (Inr r1, c1)"
    using preserve_events_found [of c b r1 "map Arrives d @ Arrives r2 # w" request "Some args"] assms
    by (simp add: c1_def wrap_i64_def)
  obtain x i y where i: "cl_pending c1 @ d = x @ i # y" "event_named ''initialized'' i"
      "list_all (\<lambda>u. \<not> event_named ''initialized'' u) x"
    using split_first_event [of "cl_pending c1 @ d" "''initialized''"] ini by (auto simp: c1_def)
  obtain p e' where s2: "wait_for_event ''initialized'' c1 = (Inr i, c1\<lparr>cl_pending := p, cl_wire := map Arrives e' @ Arrives r2 # w\<rparr>)"
    and p: "p @ e' = x @ y" "suffix e' d"
    using wait_for_event_arriving [of c1 d "Arrives r2 # w", OF _ i] by (auto simp: c1_def)
  let ?c2 = "c1\<lparr>cl_pending := p, cl_wire := map Arrives e' @ Arrives r2 # w\<rparr>"
  have "list_all (\<lambda>m. \<not> response_matches_seq (n + 1) m) e'"
    using none(2) p(2) by (auto simp: suffix_def)
  then have s3: "dap_request_preserve_events ''configurationDone'' (Some (jobj [])) ?c2 =
      (Inr r2, ?c2\<lparr>cl_seq := n + 2, cl_pending := p @ e', cl_wire := w, cl_sent := cl_sent c1 @ [?q2]\<rparr>)"
    using preserve_events_found [of ?c2 e' r2 w "''configurationDone''" "Some (jobj [])"] assms
    by (simp add: c1_def wrap_i64_def)
  show ?thesis
    using i p
    by (intro exI [of _ "?c2\<lparr>cl_seq := n + 2, cl_pending := p @ e', cl_wire := w, cl_sent := cl_sent c1 @ [?q2]\<rparr>"]
        exI [of _ x] exI [of _ i] exI [of _ y])
      (simp add: run_default_init_sequence_def s1 s2 s3, simp add: c1_def ok)
qed

lemma debug_request_completes:
  assumes ok: "cl_write_error c = None" and n: "cl_seq c = n" "0 \<le> n" "n + 3 < 2 ^ 63"
    and plain: "case ic_manifest config of Some m \<Rightarrow> init_steps m = [] | None \<Rightarrow> True"
    and wire: "cl_wire c = map Arrives a @ Arrives r0 # map Arrives b @ Arrives r1 # map Arrives d @ Arrives r2 # map Arrives e @ w"
    and r: "response_matches_seq n r0" "response_matches_seq (n + 1) r1" "response_matches_seq (n + 2) r2"
    and caps: "from_initialize_message r0 = Some caps"
    and none: "list_all (\<lambda>m. \<not> response_matches_seq n m) a" "list_all (\<lambda>m. \<not> response_matches_seq (n + 1) m) b"
      "list_all (\<lambda>m. \<not> response_matches_seq (n + 2) m) d"
    and ini: "\<exists>i \<in> set (cl_pending c @ a @ b @ d). event_named ''initialized'' i"
    and stop: "cl_pending c @ a @ b @ d @ e = X @ s # Y" "event_named ''stopped'' s"
      "list_all (\<lambda>u. \<not> event_named ''stopped'' u) X"
  shows "\<exists>c'. run_debug_request h config request args c =
      (Inr \<lparr>ir_ready = True, ir_stop_reason = fst (stopped_fields s), ir_thread_id = snd (stopped_fields s),
            ir_entry_location = None, ir_capabilities = caps\<rparr>, c') \<and>
    cl_sent c' = cl_sent c @
      [Request \<lparr>rq_seq = n, rq_command = ''initialize'', rq_arguments = Some (session_initialize_arguments h config)\<rparr>,
       Request \<lparr>rq_seq = n + 1, rq_command = request, rq_arguments = Some args\<rparr>,
       Request \<lparr>rq_seq = n + 2, rq_command = ''configurationDone'', rq_arguments = Some (jobj [])\<rparr>]"
proof -
  let ?ia = "session_initialize_arguments h config"
  let ?q0 = "Request \<lparr>rq_seq = n, rq_command = ''initialize'', rq_arguments = Some ?ia\<rparr>"
  define w1 where "w1 = map Arrives b @ Arrives r1 # map Arrives d @ Arrives r2 # map Arrives e @ w"
  define c1 where "c1 = c\<lparr>cl_seq := n + 1, cl_pending := cl_pending c @ a, cl_wire := w1,
    cl_sent := cl_sent c @ [?q0], cl_capabilities := caps\<rparr>"
  have s0: "dap_request_preserve_events ''initialize'' (Some ?ia) c =
      (Inr r0, c\<lparr>cl_seq := n + 1, cl_pending := cl_pending c @ a, cl_wire := w1, cl_sent := cl_sent c @ [?q0]\<rparr>)"
    using preserve_events_found [of c a r0 w1 "''initialize''" "Some ?ia"] ok n wire r none
    by (simp add: w1_def wrap_i64_def)
  have c1: "set_capabilities caps (c\<lparr>cl_seq := n + 1, cl_pending := cl_pending c @ a, cl_wire := w1, cl_sent := cl_sent c @ [?q0]\<rparr>) = c1"
    by (simp add: set_capabilities_def c1_def)
  obtain c2 x i y where run: "run_default_init_sequence request args c1 = (Inr (), c2)"
    and c2: "cl_wire c2 = map Arrives e @ w" "cl_pending c1 @ b @ d = x @ i # y" "cl_pending c2 = x @ y"
      "event_named ''initialized'' i"
      "cl_sent c2 = cl_sent c1 @ [Request \<lparr>rq_seq = n + 1, rq_command = request, rq_arguments = Some args\<rparr>,
        Request \<lparr>rq_seq = n + 1 + 1, rq_command = ''configurationDone'', rq_arguments = Some (jobj [])\<rparr>]"
    using default_sequence_completes [of c1 "n + 1" b r1 d r2 "map Arrives e @ w" request args] ok n r none ini
    by (auto simp: c1_def w1_def add.assoc)
  have seq: "run_init_sequence h config request args c1 = (Inr None, c2)"
    using plain by (simp add: run_init_sequence_def run split: option.splits)
  have "x @ i # (y @ e) = X @ s # Y" 
    using arg_cong [OF c2(2), of "\<lambda>l. l @ e"] stop(1) by (simp add: c1_def)
  moreover have "i \<noteq> s" using event_names_differ [OF c2(4) stop(2)] by simp
  ultimately obtain X' Y' where s': "x @ (y @ e) = X' @ s # Y'" "set X' \<subseteq> set X"
    using first_after_removal [of x i "y @ e" X s Y] by auto
  then have "list_all (\<lambda>u. \<not> event_named ''stopped'' u) X'" using stop(3) by (auto simp: list_all_iff)
  then obtain c3 where s3: "wait_for_event ''stopped'' c2 = (Inr s, c3)" "cl_sent c3 = cl_sent c2"
    using wait_for_event_arriving [of c2 e w X' s Y' "''stopped''"] c2(1,3) s'(1) stop(2) by auto
  show ?thesis
    by (intro exI [of _ c3])
       (simp add: run_debug_request_def s0 caps c1 seq s3, simp add: c2(5) c1_def)
qed

text \<open>A step that waits for the response of its own request after it has already been read waits for a second one.\<close>

lemma step_waits_again:
  assumes "cl_write_error c = None" and "cl_wire c = map Arrives passed @ Arrives reply # map Arrives later @ [Closed]"
    and "list_all (\<lambda>m. \<not> response_matches_seq (cl_seq c) m) passed" and "response_matches_seq (cl_seq c) reply"
    and "list_all (\<lambda>m. \<not> response_matches_command cmd m) (cl_pending c @ passed @ later)"
    and "st_request step = Some cmd" "st_wait_for_event step = None" "st_wait_for_response step = Some cmd"
      "st_record_entry step = None"
  shows "\<exists>c'. run_init_step h ctx request launch_args step loc c =
    (Inl (ClientFailed (''wait for '' @ cmd @ '' response'') (ChannelClosed (''response to '' @ cmd))), c')"
proof -
  have ended: "await_message False wanted (map Arrives ms @ [Closed]) = (ms, StreamEnd, [Closed])"
    if "list_all (\<lambda>m. \<not> wanted m) ms" for wanted ms
    using that by (induction ms) auto
  have "take_matching (response_matches_command cmd) (cl_pending c @ passed) = None"
    using assms(5) by (simp add: take_matching_None)
  then show ?thesis
    using preserve_events_found [OF assms(1-4)] assms(5-9) ended [of "response_matches_command cmd" later]
    by (simp add: run_init_step_def record_location_def wait_for_response_named_def await_buffering_def Let_def)
qed

end
