(* ===== verification/CoreChild.thy ===== *)
theory CoreChild imports DapMessage begin

text \<open>
  Child debug sessions of \<open>dap-core/src/child_session\<close>: profiles and their presets
  (\<open>profile.rs\<close>), the resolution of a \<open>startDebugging\<close> request to a spawn plan (\<open>resolve.rs\<close>), the
  handler of the request (\<open>mod.rs\<close>), and the command line the spawner of \<open>dap-proxy\<close> gives a child
  (\<open>child_supervisor.rs\<close>). JSON pointers, the text of a JSON value, the derived deserialization of
  an explicit rules object and the process that is spawned are parameters.
\<close>

section \<open>Profiles\<close>

datatype parent_backend_kind = ParentStdio | ParentTcp

datatype port_template = PortNumber nat | PortTemplate string

datatype child_backend_template =
    ChildStdio string "string list"
  | ChildTcp string port_template
  | ParentBackend
  | InheritParentStdio

record debug_request_template =
  dt_request :: string
  dt_arguments :: json

record rule_condition =
  rc_request :: "string option"
  rc_exists :: "string list"
  rc_parent_backend :: "parent_backend_kind list"

record child_rule =
  cr_when :: rule_condition
  cr_child_backend :: child_backend_template
  cr_debug_request :: debug_request_template

record child_profile =
  cf_rules :: "child_rule list"
  cf_unsupported_message :: "string option"

record child_config =
  cc_auto_spawn :: bool
  cc_max_children :: nat
  cc_max_depth :: nat
  cc_profile :: child_profile

definition child_config_default :: child_config where
  "child_config_default =
     \<lparr>cc_auto_spawn = False, cc_max_children = 16, cc_max_depth = 1,
      cc_profile = \<lparr>cf_rules = [], cf_unsupported_message = None\<rparr>\<rparr>"

definition forward_request :: debug_request_template where
  "forward_request = \<lparr>dt_request = ''${request}'', dt_arguments = JString ''${configuration}''\<rparr>"

definition fake_preset :: child_profile where
  "fake_preset =
     \<lparr>cf_rules =
        [\<lparr>cr_when = \<lparr>rc_request = Some ''launch'', rc_exists = [], rc_parent_backend = []\<rparr>,
          cr_child_backend = InheritParentStdio, cr_debug_request = forward_request\<rparr>],
      cf_unsupported_message = None\<rparr>"

definition debugpy_preset :: child_profile where
  "debugpy_preset =
     \<lparr>cf_rules =
        [\<lparr>cr_when = \<lparr>rc_request = Some ''attach'',
            rc_exists = [''configuration.connect.host'', ''configuration.connect.port''], rc_parent_backend = []\<rparr>,
          cr_child_backend = ChildTcp ''${configuration.connect.host}'' (PortTemplate ''${configuration.connect.port}''),
          cr_debug_request = forward_request\<rparr>],
      cf_unsupported_message = None\<rparr>"

definition lldb_dap_stdio_unsupported_message :: string where
  "lldb_dap_stdio_unsupported_message =
     ''startDebugging unsupported for lldb-dap profile with stdio parent backend; lldb-dap session handoff requires a reusable tcp server endpoint''"

definition lldb_dap_preset :: child_profile where
  "lldb_dap_preset =
     \<lparr>cf_rules =
        [\<lparr>cr_when = \<lparr>rc_request = None, rc_exists = [], rc_parent_backend = [ParentTcp]\<rparr>,
          cr_child_backend = ParentBackend, cr_debug_request = forward_request\<rparr>],
      cf_unsupported_message = Some lldb_dap_stdio_unsupported_message\<rparr>"

definition from_preset :: "string \<Rightarrow> child_profile option" where
  "from_preset name =
     (if name = ''fake'' then Some fake_preset
      else if name = ''debugpy'' then Some debugpy_preset
      else if name = ''lldb-dap'' then Some lldb_dap_preset
      else None)"

fun deserialize_profile ::
    "(json \<Rightarrow> string + child_rule list \<times> string option) \<Rightarrow> (json \<Rightarrow> string) \<Rightarrow> json \<Rightarrow> string + child_profile" where
  "deserialize_profile explicit print (JString name) =
     (case from_preset name of
        Some p \<Rightarrow> Inr p
      | None \<Rightarrow> Inl (''unknown child-session profile preset '' @ [CHR 0x27] @ name @ [CHR 0x27]
          @ ''; expected \"fake\", \"debugpy\", \"lldb-dap\", or an explicit rules object''))"
| "deserialize_profile explicit print (JObject m) =
     (case explicit (JObject m) of
        Inl e \<Rightarrow> Inl (''invalid child-session profile object: '' @ e)
      | Inr (rules, unsupported) \<Rightarrow> Inr \<lparr>cf_rules = rules, cf_unsupported_message = unsupported\<rparr>)"
| "deserialize_profile explicit print other =
     Inl (''child-session profile must be a preset name or rules object, got '' @ print other)"

section \<open>The request and its parent\<close>

record start_debugging_args =
  sd_request :: string
  sd_configuration :: json

definition start_debugging_from_value :: "json \<Rightarrow> start_debugging_args option" where
  "start_debugging_from_value v =
     (case struct_members [''request'', ''configuration''] v of
        None \<Rightarrow> None
      | Some m \<Rightarrow>
          (case Option.bind (obj_get m ''request'') as_str of
             None \<Rightarrow> None
           | Some r \<Rightarrow> Some \<lparr>sd_request = r, sd_configuration = unwrap_or (obj_get m ''configuration'') JNull\<rparr>))"

definition start_debugging_to_value :: "start_debugging_args \<Rightarrow> json" where
  "start_debugging_to_value a =
     jobj [(''request'', JString (sd_request a)), (''configuration'', sd_configuration a)]"

record parent_session =
  ps_backend :: parent_backend_kind
  ps_adapter_cmd :: "string list"
  ps_tcp_endpoint :: "string option"

datatype child_backend_plan = PlanStdio string "string list" | PlanTcp string nat

record child_spawn_plan =
  cp_backend :: child_backend_plan
  cp_debug_request :: string
  cp_debug_arguments :: json
  cp_child_depth :: nat

record child_spawn_result =
  cr_control_port :: nat
  cr_instance_id :: string

section \<open>Templates\<close>

definition dotted_to_pointer :: "string \<Rightarrow> string" where
  "dotted_to_pointer path = (if path = [] then [] else CHR ''/'' # replace_char CHR ''.'' CHR ''/'' path)"

definition is_template :: "string \<Rightarrow> bool" where
  "is_template s \<longleftrightarrow> starts_with s ''${'' \<and> ends_with s ''}''"

text \<open>The text between the marks; both are stripped in turn, so \<open>${}\<close> has the empty path.\<close>

definition template_path :: "string \<Rightarrow> string option" where
  "template_path expr =
     (if starts_with expr ''${'' \<and> ends_with (drop 2 expr) ''}'' then Some (butlast (drop 2 expr)) else None)"

definition resolve_template_value :: "(json \<Rightarrow> string \<Rightarrow> json option) \<Rightarrow> string \<Rightarrow> json \<Rightarrow> string + json" where
  "resolve_template_value pointer expr ctx =
     (case template_path expr of
        None \<Rightarrow> Inl (''invalid template expression: '' @ expr)
      | Some path \<Rightarrow>
          if path = ''configuration'' then Inr (unwrap_or (jget ctx ''configuration'') JNull)
          else if path = ''request'' then Inr (unwrap_or (jget ctx ''request'') JNull)
          else case pointer ctx (dotted_to_pointer path) of
            Some v \<Rightarrow> Inr v
          | None \<Rightarrow> Inl (''template path not found: '' @ path))"

definition resolve_string_template ::
    "(json \<Rightarrow> string \<Rightarrow> json option) \<Rightarrow> (json \<Rightarrow> string) \<Rightarrow> string \<Rightarrow> json \<Rightarrow> string + string" where
  "resolve_string_template pointer print template ctx =
     (if is_template template
      then case resolve_template_value pointer template ctx of
          Inl e \<Rightarrow> Inl e
        | Inr (JString text) \<Rightarrow> Inr text
        | Inr other \<Rightarrow> Inr (print other)
      else Inr template)"

fun resolve_value_template :: "(json \<Rightarrow> string \<Rightarrow> json option) \<Rightarrow> json \<Rightarrow> json \<Rightarrow> string + json"
  and resolve_template_members :: "(json \<Rightarrow> string \<Rightarrow> json option) \<Rightarrow> jmap \<Rightarrow> jmap \<Rightarrow> json \<Rightarrow> string + jmap"
  and resolve_template_items :: "(json \<Rightarrow> string \<Rightarrow> json option) \<Rightarrow> json list \<Rightarrow> json \<Rightarrow> string + json list" where
  "resolve_value_template pointer (JString expr) ctx =
     (if is_template expr then resolve_template_value pointer expr ctx else Inr (JString expr))"
| "resolve_value_template pointer (JObject m) ctx =
     (case resolve_template_members pointer m [] ctx of Inl e \<Rightarrow> Inl e | Inr out \<Rightarrow> Inr (JObject out))"
| "resolve_value_template pointer (JArray xs) ctx =
     (case resolve_template_items pointer xs ctx of Inl e \<Rightarrow> Inl e | Inr out \<Rightarrow> Inr (JArray out))"
| "resolve_value_template pointer v ctx = Inr v"
| "resolve_template_members pointer [] out ctx = Inr out"
| "resolve_template_members pointer ((k, v) # m) out ctx =
     (case resolve_value_template pointer v ctx of
        Inl e \<Rightarrow> Inl e
      | Inr r \<Rightarrow> resolve_template_members pointer m (obj_insert k r out) ctx)"
| "resolve_template_items pointer [] ctx = Inr []"
| "resolve_template_items pointer (v # vs) ctx =
     (case resolve_value_template pointer v ctx of
        Inl e \<Rightarrow> Inl e
      | Inr r \<Rightarrow> (case resolve_template_items pointer vs ctx of Inl e \<Rightarrow> Inl e | Inr rs \<Rightarrow> Inr (r # rs)))"

fun resolve_port :: "(json \<Rightarrow> string \<Rightarrow> json option) \<Rightarrow> port_template \<Rightarrow> json \<Rightarrow> string + nat" where
  "resolve_port pointer (PortNumber port) ctx = Inr port"
| "resolve_port pointer (PortTemplate expr) ctx =
     (case resolve_template_value pointer expr ctx of
        Inl e \<Rightarrow> Inl e
      | Inr value \<Rightarrow>
          (case as_u64 value of
             Some port \<Rightarrow>
               if port < 2 ^ 16 then Inr (nat port)
               else Inl (''port template '' @ expr @ '' did not resolve to u16'')
           | None \<Rightarrow> Inl (''port template '' @ expr @ '' did not resolve to u16'')))"

definition parse_host_port :: "string \<Rightarrow> string + string \<times> nat" where
  "parse_host_port endpoint =
     (case rsplit_once CHR '':'' endpoint of
        None \<Rightarrow> Inl (''invalid tcp endpoint: '' @ endpoint)
      | Some (host, port) \<Rightarrow>
          (case parse_u16 port of
             None \<Rightarrow> Inl (''invalid tcp port in endpoint: '' @ endpoint)
           | Some p \<Rightarrow> Inr (host, p)))"

definition resolve_debug_request ::
    "(json \<Rightarrow> string \<Rightarrow> json option) \<Rightarrow> (json \<Rightarrow> string) \<Rightarrow> debug_request_template \<Rightarrow> json \<Rightarrow> string + string \<times> json" where
  "resolve_debug_request pointer print template ctx =
     (case resolve_string_template pointer print (dt_request template) ctx of
        Inl e \<Rightarrow> Inl e
      | Inr request \<Rightarrow>
          (case resolve_value_template pointer (dt_arguments template) ctx of
             Inl e \<Rightarrow> Inl e
           | Inr arguments \<Rightarrow> Inr (request, arguments)))"

section \<open>Rules\<close>

definition rule_matches ::
    "(json \<Rightarrow> string \<Rightarrow> json option) \<Rightarrow> child_rule \<Rightarrow> start_debugging_args \<Rightarrow> json \<Rightarrow> parent_session \<Rightarrow> bool" where
  "rule_matches pointer rule a ctx parent =
     (if (case rc_request (cr_when rule) of Some expected \<Rightarrow> sd_request a \<noteq> expected | None \<Rightarrow> False) then False
      else if list_ex (\<lambda>path. pointer ctx (dotted_to_pointer path) = None) (rc_exists (cr_when rule)) then False
      else if rc_parent_backend (cr_when rule) \<noteq> [] \<and> ps_backend parent \<notin> set (rc_parent_backend (cr_when rule)) then False
      else True)"

definition backend_compatible :: "child_rule \<Rightarrow> parent_session \<Rightarrow> bool" where
  "backend_compatible rule parent =
     (case cr_child_backend rule of
        ParentBackend \<Rightarrow> ps_backend parent = ParentTcp
      | InheritParentStdio \<Rightarrow> ps_backend parent = ParentStdio
      | ChildStdio _ _ \<Rightarrow> True
      | ChildTcp _ _ \<Rightarrow> True)"

definition strip_emit_start_debugging :: "string list \<Rightarrow> string list" where
  "strip_emit_start_debugging cmd = filter (\<lambda>arg. arg \<noteq> ''--emit-start-debugging'') cmd"

fun resolve_templates ::
    "(json \<Rightarrow> string \<Rightarrow> json option) \<Rightarrow> (json \<Rightarrow> string) \<Rightarrow> string list \<Rightarrow> json \<Rightarrow> string + string list" where
  "resolve_templates pointer print [] ctx = Inr []"
| "resolve_templates pointer print (t # ts) ctx =
     (case resolve_string_template pointer print t ctx of
        Inl e \<Rightarrow> Inl e
      | Inr r \<Rightarrow> (case resolve_templates pointer print ts ctx of Inl e \<Rightarrow> Inl e | Inr rs \<Rightarrow> Inr (r # rs)))"

fun build_child_backend ::
    "(json \<Rightarrow> string \<Rightarrow> json option) \<Rightarrow> (json \<Rightarrow> string) \<Rightarrow> child_backend_template \<Rightarrow> parent_session \<Rightarrow> json
       \<Rightarrow> string + child_backend_plan" where
  "build_child_backend pointer print (ChildStdio cmd as) parent ctx =
     (case resolve_string_template pointer print cmd ctx of
        Inl e \<Rightarrow> Inl e
      | Inr c \<Rightarrow> (case resolve_templates pointer print as ctx of Inl e \<Rightarrow> Inl e | Inr rs \<Rightarrow> Inr (PlanStdio c rs)))"
| "build_child_backend pointer print (ChildTcp host port) parent ctx =
     (case resolve_string_template pointer print host ctx of
        Inl e \<Rightarrow> Inl e
      | Inr h \<Rightarrow> (case resolve_port pointer port ctx of Inl e \<Rightarrow> Inl e | Inr n \<Rightarrow> Inr (PlanTcp h n)))"
| "build_child_backend pointer print ParentBackend parent ctx =
     (case ps_tcp_endpoint parent of
        None \<Rightarrow> Inl ''parent has no tcp endpoint''
      | Some endpoint \<Rightarrow>
          (case parse_host_port endpoint of Inl e \<Rightarrow> Inl e | Inr (h, n) \<Rightarrow> Inr (PlanTcp h n)))"
| "build_child_backend pointer print InheritParentStdio parent ctx =
     (case strip_emit_start_debugging (ps_adapter_cmd parent) of
        [] \<Rightarrow> Inl ''parent adapter command is empty''
      | c # rest \<Rightarrow> Inr (PlanStdio c rest))"

definition resolve_child_spawn ::
    "(json \<Rightarrow> string \<Rightarrow> json option) \<Rightarrow> (json \<Rightarrow> string) \<Rightarrow> child_config \<Rightarrow> nat \<Rightarrow> nat \<Rightarrow> parent_session
       \<Rightarrow> start_debugging_args \<Rightarrow> string + child_spawn_plan" where
  "resolve_child_spawn pointer print config remaining_depth active_children parent a =
     (if \<not> cc_auto_spawn config then Inl ''child sessions are disabled''
      else if remaining_depth = 0 then Inl ''max child depth reached''
      else if active_children \<ge> cc_max_children config then Inl ''max concurrent children reached''
      else let ctx = start_debugging_to_value a in
        case find (\<lambda>rule. rule_matches pointer rule a ctx parent \<and> backend_compatible rule parent)
               (cf_rules (cc_profile config)) of
          None \<Rightarrow> Inl (unwrap_or (cf_unsupported_message (cc_profile config)) ''no matching child-session rule'')
        | Some rule \<Rightarrow>
            (case build_child_backend pointer print (cr_child_backend rule) parent ctx of
               Inl e \<Rightarrow> Inl e
             | Inr backend \<Rightarrow>
                 (case resolve_debug_request pointer print (cr_debug_request rule) ctx of
                    Inl e \<Rightarrow> Inl e
                  | Inr (request, arguments) \<Rightarrow> Inr
                      \<lparr>cp_backend = backend, cp_debug_request = request, cp_debug_arguments = arguments,
                       cp_child_depth = remaining_depth - 1\<rparr>)))"

section \<open>The handler\<close>

definition success_reverse_response :: "request \<Rightarrow> message" where
  "success_reverse_response r =
     Response \<lparr>rs_seq = 0, rs_request_seq = rq_seq r, rs_success = True, rs_command = Some ''startDebugging'',
       rs_message = None, rs_body = None\<rparr>"

definition fail_reverse_response :: "request \<Rightarrow> string \<Rightarrow> message" where
  "fail_reverse_response r msg =
     Response \<lparr>rs_seq = 0, rs_request_seq = rq_seq r, rs_success = False, rs_command = Some (rq_command r),
       rs_message = Some msg, rs_body = None\<rparr>"

text \<open>\<open>{:?}\<close> of a string is the standard library's and the argument \<open>quote\<close>.\<close>

definition decline_reverse_request :: "(string \<Rightarrow> string) \<Rightarrow> request \<Rightarrow> message" where
  "decline_reverse_request quote r =
     fail_reverse_response r (''reverse request '' @ quote (rq_command r) @ '' is not supported'')"

record child_bridge =
  cb_config :: child_config
  cb_remaining_depth :: nat
  cb_parent :: parent_session

text \<open>
  The answer, the plan handed to the spawner if any, and the counter of children after it. The
  counter is a \<open>u32\<close>; nothing ever decreases it.
\<close>

definition handle_start_debugging ::
    "(json \<Rightarrow> string \<Rightarrow> json option) \<Rightarrow> (json \<Rightarrow> string) \<Rightarrow> child_bridge \<Rightarrow> (child_spawn_plan \<Rightarrow> string + child_spawn_result)
       \<Rightarrow> request \<Rightarrow> nat \<Rightarrow> message \<times> child_spawn_plan option \<times> nat" where
  "handle_start_debugging pointer print b spawn r active =
     (case Option.bind (rq_arguments r) start_debugging_from_value of
        None \<Rightarrow> (fail_reverse_response r ''invalid startDebugging arguments'', None, active)
      | Some a \<Rightarrow>
          (case resolve_child_spawn pointer print (cb_config b) (cb_remaining_depth b) active (cb_parent b) a of
             Inl msg \<Rightarrow> (fail_reverse_response r msg, None, active)
           | Inr plan \<Rightarrow>
               (case spawn plan of
                  Inr result \<Rightarrow> (success_reverse_response r, Some plan, (active + 1) mod 2 ^ 32)
                | Inl err \<Rightarrow>
                    (fail_reverse_response r (''failed to spawn child session: '' @ err), Some plan, active))))"

text \<open>The requests of a session, each with what spawning would give at that moment.\<close>

fun serve_children ::
    "(json \<Rightarrow> string \<Rightarrow> json option) \<Rightarrow> (json \<Rightarrow> string) \<Rightarrow> child_bridge
       \<Rightarrow> (request \<times> (child_spawn_plan \<Rightarrow> string + child_spawn_result)) list \<Rightarrow> nat \<Rightarrow> message list \<times> nat" where
  "serve_children pointer print b [] active = ([], active)"
| "serve_children pointer print b ((r, spawn) # rest) active =
     (case handle_start_debugging pointer print b spawn r active of
        (answer, plan, active') \<Rightarrow> apfst ((#) answer) (serve_children pointer print b rest active'))"

definition answered_ok :: "message \<Rightarrow> bool" where
  "answered_ok m = (case m of Response r \<Rightarrow> rs_success r | _ \<Rightarrow> False)"

lemma answered_ok_simps [simp]:
  "answered_ok (success_reverse_response r)" "\<not> answered_ok (fail_reverse_response r e)"
  by (simp_all add: answered_ok_def success_reverse_response_def fail_reverse_response_def)

lemma resolve_child_spawn_limits:
  assumes "resolve_child_spawn pointer print config depth active parent a = Inr plan"
  shows "cc_auto_spawn config" "0 < depth" "active < cc_max_children config" "cp_child_depth plan = depth - 1"
  using assms
  by (auto simp: resolve_child_spawn_def Let_def split: if_splits option.splits sum.splits)

lemma handle_active:
  assumes "handle_start_debugging pointer print b spawn r active = (answer, plan, active')"
    and "cc_max_children (cb_config b) < 2 ^ 32"
  shows "active' = active + (if answered_ok answer then 1 else 0)"
    and "answered_ok answer \<Longrightarrow> active < cc_max_children (cb_config b)"
proof -
  have no_wrap: "(active + 1) mod 2 ^ 32 = active + 1"
    if "resolve_child_spawn pointer print (cb_config b) (cb_remaining_depth b) active (cb_parent b) a = Inr p" for a p
    using resolve_child_spawn_limits(3) [OF that] assms(2) by simp
  show "active' = active + (if answered_ok answer then 1 else 0)"
    using assms(1) no_wrap
    by (auto simp: handle_start_debugging_def simp del: One_nat_def split: option.splits sum.splits)
  show "answered_ok answer \<Longrightarrow> active < cc_max_children (cb_config b)"
    using assms(1)
    by (auto simp: handle_start_debugging_def dest: resolve_child_spawn_limits(3) split: option.splits sum.splits)
qed

lemma serve_children_active:
  assumes "cc_max_children (cb_config b) < 2 ^ 32"
  shows "serve_children pointer print b rs active = (answers, active') \<Longrightarrow>
     active' = active + length (filter answered_ok answers) \<and> active' \<le> max active (cc_max_children (cb_config b))"
proof (induction rs arbitrary: active answers)
  case (Cons x rs)
  obtain r spawn where x: "x = (r, spawn)" by (cases x)
  obtain answer plan n where h: "handle_start_debugging pointer print b spawn r active = (answer, plan, n)"
    by (cases "handle_start_debugging pointer print b spawn r active")
  obtain rest where rest: "serve_children pointer print b rs n = (rest, active')" "answers = answer # rest"
    using Cons.prems x h by (cases "serve_children pointer print b rs n") auto
  show ?case using Cons.IH [OF rest(1)] handle_active [OF h assms] rest(2) by auto
qed simp

text \<open>A full counter refuses every later request.\<close>

lemma resolve_full:
  "cc_max_children config \<le> active \<Longrightarrow>
     \<exists>e. resolve_child_spawn pointer print config depth active parent a = Inl e"
  by (auto simp: resolve_child_spawn_def)

lemma handle_full:
  assumes "cc_max_children (cb_config b) \<le> active"
  shows "\<exists>e. handle_start_debugging pointer print b spawn r active = (fail_reverse_response r e, None, active)"
proof (cases "Option.bind (rq_arguments r) start_debugging_from_value")
  case (Some a)
  obtain e where "resolve_child_spawn pointer print (cb_config b) (cb_remaining_depth b) active (cb_parent b) a = Inl e"
    using resolve_full [OF assms] by blast
  with Some show ?thesis by (auto simp: handle_start_debugging_def)
qed (auto simp: handle_start_debugging_def)

lemma serve_children_full:
  assumes "cc_max_children (cb_config b) \<le> active"
  shows "serve_children pointer print b rs active = (answers, active') \<Longrightarrow>
     active' = active \<and> list_all (\<lambda>m. \<not> answered_ok m) answers"
proof (induction rs arbitrary: answers)
  case (Cons x rs)
  obtain r spawn where x: "x = (r, spawn)" by (cases x)
  obtain e where h: "handle_start_debugging pointer print b spawn r active = (fail_reverse_response r e, None, active)"
    using handle_full [OF assms] by blast
  obtain rest where rest: "serve_children pointer print b rs active = (rest, active')"
      "answers = fail_reverse_response r e # rest"
    using Cons.prems x h by (cases "serve_children pointer print b rs active") auto
  show ?case using Cons.IH [OF rest(1)] rest(2) by simp
qed simp

section \<open>What the presets resolve to\<close>

lemma context_fields [simp]:
  "jget (start_debugging_to_value a) ''request'' = Some (JString (sd_request a))"
  "jget (start_debugging_to_value a) ''configuration'' = Some (sd_configuration a)"
  by (simp_all add: start_debugging_to_value_def jobj_def obj_insert_all_def)

lemma forward_templates:
  "template_path ''${request}'' = Some ''request''" "template_path ''${configuration}'' = Some ''configuration''"
  "is_template ''${request}''" "is_template ''${configuration}''"
  by code_simp+

lemma resolve_forward_request [simp]:
  "resolve_debug_request pointer print forward_request (start_debugging_to_value a) =
     Inr (sd_request a, sd_configuration a)"
  by (simp add: resolve_debug_request_def forward_request_def resolve_string_template_def
      resolve_template_value_def forward_templates)

lemma resolve_fake:
  assumes "cc_auto_spawn config" "0 < depth" "active < cc_max_children config" "cc_profile config = fake_preset"
    and "sd_request a = ''launch''" "ps_backend parent = ParentStdio"
    and "strip_emit_start_debugging (ps_adapter_cmd parent) = c # rest"
  shows "resolve_child_spawn pointer print config depth active parent a = Inr
    \<lparr>cp_backend = PlanStdio c rest, cp_debug_request = ''launch'', cp_debug_arguments = sd_configuration a,
     cp_child_depth = depth - 1\<rparr>"
  using assms by (simp add: resolve_child_spawn_def fake_preset_def rule_matches_def backend_compatible_def)

lemma resolve_lldb:
  assumes "cc_auto_spawn config" "0 < depth" "active < cc_max_children config" "cc_profile config = lldb_dap_preset"
  shows "resolve_child_spawn pointer print config depth active parent a =
    (if ps_backend parent = ParentTcp then
       (case ps_tcp_endpoint parent of
          None \<Rightarrow> Inl ''parent has no tcp endpoint''
        | Some endpoint \<Rightarrow>
            (case parse_host_port endpoint of
               Inl e \<Rightarrow> Inl e
             | Inr (h, n) \<Rightarrow> Inr \<lparr>cp_backend = PlanTcp h n, cp_debug_request = sd_request a,
                 cp_debug_arguments = sd_configuration a, cp_child_depth = depth - 1\<rparr>))
     else Inl lldb_dap_stdio_unsupported_message)"
  using assms
  by (auto simp: resolve_child_spawn_def lldb_dap_preset_def rule_matches_def backend_compatible_def
      split: option.splits sum.splits)

lemma connect_templates:
  "template_path ''${configuration.connect.host}'' = Some ''configuration.connect.host''"
  "template_path ''${configuration.connect.port}'' = Some ''configuration.connect.port''"
  "is_template ''${configuration.connect.host}''"
  "dotted_to_pointer ''configuration.connect.host'' = ''/configuration/connect/host''"
  "dotted_to_pointer ''configuration.connect.port'' = ''/configuration/connect/port''"
  by code_simp+

lemma resolve_debugpy:
  assumes "cc_auto_spawn config" "0 < depth" "active < cc_max_children config" "cc_profile config = debugpy_preset"
    and "sd_request a = ''attach''"
    and "pointer (start_debugging_to_value a) ''/configuration/connect/host'' = Some (JString host)"
    and "pointer (start_debugging_to_value a) ''/configuration/connect/port'' = Some (jint port)"
    and "0 \<le> port" "port < 2 ^ 16"
  shows "resolve_child_spawn pointer print config depth active parent a = Inr
    \<lparr>cp_backend = PlanTcp host (nat port), cp_debug_request = ''attach'', cp_debug_arguments = sd_configuration a,
     cp_child_depth = depth - 1\<rparr>"
  using assms
  by (simp add: resolve_child_spawn_def debugpy_preset_def rule_matches_def backend_compatible_def
      resolve_string_template_def resolve_template_value_def connect_templates as_u64_def in_u64_def)

lemma parse_host_port_show:
  "n < 2 ^ 16 \<Longrightarrow> parse_host_port (h @ '':'' @ show_nat n) = Inr (h, n)"
  using rsplit_once_append [of "CHR '':''" "show_nat n" h] parse_radix_show_nat [of n "2 ^ 16 - 1"]
  by (simp add: parse_host_port_def parse_u16_def show_nat_free)

end
