(* ===== verification/ClientProperties.thy ===== *)
theory ClientProperties imports CoreInit CoreChild begin

text \<open>
  The properties of the control client, of the headless start of a session and of child sessions,
  each with a witness at a concrete input.
\<close>

section \<open>The client\<close>


text \<open>The plain request loses every message that arrives before its response, events included:
  they are neither delivered nor buffered. And a response that reports failure is handed to the
  caller as a success, with its body or \<open>null\<close>.\<close>

theorem client_request_loses_events:
  assumes "cl_write_error c = None" and "cl_wire c = map Arrives passed @ Arrives (Response r) # w"
    and "list_all (\<lambda>m. \<not> response_matches_seq (cl_seq c) m) passed" and "rs_request_seq r = cl_seq c"
  shows "\<exists>c'. request_body cmd args c = (Inr (opt_json (rs_body r)), c') \<and>
    available c = cl_pending c @ passed @ Response r # arriving w \<and> available c' = cl_pending c @ arriving w"
proof -
  have "arriving (map Arrives passed @ v) = passed @ arriving v" for v by (induction passed) auto
  then show ?thesis
    using dap_request_found [OF assms(1-3), of cmd args] assms(2,4)
    by (simp add: request_body_def response_body_def response_matches_seq_def available_def)
qed

definition stopped_event :: "string \<Rightarrow> message" where
  "stopped_event reason = Event \<lparr>ev_seq = 9, ev_event = ''stopped'', ev_body = Some (JObject [(''reason'', JString reason)])\<rparr>"

definition failed_response :: "int \<Rightarrow> response" where
  "failed_response n = \<lparr>rs_seq = 0, rs_request_seq = n, rs_success = False, rs_command = None,
     rs_message = Some ''failed'', rs_body = None\<rparr>"

lemma client_request_loses_events_witness:
  "\<exists>c'. request_body ''threads'' None
      (client_from_duplex [Arrives (stopped_event ''step''), Arrives (Response (failed_response 1))]) = (Inr JNull, c') \<and>
    available (client_from_duplex [Arrives (stopped_event ''step''), Arrives (Response (failed_response 1))]) =
      [stopped_event ''step'', Response (failed_response 1)] \<and>
    available c' = []"
  using client_request_loses_events
    [of "client_from_duplex [Arrives (stopped_event ''step''), Arrives (Response (failed_response 1))]"
        "[stopped_event ''step'']" "failed_response 1" "[]" "''threads''" None]
  by (simp add: client_from_duplex_def stopped_event_def failed_response_def response_matches_seq_def opt_json_def)

text \<open>A client that joins late keeps the stopped event of the replay buffered, so its first
  \<open>continue\<close> returns with that old stop as soon as its response is there: whatever arrives after
  the response, the stop of this run included, is left unread.\<close>

theorem late_join_continue_stale:
  assumes "replay = before @ old # after" and "event_named ''stopped'' old"
    and "list_all (\<lambda>m. \<not> event_named ''stopped'' m) before"
    and "list_all (\<lambda>m. \<not> response_matches_seq 1 m) passed" and "response_matches_seq 1 reply"
  shows "\<exists>c c'. client_connect
      (map Arrives replay @ Elapsed # Elapsed # map Arrives passed @ Arrives reply # w) = Inr c \<and>
    navigate NavContinue thread c =
      (Inr \<lparr>nr_navigation_type = NavContinue, nr_success = True, nr_stop_reason = fst (stopped_fields old),
            nr_thread_id = or_else (snd (stopped_fields old)) (Some thread)\<rparr>, c') \<and>
    cl_wire c' = w"
proof -
  define wire where "wire = map Arrives passed @ Arrives reply # w"
  obtain caps where connect: "client_connect (map Arrives replay @ Elapsed # Elapsed # wire) =
      Inr ((client_from_duplex wire)\<lparr>cl_pending := replay, cl_capabilities := caps\<rparr>)"
    using connect_replay by blast
  let ?c = "(client_from_duplex wire)\<lparr>cl_pending := replay, cl_capabilities := caps\<rparr>"
  obtain c1 where pre: "dap_request_preserve_events ''continue'' (Some (navigation_arguments NavContinue thread)) ?c = (Inr reply, c1)"
    and c1: "cl_pending c1 = before @ old # (after @ passed)" "cl_wire c1 = w"
    using preserve_events_found [of ?c passed reply w "''continue''" "Some (navigation_arguments NavContinue thread)"] assms
    by (simp add: client_from_duplex_def wire_def)
  have "wait_for_event ''stopped'' c1 = (Inr old, c1\<lparr>cl_pending := before @ after @ passed\<rparr>)"
    using c1(1) assms by (intro wait_for_event_pending)
  then show ?thesis
    using connect pre c1(2)
    by (intro exI [of _ ?c] exI [of _ "c1\<lparr>cl_pending := before @ after @ passed\<rparr>"])
       (cases "stopped_fields old", simp add: wire_def navigate_def waits_for_stop_def)
qed

lemma late_join_continue_stale_witness:
  "\<exists>c c'. client_connect ([Arrives (stopped_event ''entry'')] @ [Elapsed, Elapsed] @
        [Arrives (Response (failed_response 1)), Arrives (stopped_event ''breakpoint'')]) = Inr c \<and>
    navigate NavContinue 1 c =
      (Inr \<lparr>nr_navigation_type = NavContinue, nr_success = True, nr_stop_reason = Some ''entry'', nr_thread_id = Some 1\<rparr>, c') \<and>
    cl_wire c' = [Arrives (stopped_event ''breakpoint'')]"
proof -
  have "fst (stopped_fields (stopped_event ''entry'')) = Some ''entry''"
    by (simp add: stopped_event_def body_str_def)
  then show ?thesis
    using late_join_continue_stale
      [of "[stopped_event ''entry'']" "[]" "stopped_event ''entry''" "[]" "[]" "Response (failed_response 1)"
          "[Arrives (stopped_event ''breakpoint'')]" 1]
    by (simp add: event_named_def stopped_event_def response_matches_seq_def failed_response_def)
qed

section \<open>Starting a session\<close>

text \<open>C23: Against an adapter that answers each request, sends \<open>initialized\<close> before it answers
  \<open>configurationDone\<close> and stops some time, whatever else it sends in between, the default start
  of a session completes: it sends exactly initialize, the request and configurationDone, with
  consecutive numbers, and returns the capabilities and the first stop.\<close>

theorem session_init_completes:
  assumes "cl_write_error c = None" and "cl_seq c = n" "0 \<le> n" "n + 3 < 2 ^ 63"
    and "case ic_manifest config of Some m \<Rightarrow> init_steps m = [] | None \<Rightarrow> True"
    and "cl_wire c = map Arrives a @ Arrives r0 # map Arrives b @ Arrives r1 # map Arrives d @ Arrives r2 # map Arrives e @ w"
    and "response_matches_seq n r0" "response_matches_seq (n + 1) r1" "response_matches_seq (n + 2) r2"
    and "from_initialize_message r0 = Some caps"
    and "list_all (\<lambda>m. \<not> response_matches_seq n m) a" "list_all (\<lambda>m. \<not> response_matches_seq (n + 1) m) b"
      "list_all (\<lambda>m. \<not> response_matches_seq (n + 2) m) d"
    and "\<exists>i \<in> set (cl_pending c @ a @ b @ d). event_named ''initialized'' i"
    and "cl_pending c @ a @ b @ d @ e = X @ s # Y" "event_named ''stopped'' s"
      "list_all (\<lambda>u. \<not> event_named ''stopped'' u) X"
  shows "\<exists>c'. run_debug_request h config request args c =
      (Inr \<lparr>ir_ready = True, ir_stop_reason = fst (stopped_fields s), ir_thread_id = snd (stopped_fields s),
            ir_entry_location = None, ir_capabilities = caps\<rparr>, c') \<and>
    cl_sent c' = cl_sent c @
      [Request \<lparr>rq_seq = n, rq_command = ''initialize'', rq_arguments = Some (session_initialize_arguments h config)\<rparr>,
       Request \<lparr>rq_seq = n + 1, rq_command = request, rq_arguments = Some args\<rparr>,
       Request \<lparr>rq_seq = n + 2, rq_command = ''configurationDone'', rq_arguments = Some (jobj [])\<rparr>]"
  using assms by (rule debug_request_completes)

definition ok_response :: "int \<Rightarrow> message" where
  "ok_response n = Response \<lparr>rs_seq = 0, rs_request_seq = n, rs_success = True, rs_command = None,
     rs_message = None, rs_body = Some (JObject [])\<rparr>"

definition initialized_event :: message where
  "initialized_event = Event \<lparr>ev_seq = 8, ev_event = ''initialized'', ev_body = None\<rparr>"

definition demo_wire :: "arrival list" where
  "demo_wire = map Arrives [] @ Arrives (ok_response 1) # map Arrives [] @ Arrives (ok_response 2) #
     map Arrives [initialized_event] @ Arrives (ok_response 3) # map Arrives [stopped_event ''entry''] @ []"

lemma session_init_completes_witness:
  "\<exists>c'. run_debug_request \<lparr>h_env = \<lambda>_. None, h_canonical = \<lambda>_. None, h_is_file = \<lambda>_. False, h_is_dir = \<lambda>_. False,
        h_read = \<lambda>_. None, h_read_dir = \<lambda>_. None\<rparr> (init_config_new ''main.py'') ''launch'' JNull (client_from_duplex demo_wire) =
      (Inr \<lparr>ir_ready = True, ir_stop_reason = Some ''entry'', ir_thread_id = None, ir_entry_location = None,
            ir_capabilities = capabilities_unknown\<lparr>cp_raw := Some (JObject [])\<rparr>\<rparr>, c') \<and>
    length (cl_sent c') = 3"
proof -
  have caps: "from_initialize_message (ok_response 1) = Some (capabilities_unknown\<lparr>cp_raw := Some (JObject [])\<rparr>)"
    by (simp add: ok_response_def capabilities_from_json_def capabilities_unknown_def flag_ok_def flag_def
        filters_ok_def flag_names_def)
  have stop: "stopped_fields (stopped_event ''entry'') = (Some ''entry'', None)"
    by (simp add: stopped_event_def body_str_def)
  have "\<exists>c'. run_debug_request \<lparr>h_env = \<lambda>_. None, h_canonical = \<lambda>_. None, h_is_file = \<lambda>_. False, h_is_dir = \<lambda>_. False,
        h_read = \<lambda>_. None, h_read_dir = \<lambda>_. None\<rparr> (init_config_new ''main.py'') ''launch'' JNull (client_from_duplex demo_wire) =
      (Inr \<lparr>ir_ready = True, ir_stop_reason = fst (stopped_fields (stopped_event ''entry'')),
            ir_thread_id = snd (stopped_fields (stopped_event ''entry'')), ir_entry_location = None,
            ir_capabilities = capabilities_unknown\<lparr>cp_raw := Some (JObject [])\<rparr>\<rparr>, c') \<and>
      cl_sent c' = cl_sent (client_from_duplex demo_wire) @
      [Request \<lparr>rq_seq = 1, rq_command = ''initialize'', rq_arguments = Some (session_initialize_arguments
          \<lparr>h_env = \<lambda>_. None, h_canonical = \<lambda>_. None, h_is_file = \<lambda>_. False, h_is_dir = \<lambda>_. False,
           h_read = \<lambda>_. None, h_read_dir = \<lambda>_. None\<rparr> (init_config_new ''main.py''))\<rparr>,
       Request \<lparr>rq_seq = 1 + 1, rq_command = ''launch'', rq_arguments = Some JNull\<rparr>,
       Request \<lparr>rq_seq = 1 + 2, rq_command = ''configurationDone'', rq_arguments = Some (jobj [])\<rparr>]"
    by (rule session_init_completes
      [where a = "[]" and b = "[]" and d = "[initialized_event]" and e = "[stopped_event ''entry'']" and w = "[]"
        and ?r0.0 = "ok_response 1" and ?r1.0 = "ok_response 2" and ?r2.0 = "ok_response 3"
        and X = "[initialized_event]" and s = "stopped_event ''entry''" and Y = "[]"])
      (simp_all add: caps [unfolded ok_response_def] client_from_duplex_def demo_wire_def init_config_new_def response_matches_seq_def
        ok_response_def initialized_event_def stopped_event_def event_named_def del: from_initialize_message.simps)
  then show ?thesis by (auto simp: stop client_from_duplex_def)
qed

section \<open>Child sessions\<close>


definition demo_bridge :: child_bridge where
  "demo_bridge = \<lparr>cb_config = \<lparr>cc_auto_spawn = True, cc_max_children = 1, cc_max_depth = 1, cc_profile = fake_preset\<rparr>,
     cb_remaining_depth = 1,
     cb_parent = \<lparr>ps_backend = ParentStdio, ps_adapter_cmd = [''fake''], ps_tcp_endpoint = None\<rparr>\<rparr>"

definition demo_start :: request where
  "demo_start = \<lparr>rq_seq = 3, rq_command = ''startDebugging'',
     rq_arguments = Some (JObject [(''configuration'', JNull), (''request'', JString ''launch'')])\<rparr>"

definition demo_children :: "(request \<times> (child_spawn_plan \<Rightarrow> string + child_spawn_result)) list" where
  "demo_children =
     [(demo_start, \<lambda>_. Inr \<lparr>cr_control_port = 42, cr_instance_id = ''child''\<rparr>),
      (demo_start, \<lambda>_. Inr \<lparr>cr_control_port = 43, cr_instance_id = ''child''\<rparr>)]"


text \<open>What a child session is spawned with under the presets: \<open>fake\<close> runs the parent's adapter
  again, \<open>lldb-dap\<close> reuses the parent's TCP endpoint and refuses a stdio parent with its own
  message, and \<open>debugpy\<close> connects to the host and port of the request; the request and its
  configuration are forwarded, and the depth left is one less.\<close>

theorem child_presets_resolve:
  assumes on: "cc_auto_spawn config" "0 < depth" "active < cc_max_children config"
  shows "(cc_profile config = fake_preset \<and> sd_request a = ''launch'' \<and> ps_backend parent = ParentStdio \<and>
      strip_emit_start_debugging (ps_adapter_cmd parent) = c # rest \<longrightarrow>
      resolve_child_spawn pointer print config depth active parent a = Inr
        \<lparr>cp_backend = PlanStdio c rest, cp_debug_request = ''launch'', cp_debug_arguments = sd_configuration a,
         cp_child_depth = depth - 1\<rparr>) \<and>
    (cc_profile config = lldb_dap_preset \<and> ps_backend parent = ParentTcp \<and>
      ps_tcp_endpoint parent = Some (host @ '':'' @ show_nat port) \<and> port < 2 ^ 16 \<longrightarrow>
      resolve_child_spawn pointer print config depth active parent a = Inr
        \<lparr>cp_backend = PlanTcp host port, cp_debug_request = sd_request a, cp_debug_arguments = sd_configuration a,
         cp_child_depth = depth - 1\<rparr>) \<and>
    (cc_profile config = lldb_dap_preset \<and> ps_backend parent = ParentStdio \<longrightarrow>
      resolve_child_spawn pointer print config depth active parent a = Inl lldb_dap_stdio_unsupported_message) \<and>
    (cc_profile config = debugpy_preset \<and> sd_request a = ''attach'' \<and> port < 2 ^ 16 \<and>
      pointer (start_debugging_to_value a) ''/configuration/connect/host'' = Some (JString host) \<and>
      pointer (start_debugging_to_value a) ''/configuration/connect/port'' = Some (jint (int port)) \<longrightarrow>
      resolve_child_spawn pointer print config depth active parent a = Inr
        \<lparr>cp_backend = PlanTcp host port, cp_debug_request = ''attach'', cp_debug_arguments = sd_configuration a,
         cp_child_depth = depth - 1\<rparr>)"
  using resolve_fake [OF on] resolve_lldb [OF on, of pointer print parent a]
    resolve_debugpy [OF on, of a pointer host "int port" print parent] parse_host_port_show [of port host]
  by auto

lemma child_presets_resolve_witness:
  "resolve_child_spawn (\<lambda>_ p. if p = ''/configuration/connect/host'' then Some (JString ''::1'') else Some (jint 5678)) (\<lambda>_. [])
     \<lparr>cc_auto_spawn = True, cc_max_children = 4, cc_max_depth = 1, cc_profile = debugpy_preset\<rparr> 1 0
     \<lparr>ps_backend = ParentStdio, ps_adapter_cmd = [''debugpy''], ps_tcp_endpoint = None\<rparr>
     \<lparr>sd_request = ''attach'', sd_configuration = JNull\<rparr> =
   Inr \<lparr>cp_backend = PlanTcp ''::1'' 5678, cp_debug_request = ''attach'', cp_debug_arguments = JNull, cp_child_depth = 0\<rparr>"
  using child_presets_resolve
    [where config = "\<lparr>cc_auto_spawn = True, cc_max_children = 4, cc_max_depth = 1, cc_profile = debugpy_preset\<rparr>"
      and depth = 1 and active = 0 and a = "\<lparr>sd_request = ''attach'', sd_configuration = JNull\<rparr>"
      and pointer = "\<lambda>_ p. if p = ''/configuration/connect/host'' then Some (JString ''::1'') else Some (jint 5678)"
      and host = "''::1''" and port = 5678 and print = "\<lambda>_. []"
      and parent = "\<lparr>ps_backend = ParentStdio, ps_adapter_cmd = [''debugpy''], ps_tcp_endpoint = None\<rparr>"]
  by simp

end
