(* ===== verification/CoreBridge.thy ===== *)
theory CoreBridge imports CoreChild PluginLaunch CoreEngine begin

text \<open>
  What happens to a message between the two transports and the multiplexer
  (\<open>dap-core/src/mux_bridge.rs\<close>): the proxy's own request and capability (\<open>proxy_plugin.rs\<close>), the
  adapter's reverse requests (\<open>reverse_request.rs\<close>), the defaults of an RSP target
  (\<open>rsp_target.rs\<close>) and the disconnect sent when the proxy shuts down (\<open>adapter_guard.rs\<close>). Starting a
  process and creating a log file are parameters.
\<close>

section \<open>The proxy's own request\<close>

definition plugin_info_command :: string where
  "plugin_info_command = ''dapProxyPluginInfo''"

definition supports_plugin_info :: string where
  "supports_plugin_info = ''supportsDapProxyPluginInfoRequest''"

definition json_strings :: "string list \<Rightarrow> json" where
  "json_strings xs = JArray (map JString xs)"

definition plugin_info_body :: "host \<Rightarrow> plugin_manifest \<Rightarrow> json" where
  "plugin_info_body h m =
     (let body = [(''pluginId'', JString (pm_id m)), (''adapterId'', JString (pm_id m)), (''name'', JString (pm_name m)),
                  (''version'', JString (pm_version m)), (''launchTypes'', json_strings (pm_launch_types m)),
                  (''fileExtensions'', json_strings (pm_file_extensions m))];
          spec = (case pm_attachment m of Some a \<Rightarrow> [(''attachmentSpec'', JString a)] | None \<Rightarrow> []);
          path = (case attachment_path h m of Some p \<Rightarrow> [(''attachment'', JString p)] | None \<Rightarrow> [])
      in jobj (body @ spec @ path))"

fun augment_initialize_response :: "message \<Rightarrow> message" where
  "augment_initialize_response (Response r) =
     (if rs_command r \<noteq> Some ''initialize'' then Response r
      else Response (r\<lparr>rs_body := Some
        (case unwrap_or (rs_body r) (jobj []) of
           JObject m \<Rightarrow> JObject (obj_insert supports_plugin_info (JBool True) m)
         | v \<Rightarrow> v)\<rparr>))"
| "augment_initialize_response m = m"

definition handle_plugin_info_request :: "host \<Rightarrow> request \<Rightarrow> plugin_manifest \<Rightarrow> message" where
  "handle_plugin_info_request h r m =
     Response \<lparr>rs_seq = 0, rs_request_seq = rq_seq r, rs_success = True, rs_command = Some plugin_info_command,
       rs_message = None, rs_body = Some (plugin_info_body h m)\<rparr>"

fun try_handle_client_request :: "host \<Rightarrow> plugin_manifest \<Rightarrow> message \<Rightarrow> message option" where
  "try_handle_client_request h m (Request r) =
     (if rq_command r = plugin_info_command then Some (handle_plugin_info_request h r m) else None)"
| "try_handle_client_request h m _ = None"

section \<open>Reverse requests\<close>

record terminal_command =
  tc_program :: string
  tc_arguments :: "string list"
  tc_cwd :: "string option"
  tc_env :: "(string \<times> string) list"
  tc_log_path :: string

definition run_in_terminal_log_path :: "string \<Rightarrow> int \<Rightarrow> string" where
  "run_in_terminal_log_path temp_dir n =
     path_join (path_join temp_dir ''dap-run-in-terminal'') (show_int n @ ''.log'')"

definition succeed_reverse_request :: "request \<Rightarrow> json option \<Rightarrow> message" where
  "succeed_reverse_request r body =
     Response \<lparr>rs_seq = 0, rs_request_seq = rq_seq r, rs_success = True, rs_command = Some (rq_command r),
       rs_message = None, rs_body = body\<rparr>"

definition fail_reverse_request :: "request \<Rightarrow> string \<Rightarrow> message" where
  "fail_reverse_request r msg =
     Response \<lparr>rs_seq = 0, rs_request_seq = rq_seq r, rs_success = False, rs_command = Some (rq_command r),
       rs_message = Some msg, rs_body = None\<rparr>"

definition json_texts :: "json list \<Rightarrow> string list" where
  "json_texts xs = List.map_filter as_str xs"

definition json_env :: "jmap \<Rightarrow> (string \<times> string) list" where
  "json_env m = List.map_filter (\<lambda>(k, v). map_option (Pair k) (as_str v)) m"

text \<open>\<open>run\<close> opens the log and starts the process: the message of a failure or the process id.\<close>

definition handle_run_in_terminal ::
    "string \<Rightarrow> (terminal_command \<Rightarrow> string + nat) \<Rightarrow> request \<Rightarrow> message" where
  "handle_run_in_terminal temp_dir run r =
     (let arguments = unwrap_or (rq_arguments r) JNull
      in case get_array arguments ''args'' of
           None \<Rightarrow> fail_reverse_request r ''runInTerminal missing args''
         | Some [] \<Rightarrow> fail_reverse_request r ''runInTerminal missing args''
         | Some (first # rest) \<Rightarrow>
             (let program = unwrap_or (as_str first) []
              in if program = [] then fail_reverse_request r ''runInTerminal args[0] must be a command''
                 else let log = run_in_terminal_log_path temp_dir (rq_seq r)
                   in case run \<lparr>tc_program = program, tc_arguments = json_texts rest,
                                tc_cwd = get_str arguments ''cwd'',
                                tc_env = json_env (unwrap_or (Option.bind (jget arguments ''env'') as_object) []),
                                tc_log_path = log\<rparr> of
                        Inl err \<Rightarrow> fail_reverse_request r err
                      | Inr pid \<Rightarrow> succeed_reverse_request r
                          (Some (jobj [(''captured'', JBool True), (''logPath'', JString log),
                                       (''processId'', jint (int pid))]))))"

fun handle_reverse_request ::
    "(string \<Rightarrow> string) \<Rightarrow> string \<Rightarrow> (terminal_command \<Rightarrow> string + nat) \<Rightarrow> message \<Rightarrow> message option" where
  "handle_reverse_request quote temp_dir run (Request r) =
     (if rq_command r = ''startDebugging'' then Some (decline_reverse_request quote r)
      else if rq_command r = ''runInTerminal'' then Some (handle_run_in_terminal temp_dir run r)
      else None)"
| "handle_reverse_request quote temp_dir run _ = None"

section \<open>Defaults of an RSP target\<close>

definition fill_missing :: "jmap \<Rightarrow> jmap \<Rightarrow> jmap" where
  "fill_missing m defaults = foldl (\<lambda>m (k, v). obj_or_insert k v m) m defaults"

fun merge_default_attach_arguments :: "json \<Rightarrow> json \<Rightarrow> json" where
  "merge_default_attach_arguments (JObject m) (JObject defaults) = JObject (fill_missing m defaults)"
| "merge_default_attach_arguments JNull (JObject defaults) = JObject defaults"
| "merge_default_attach_arguments client (JObject defaults) = JObject (obj_insert ''extra'' client defaults)"
| "merge_default_attach_arguments client defaults = client"

fun merge_debug_request_arguments :: "json \<Rightarrow> message \<Rightarrow> message" where
  "merge_debug_request_arguments defaults (Request r) =
     (if rq_command r \<noteq> ''attach'' \<and> rq_command r \<noteq> ''launch'' then Request r
      else Request (r\<lparr>rq_arguments := Some (merge_default_attach_arguments (unwrap_or (rq_arguments r) (jobj [])) defaults)\<rparr>))"
| "merge_debug_request_arguments defaults m = m"

text \<open>The target's process is \<open>start\<close>: the message of a failure, or its id once the endpoint answers.\<close>

definition prepare_rsp_target ::
    "host \<Rightarrow> (target_spawn \<Rightarrow> string \<Rightarrow> nat \<Rightarrow> string + nat) \<Rightarrow> engine \<Rightarrow> string \<Rightarrow> string
       \<Rightarrow> (engine_error option \<times> string) + nat option \<times> json" where
  "prepare_rsp_target h start en target program =
     (case target_get (en_targets en) target of
        None \<Rightarrow> Inl (None, ''unknown RSP target `'' @ target @ ''`'')
      | Some manifest \<Rightarrow>
          (case resolve_target h manifest program of
             Inl e \<Rightarrow> Inl (Some (Plugins e), [])
           | Inr profile \<Rightarrow>
               (case rt_spawn profile of
                  None \<Rightarrow> Inr (None, attach_arguments profile)
                | Some s \<Rightarrow>
                    (case start s (rt_host profile) (rt_port profile) of
                       Inl msg \<Rightarrow> Inl (None, msg)
                     | Inr pid \<Rightarrow> Inr (Some pid, attach_arguments profile)))))"

lemma fill_missing_get:
  "distinct (map fst defaults) \<Longrightarrow> obj_get (fill_missing m defaults) k = or_else (obj_get m k) (obj_get defaults k)"
  unfolding fill_missing_def
proof (induction defaults arbitrary: m)
  case (Cons p defaults)
  obtain j v where p: "p = (j, v)" by (cases p)
  have "obj_get defaults j = None" using Cons.prems by (auto simp: p map_of_eq_None_iff)
  then show ?case
    using Cons.IH [of "obj_or_insert j v m"] Cons.prems
    by (auto simp: p obj_or_insert_def or_else_def split: option.splits)
qed (simp add: or_else_def split: option.split)

section \<open>The bridges\<close>

text \<open>A message of a client: answered by the proxy, or sent on to the multiplexer.\<close>

definition bridge_client_message :: "host \<Rightarrow> plugin_manifest option \<Rightarrow> message \<Rightarrow> message + json" where
  "bridge_client_message h plugin_context m =
     (case Option.bind plugin_context (\<lambda>p. try_handle_client_request h p m) of
        Some reply \<Rightarrow> Inl reply
      | None \<Rightarrow> Inr (message_to_value m))"

text \<open>What the bridge to the adapter is given: the child sessions, the plugin and the parameters.\<close>

record bridge_env =
  be_children :: "child_bridge option"
  be_plugin :: "plugin_manifest option"
  be_pointer :: "json \<Rightarrow> string \<Rightarrow> json option"
  be_print :: "json \<Rightarrow> string"
  be_quote :: "string \<Rightarrow> string"
  be_temp_dir :: string
  be_spawn :: "child_spawn_plan \<Rightarrow> string + child_spawn_result"
  be_run :: "terminal_command \<Rightarrow> string + nat"

text \<open>
  A message of the adapter, with the counter of children: a reply to the adapter, or a value for the
  multiplexer.
\<close>

definition is_start_debugging :: "message \<Rightarrow> request option" where
  "is_start_debugging m = (case m of Request r \<Rightarrow> if rq_command r = ''startDebugging'' then Some r else None | _ \<Rightarrow> None)"

definition bridge_backend_message :: "bridge_env \<Rightarrow> message \<Rightarrow> nat \<Rightarrow> (message + json) \<times> nat" where
  "bridge_backend_message env m active =
     (case (is_start_debugging m, be_children env) of
        (Some r, Some b) \<Rightarrow>
          (case handle_start_debugging (be_pointer env) (be_print env) b (be_spawn env) r active of
             (reply, _, active') \<Rightarrow> (Inl reply, active'))
      | _ \<Rightarrow>
          (case handle_reverse_request (be_quote env) (be_temp_dir env) (be_run env) m of
             Some reply \<Rightarrow> (Inl reply, active)
           | None \<Rightarrow>
               (Inr (message_to_value (if be_plugin env \<noteq> None then augment_initialize_response m else m)), active)))"

text \<open>A value of the multiplexer for the adapter; \<open>None\<close> ends the bridge with a decode error.\<close>

definition bridge_upstream_value :: "json option \<Rightarrow> json \<Rightarrow> message option" where
  "bridge_upstream_value attach_defaults v =
     map_option (\<lambda>m. case attach_defaults of Some d \<Rightarrow> merge_debug_request_arguments d m | None \<Rightarrow> m)
       (value_to_message v)"

text \<open>A value of the multiplexer for a client.\<close>

definition bridge_egress_value :: "json \<Rightarrow> message option" where
  "bridge_egress_value v = value_to_message v"

definition request_adapter_disconnect :: message where
  "request_adapter_disconnect =
     Request \<lparr>rq_seq = 1, rq_command = ''disconnect'', rq_arguments = Some (jobj [(''terminateDebuggee'', JBool True)])\<rparr>"

section \<open>What the bridges do\<close>

definition reverse_commands :: "string set" where
  "reverse_commands = {''startDebugging'', ''runInTerminal''}"

text \<open>A reply to a request.\<close>

definition replies_to :: "request \<Rightarrow> message \<Rightarrow> bool" where
  "replies_to r m \<longleftrightarrow> (\<exists>x. m = Response x \<and> rs_request_seq x = rq_seq r)"

lemma replies_to_simps [simp]:
  "replies_to r (success_reverse_response r)" "replies_to r (fail_reverse_response r e)"
  "replies_to r (succeed_reverse_request r b)" "replies_to r (fail_reverse_request r e)"
  "replies_to r (decline_reverse_request quote r)" "replies_to r (handle_plugin_info_request h r m)"
  by (simp_all add: replies_to_def success_reverse_response_def fail_reverse_response_def decline_reverse_request_def
      succeed_reverse_request_def fail_reverse_request_def handle_plugin_info_request_def)

lemma handle_start_debugging_replies:
  "handle_start_debugging pointer print b spawn r active = (reply, plan, active') \<Longrightarrow> replies_to r reply"
  by (auto simp: handle_start_debugging_def split: option.splits sum.splits)

lemma handle_run_in_terminal_replies: "replies_to r (handle_run_in_terminal temp_dir run r)"
  by (auto simp: handle_run_in_terminal_def Let_def split: option.split list.split sum.split)

lemma bridge_backend_reverse:
  assumes "rq_command r \<in> reverse_commands"
  shows "\<exists>reply active'. bridge_backend_message env (Request r) active = (Inl reply, active') \<and> replies_to r reply"
proof (cases "rq_command r = ''startDebugging''")
  case True
  show ?thesis
  proof (cases "be_children env")
    case None
    with True show ?thesis by (simp add: bridge_backend_message_def is_start_debugging_def)
  next
    case (Some b)
    obtain reply plan active' where
      h: "handle_start_debugging (be_pointer env) (be_print env) b (be_spawn env) r active = (reply, plan, active')"
      by (cases "handle_start_debugging (be_pointer env) (be_print env) b (be_spawn env) r active")
    with True Some show ?thesis
      using handle_start_debugging_replies [OF h] by (simp add: bridge_backend_message_def is_start_debugging_def)
  qed
next
  case False
  then have "rq_command r = ''runInTerminal''" using assms by (simp add: reverse_commands_def)
  with False show ?thesis
    by (simp add: bridge_backend_message_def is_start_debugging_def handle_run_in_terminal_replies)
qed

lemma bridge_backend_forward:
  assumes "\<forall>r. m = Request r \<longrightarrow> rq_command r \<notin> reverse_commands"
  shows "bridge_backend_message env m active =
    (Inr (message_to_value (if be_plugin env \<noteq> None then augment_initialize_response m else m)), active)"
  using assms
  by (cases m) (auto simp: bridge_backend_message_def is_start_debugging_def reverse_commands_def)

end
