(* ===== verification/ProxyMain.thy ===== *)
theory ProxyMain imports CoreBridge begin

text \<open>
  The executable \<open>dap-proxy\<close>: its options and how they become a session (\<open>src/main.rs\<close>), the session
  file that is removed at exit (\<open>src/lib.rs\<close>), and the command line and ready line of a child proxy
  (\<open>src/child_supervisor.rs\<close>). Parsing the command line is a crate; the record below is its result.
\<close>

section \<open>Options\<close>

record cli =
  cli_stdio :: bool
  cli_headless :: bool
  cli_adapter :: "string option"
  cli_adapter_cmd :: "string list option"
  cli_fake_emit_start_debugging :: bool
  cli_program :: "string option"
  cli_target :: "string option"
  cli_plugins_dir :: "string option"
  cli_control_port :: nat
  cli_no_control :: bool
  cli_scope :: "string option"
  cli_child_sessions :: bool
  cli_child_max_depth :: nat
  cli_child_max_children :: nat
  cli_child_profile :: string
  cli_child_profile_file :: "string option"
  cli_adapter_tcp :: "string option"
  cli_parent_id :: "string option"
  cli_child_depth :: nat
  cli_client_idle_timeout_secs :: nat
  cli_debug_request :: "string option"
  cli_debug_args :: string

definition build_launch_options :: "cli \<Rightarrow> string + launch_options" where
  "build_launch_options c =
     (if cli_target c \<noteq> None \<and> cli_program c = None then Inl ''--target requires --program''
      else Inr \<lparr>lo_request = ''launch'', lo_program = cli_program c,
                lo_adapter = or_else (cli_adapter c) (map_option (\<lambda>_. ''gdb-remote'') (cli_target c)),
                lo_extra = jobj []\<rparr>)"

record mux_options =
  mo_control_port :: "nat option"
  mo_client_idle_timeout :: "nat option"
  mo_plugin_context :: "plugin_manifest option"
  mo_attach_defaults :: "json option"

definition build_mux_options :: "cli \<Rightarrow> mux_options" where
  "build_mux_options c =
     \<lparr>mo_control_port = (if cli_headless c then Some (cli_control_port c)
                         else if cli_no_control c then None else Some (cli_control_port c)),
      mo_client_idle_timeout = (if cli_stdio c \<and> cli_client_idle_timeout_secs c > 0
                                then Some (cli_client_idle_timeout_secs c) else None),
      mo_plugin_context = None, mo_attach_defaults = None\<rparr>"

section \<open>Child sessions\<close>

definition load_child_profile ::
    "(string \<Rightarrow> string option) \<Rightarrow> (string \<Rightarrow> json option) \<Rightarrow> (json \<Rightarrow> string + child_rule list \<times> string option)
       \<Rightarrow> (json \<Rightarrow> string) \<Rightarrow> cli \<Rightarrow> string + child_profile" where
  "load_child_profile read parse explicit print c =
     (case cli_child_profile_file c of
        Some path \<Rightarrow>
          (case read path of
             None \<Rightarrow> Inl (''read child profile file '' @ path)
           | Some body \<Rightarrow>
               (case parse body of
                  None \<Rightarrow> Inl ''parse child profile file as JSON''
                | Some v \<Rightarrow> deserialize_profile explicit print v))
      | None \<Rightarrow>
          (case from_preset (cli_child_profile c) of
             Some p \<Rightarrow> Inr p
           | None \<Rightarrow> Inl (''unknown child profile preset '' @ [CHR 0x27] @ cli_child_profile c @ [CHR 0x27]
               @ ''; expected fake, debugpy, or lldb-dap'')))"

definition parent_context :: "cli \<Rightarrow> string list \<Rightarrow> parent_session" where
  "parent_context c adapter_cmd =
     \<lparr>ps_backend = (if cli_adapter_tcp c \<noteq> None then ParentTcp else ParentStdio),
      ps_adapter_cmd = adapter_cmd, ps_tcp_endpoint = cli_adapter_tcp c\<rparr>"

record supervisor =
  sv_scope :: "string option"
  sv_parent_instance_id :: string
  sv_child_profile :: string
  sv_child_profile_file :: "string option"
  sv_child_max_children :: nat

definition remaining_depth :: "cli \<Rightarrow> nat" where
  "remaining_depth c = (if cli_headless c then cli_child_depth c else cli_child_max_depth c)"

definition build_child_session_bridge ::
    "(cli \<Rightarrow> string + child_profile) \<Rightarrow> cli \<Rightarrow> string \<Rightarrow> string list \<Rightarrow> string + (child_bridge \<times> supervisor) option" where
  "build_child_session_bridge load_profile c parent_id adapter_cmd =
     (if remaining_depth c = 0 then Inr None
      else if \<not> cli_headless c \<and> \<not> cli_child_sessions c then Inr None
      else case load_profile c of
        Inl e \<Rightarrow> Inl e
      | Inr profile \<Rightarrow> Inr (Some
          (\<lparr>cb_config = \<lparr>cc_auto_spawn = True, cc_max_children = cli_child_max_children c,
                         cc_max_depth = remaining_depth c, cc_profile = profile\<rparr>,
            cb_remaining_depth = remaining_depth c, cb_parent = parent_context c adapter_cmd\<rparr>,
           \<lparr>sv_scope = cli_scope c, sv_parent_instance_id = parent_id, sv_child_profile = cli_child_profile c,
            sv_child_profile_file = cli_child_profile_file c, sv_child_max_children = cli_child_max_children c\<rparr>)))"

definition opt_args :: "string \<Rightarrow> string option \<Rightarrow> string list" where
  "opt_args flag x = (case x of Some v \<Rightarrow> [flag, v] | None \<Rightarrow> [])"

definition child_command_line :: "(json \<Rightarrow> string) \<Rightarrow> supervisor \<Rightarrow> child_spawn_plan \<Rightarrow> string list" where
  "child_command_line print sv p =
     [''--headless'', ''--control-port'', ''0'', ''--parent-id'', sv_parent_instance_id sv,
      ''--child-profile'', sv_child_profile sv]
     @ opt_args ''--child-profile-file'' (sv_child_profile_file sv)
     @ (if cp_child_depth p > 0 then [''--child-sessions''] else [])
     @ [''--child-depth'', show_nat (cp_child_depth p), ''--child-max-children'', show_nat (sv_child_max_children sv),
        ''--debug-request'', cp_debug_request p, ''--debug-args'', print (cp_debug_arguments p)]
     @ (case cp_backend p of
          PlanStdio cmd as \<Rightarrow> ''--adapter-cmd'' # cmd # as
        | PlanTcp host port \<Rightarrow> [''--adapter-tcp'', host @ '':'' @ show_nat port])
     @ opt_args ''--scope'' (sv_scope sv)"

text \<open>The lines of the child's standard error; \<open>None\<close> is the deadline. The port is cut to 16 bits.\<close>

fun read_child_ready :: "(string \<Rightarrow> json option) \<Rightarrow> string option list \<Rightarrow> string + child_spawn_result" where
  "read_child_ready parse [] = Inl ''child proxy did not report controlPort/instanceId''"
| "read_child_ready parse (None # ls) = Inl ''timed out waiting for child ready line''"
| "read_child_ready parse (Some line # ls) =
     (if trim line = [] then read_child_ready parse ls
      else case parse (trim line) of
        None \<Rightarrow> read_child_ready parse ls
      | Some v \<Rightarrow>
          (case (Option.bind (jget v ''controlPort'') as_u64, get_str v ''instanceId'') of
             (Some port, Some i) \<Rightarrow> Inr \<lparr>cr_control_port = nat (port mod 2 ^ 16), cr_instance_id = i\<rparr>
           | _ \<Rightarrow> read_child_ready parse ls))"

section \<open>The adapter\<close>

datatype proxy_error = ProxyEngine engine_error | ProxyOption string

text \<open>\<open>resolve_adapter_spawn\<close> of \<open>lib.rs\<close>.\<close>

definition proxy_adapter_spawn :: "string list option \<Rightarrow> engine \<Rightarrow> launch_options \<Rightarrow> proxy_error + adapter_spawn" where
  "proxy_adapter_spawn adapter_cmd en l =
     (case adapter_cmd of
        Some [] \<Rightarrow> Inl (ProxyOption ''--adapter-cmd requires a command'')
      | Some (cmd # as) \<Rightarrow> Inr \<lparr>as_transport = Stdio, as_command = cmd, as_args = as\<rparr>
      | None \<Rightarrow> (case resolve_adapter_spawn en l of Inl e \<Rightarrow> Inl (ProxyEngine e) | Inr s \<Rightarrow> Inr s))"

definition resolve_backend_spawn :: "cli \<Rightarrow> engine \<Rightarrow> launch_options \<Rightarrow> proxy_error + adapter_spawn" where
  "resolve_backend_spawn c en l =
     (case cli_adapter_tcp c of
        Some endpoint \<Rightarrow> Inr \<lparr>as_transport = Tcp, as_command = endpoint, as_args = []\<rparr>
      | None \<Rightarrow>
          (case proxy_adapter_spawn (cli_adapter_cmd c) en l of
             Inl e \<Rightarrow> Inl e
           | Inr s \<Rightarrow> Inr (if cli_fake_emit_start_debugging c
                          then s\<lparr>as_args := as_args s @ [''--emit-start-debugging'']\<rparr> else s)))"

definition adapter_cmd_from_spawn :: "adapter_spawn \<Rightarrow> string list option \<Rightarrow> string list" where
  "adapter_cmd_from_spawn s explicit = (case explicit of Some cmd \<Rightarrow> cmd | None \<Rightarrow> as_command s # as_args s)"

section \<open>The session file\<close>

record cleanup_guard =
  cg_instance_id :: "string option"

definition guard_new :: "(string \<Rightarrow> session_record option) \<Rightarrow> world \<Rightarrow> io \<Rightarrow> store \<Rightarrow> cleanup_guard \<times> store" where
  "guard_new decode w io d = (\<lparr>cg_instance_id = None\<rparr>, snd (store_list_active decode w io d))"

definition guard_arm :: "string \<Rightarrow> cleanup_guard \<Rightarrow> cleanup_guard" where
  "guard_arm i g = g\<lparr>cg_instance_id := Some i\<rparr>"

definition guard_disarm :: "cleanup_guard \<Rightarrow> cleanup_guard" where
  "guard_disarm g = g\<lparr>cg_instance_id := None\<rparr>"

definition guard_save :: "(session_record \<Rightarrow> string) \<Rightarrow> io \<Rightarrow> session_record \<Rightarrow> store \<Rightarrow> (instance_error + unit) \<times> store" where
  "guard_save encode io r d = store_save encode io r d"

definition guard_drop :: "io \<Rightarrow> cleanup_guard \<Rightarrow> store \<Rightarrow> store" where
  "guard_drop io g d = (case cg_instance_id g of Some i \<Rightarrow> snd (store_delete io i d) | None \<Rightarrow> d)"

definition session_file :: "cli \<Rightarrow> nat \<Rightarrow> int \<Rightarrow> session_handle \<Rightarrow> nat \<Rightarrow> session_record" where
  "session_file c own_pid now sh port =
     \<lparr>sr_instance_id = sh_instance_id sh, sr_pid = own_pid, sr_control_port = port,
      sr_adapter_id = sh_adapter_id sh, sr_program = cli_program c, sr_scope = cli_scope c,
      sr_parent_id = cli_parent_id c, sr_started_at_unix = now\<rparr>"

section \<open>Setting a session up\<close>

record proxy_parts =
  pp_spawn :: adapter_spawn
  pp_session :: session_handle
  pp_options :: mux_options
  pp_children :: "(child_bridge \<times> supervisor) option"

text \<open>The parameters of a start: the host, the processes, the profile loader, and a fresh id and time.\<close>

record proxy_env =
  pe_host :: host
  pe_start_target :: "target_spawn \<Rightarrow> string \<Rightarrow> nat \<Rightarrow> string + nat"
  pe_backend :: "adapter_spawn \<Rightarrow> string + unit"
  pe_load_profile :: "cli \<Rightarrow> string + child_profile"
  pe_uuid :: string
  pe_now :: int
  pe_pid :: nat

text \<open>The attach defaults of the target the command line names.\<close>

definition target_defaults :: "proxy_env \<Rightarrow> cli \<Rightarrow> engine \<Rightarrow> launch_options \<Rightarrow> proxy_error + json option" where
  "target_defaults env c en launch =
     (case cli_target c of
        None \<Rightarrow> Inr None
      | Some t \<Rightarrow>
          (case lo_program launch of
             None \<Rightarrow> Inl (ProxyOption ''--target requires --program'')
           | Some program \<Rightarrow>
               (case prepare_rsp_target (pe_host env) (pe_start_target env) en t program of
                  Inl (Some e, _) \<Rightarrow> Inl (ProxyEngine e)
                | Inl (None, msg) \<Rightarrow> Inl (ProxyOption msg)
                | Inr (_, attach) \<Rightarrow> Inr (Some attach))))"

text \<open>From the resolved launch on, both modes go the same way.\<close>

definition assemble_proxy ::
    "proxy_env \<Rightarrow> cli \<Rightarrow> json option \<Rightarrow> launch_options \<Rightarrow> engine \<Rightarrow> (proxy_error + proxy_parts) \<times> engine" where
  "assemble_proxy env c defaults launch en =
     (case resolve_backend_spawn c en launch of
        Inl e \<Rightarrow> (Inl e, en)
      | Inr spawn \<Rightarrow>
          (case pe_backend env spawn of
             Inl msg \<Rightarrow> (Inl (ProxyOption msg), en)
           | Inr _ \<Rightarrow>
               (case prepare_session (pe_uuid env) (pe_now env) launch en of
                  (Inl e, en) \<Rightarrow> (Inl (ProxyEngine e), en)
                | (Inr sh, en) \<Rightarrow>
                    (case mark_running (pe_pid env) sh en of
                       (Inl e, en) \<Rightarrow> (Inl (ProxyEngine e), en)
                     | (Inr _, en) \<Rightarrow>
                         (case build_child_session_bridge (pe_load_profile env) c (sh_instance_id sh)
                                 (adapter_cmd_from_spawn spawn (cli_adapter_cmd c)) of
                            Inl msg \<Rightarrow> (Inl (ProxyOption msg), en)
                          | Inr children \<Rightarrow> (Inr
                              \<lparr>pp_spawn = spawn, pp_session = sh,
                               pp_options = (build_mux_options c)
                                 \<lparr>mo_plugin_context := plugin_get (en_registry en) (sh_adapter_id sh),
                                  mo_attach_defaults := defaults\<rparr>,
                               pp_children = children\<rparr>, en))))))"

definition editor_setup :: "proxy_env \<Rightarrow> cli \<Rightarrow> engine \<Rightarrow> (proxy_error + proxy_parts) \<times> engine" where
  "editor_setup env c en =
     (case build_launch_options c of
        Inl msg \<Rightarrow> (Inl (ProxyOption msg), en)
      | Inr launch \<Rightarrow>
          (case target_defaults env c en launch of
             Inl e \<Rightarrow> (Inl e, en)
           | Inr defaults \<Rightarrow> assemble_proxy env c defaults launch en))"

text \<open>Headless: the request and its arguments are options, and the defaults go into the arguments.\<close>

definition headless_setup ::
    "(string \<Rightarrow> json option) \<Rightarrow> proxy_env \<Rightarrow> cli \<Rightarrow> engine \<Rightarrow> (proxy_error + json \<times> proxy_parts) \<times> engine" where
  "headless_setup parse env c en =
     (case cli_debug_request c of
        None \<Rightarrow> (Inl (ProxyOption ''--headless requires --debug-request''), en)
      | Some request \<Rightarrow>
     (case parse (cli_debug_args c) of
        None \<Rightarrow> (Inl (ProxyOption ''parse --debug-args as JSON''), en)
      | Some args \<Rightarrow>
     (case build_launch_options c of
        Inl msg \<Rightarrow> (Inl (ProxyOption msg), en)
      | Inr launch \<Rightarrow>
     (case target_defaults env c en launch of
        Inl e \<Rightarrow> (Inl e, en)
      | Inr defaults \<Rightarrow>
          (let debug_args = (case defaults of Some d \<Rightarrow> merge_default_attach_arguments args d | None \<Rightarrow> args)
           in case assemble_proxy env c defaults
                \<lparr>lo_request = request, lo_program = lo_program launch, lo_adapter = lo_adapter launch,
                 lo_extra = debug_args\<rparr> en of
                (Inl e, en) \<Rightarrow> (Inl e, en)
              | (Inr parts, en) \<Rightarrow> (Inr (debug_args, parts), en))))))"

section \<open>A plugin directory and a target\<close>

text \<open>
  With a plugin directory of its own the engine has no targets at all, so every target is refused.
\<close>

lemma load_plugins_from_dir_targets:
  "snd (load_plugins_from_dir h yaml_ok keys parse dir engine_new) = en \<Longrightarrow> en_targets en = []"
  by (auto simp: load_plugins_from_dir_def engine_new_def split: sum.splits)

lemma plugins_dir_refuses_targets:
  assumes "load_plugins_from_dir h yaml_ok keys parse dir engine_new = (Inr (), en)"
    and "cli_target c = Some t" and "cli_program c = Some p"
  shows "fst (editor_setup env c en) = Inl (ProxyOption (''unknown RSP target `'' @ t @ ''`''))"
proof -
  have "target_get (en_targets en) t = None"
    using load_plugins_from_dir_targets [of h yaml_ok keys parse dir en] assms(1) by (simp add: target_get_def)
  then show ?thesis
    using assms(2,3) by (simp add: editor_setup_def build_launch_options_def target_defaults_def prepare_rsp_target_def)
qed

section \<open>Generations of child proxies\<close>

text \<open>
  \<open>spawns c c'\<close>: the proxy started with \<open>c\<close> answers some child request by starting one with \<open>c'\<close>.
  The child is headless and has the depth the plan leaves, which is what \<open>child_command_line\<close> says.
\<close>

definition spawned_options :: "child_spawn_plan \<Rightarrow> cli \<Rightarrow> bool" where
  "spawned_options p c \<longleftrightarrow> cli_headless c \<and> cli_child_depth c = cp_child_depth p"

inductive spawns :: "cli \<Rightarrow> cli \<Rightarrow> bool" where
  "build_child_session_bridge load_profile c parent_id adapter_cmd = Inr (Some (b, sv)) \<Longrightarrow>
   resolve_child_spawn pointer print (cb_config b) (cb_remaining_depth b) active (cb_parent b) a = Inr plan \<Longrightarrow>
   spawned_options plan c' \<Longrightarrow> spawns c c'"

inductive_cases spawnsE: "spawns c c'"

lemma spawns_depth:
  assumes "spawns c c'"
  shows "0 < remaining_depth c \<and> remaining_depth c' = remaining_depth c - 1"
  using assms
proof (rule spawnsE)
  fix load_profile parent_id adapter_cmd b sv pointer print active a plan
  assume b: "build_child_session_bridge load_profile c parent_id adapter_cmd = Inr (Some (b, sv))"
    and p: "resolve_child_spawn pointer print (cb_config b) (cb_remaining_depth b) active (cb_parent b) a = Inr plan"
    and c': "spawned_options plan c'"
  have "cb_remaining_depth b = remaining_depth c"
    using b by (auto simp: build_child_session_bridge_def split: if_splits sum.splits)
  then show ?thesis using resolve_child_spawn_limits(2,4) [OF p] c'
    by (simp add: spawned_options_def remaining_depth_def)
qed

fun lineage :: "cli \<Rightarrow> cli list \<Rightarrow> bool" where
  "lineage c [] = True"
| "lineage c (c' # cs) \<longleftrightarrow> spawns c c' \<and> lineage c' cs"

lemma lineage_depth: "lineage c cs \<Longrightarrow> length cs \<le> remaining_depth c"
proof (induction cs arbitrary: c)
  case (Cons c' cs)
  then have step: "spawns c c'" and rest: "lineage c' cs" by simp_all
  show ?case using spawns_depth [OF step] Cons.IH [OF rest]
    by (cases "remaining_depth c") auto
qed simp

lemma spawns_terminate: "wfp (\<lambda>c' c. spawns c c')"
proof (rule wfp_subset)
  show "wfp (\<lambda>c' c. remaining_depth c' < remaining_depth c)"
    by (rule wfp_if_convertible_to_nat [of _ remaining_depth])
  show "(\<lambda>c' c. spawns c c') \<le> (\<lambda>c' c. remaining_depth c' < remaining_depth c)"
    using spawns_depth by (intro le_funI le_boolI) fastforce
qed

end
