(* ===== verification/ProxyProperties.thy ===== *)
theory ProxyProperties imports ProxyMain InstProperties begin

text \<open>
  The properties of the bridges and of the executable: reverse requests, the defaults of a target,
  the generations of child proxies and the session file, each with a witness.
\<close>

text \<open>The bridge answers each reverse request of the adapter itself, once and under the number of
  the request, and forwards everything else of the adapter to the multiplexer, changed at most
  by the capability the proxy adds; a client's request for the plugin information is answered
  with its number and nothing of it goes upstream.\<close>

theorem bridge_answers_reverse:
  "(rq_command r \<in> reverse_commands \<longrightarrow>
      (\<exists>reply active'. bridge_backend_message env (Request r) active = (Inl reply, active') \<and> replies_to r reply)) \<and>
   ((\<forall>q. m = Request q \<longrightarrow> rq_command q \<notin> reverse_commands) \<longrightarrow>
      bridge_backend_message env m active =
        (Inr (message_to_value (if be_plugin env \<noteq> None then augment_initialize_response m else m)), active)) \<and>
   (rq_command r = plugin_info_command \<longrightarrow>
      (\<exists>reply. bridge_client_message h (Some p) (Request r) = Inl reply \<and> replies_to r reply))"
  using bridge_backend_reverse [of r env active] bridge_backend_forward [of m env active]
  by (auto simp: bridge_client_message_def)

definition demo_env :: bridge_env where
  "demo_env = \<lparr>be_children = None, be_plugin = None, be_pointer = \<lambda>_ _. None, be_print = \<lambda>_. [], be_quote = id,
     be_temp_dir = ''/tmp'', be_spawn = \<lambda>_. Inl [], be_run = \<lambda>_. Inr 7\<rparr>"

lemma bridge_answers_reverse_witness:
  "(\<exists>reply active'. bridge_backend_message demo_env
      (Request \<lparr>rq_seq = 4, rq_command = ''runInTerminal'', rq_arguments = None\<rparr>) 0 = (Inl reply, active') \<and>
      replies_to \<lparr>rq_seq = 4, rq_command = ''runInTerminal'', rq_arguments = None\<rparr> reply) \<and>
   bridge_backend_message demo_env (Event \<lparr>ev_seq = 1, ev_event = ''output'', ev_body = None\<rparr>) 0 =
     (Inr (message_to_value (Event \<lparr>ev_seq = 1, ev_event = ''output'', ev_body = None\<rparr>)), 0)"
  using bridge_answers_reverse [of "\<lparr>rq_seq = 4, rq_command = ''runInTerminal'', rq_arguments = None\<rparr>" demo_env 0
      "Event \<lparr>ev_seq = 1, ev_event = ''output'', ev_body = None\<rparr>"]
  by (simp add: reverse_commands_def demo_env_def)

text \<open>C29: Merging a target's defaults into the arguments of an attach or launch request keeps every
  member the client gave and adds those it left out; other requests and other messages pass
  unchanged.\<close>

theorem attach_defaults_precedence:
  assumes "obj_ok d"
  shows "(rq_command r \<in> {''attach'', ''launch''} \<and> rq_arguments r = Some (JObject m) \<longrightarrow>
      (\<exists>m'. merge_debug_request_arguments (JObject d) (Request r) = Request (r\<lparr>rq_arguments := Some (JObject m')\<rparr>) \<and>
        (\<forall>k. obj_get m' k = or_else (obj_get m k) (obj_get d k)))) \<and>
    (rq_command r \<notin> {''attach'', ''launch''} \<longrightarrow> merge_debug_request_arguments (JObject d) (Request r) = Request r)"
  using fill_missing_get [OF obj_ok_distinct [OF assms], of m] by auto

lemma attach_defaults_precedence_witness:
  "\<exists>m'. merge_debug_request_arguments (JObject [(''host'', JString ''b''), (''port'', jint 1)])
      (Request \<lparr>rq_seq = 1, rq_command = ''attach'', rq_arguments = Some (JObject [(''host'', JString ''a'')])\<rparr>) =
    Request \<lparr>rq_seq = 1, rq_command = ''attach'', rq_arguments = Some (JObject m')\<rparr> \<and>
    obj_get m' ''host'' = Some (JString ''a'') \<and> obj_get m' ''port'' = Some (jint 1)"
proof -
  have "obj_ok [(''host'', JString ''b''), (''port'', jint 1)]" by (simp add: obj_ok_def)
  from attach_defaults_precedence [OF this,
      of "\<lparr>rq_seq = 1, rq_command = ''attach'', rq_arguments = Some (JObject [(''host'', JString ''a'')])\<rparr>"
        "[(''host'', JString ''a'')]"]
  obtain m' where "merge_debug_request_arguments (JObject [(''host'', JString ''b''), (''port'', jint 1)])
      (Request \<lparr>rq_seq = 1, rq_command = ''attach'', rq_arguments = Some (JObject [(''host'', JString ''a'')])\<rparr>) =
      Request \<lparr>rq_seq = 1, rq_command = ''attach'', rq_arguments = Some (JObject m')\<rparr>"
    and get: "\<forall>k. obj_get m' k = or_else (obj_get [(''host'', JString ''a'')] k)
      (obj_get [(''host'', JString ''b''), (''port'', jint 1)] k)"
    by auto
  moreover have "obj_get m' ''host'' = Some (JString ''a'')" "obj_get m' ''port'' = Some (jint 1)"
    using get by (simp_all add: or_else_def)
  ultimately show ?thesis by blast
qed

text \<open>C26: Child proxies end: a proxy starts children only while it has depth left and each child has
  one less, so a chain of proxies, each started by the one before, is no longer than the depth
  the first was given, and there is no endless one.\<close>

theorem child_generations_end:
  "wfp (\<lambda>c' c. spawns c c') \<and> (lineage c cs \<longrightarrow> length cs \<le> remaining_depth c)"
  using spawns_terminate lineage_depth by blast

definition demo_cli :: cli where
  "demo_cli = \<lparr>cli_stdio = True, cli_headless = False, cli_adapter = Some ''fake'', cli_adapter_cmd = None,
     cli_fake_emit_start_debugging = False, cli_program = None, cli_target = None, cli_plugins_dir = None,
     cli_control_port = 0, cli_no_control = False, cli_scope = None, cli_child_sessions = True,
     cli_child_max_depth = 1, cli_child_max_children = 16, cli_child_profile = ''fake'',
     cli_child_profile_file = None, cli_adapter_tcp = None, cli_parent_id = None, cli_child_depth = 0,
     cli_client_idle_timeout_secs = 0, cli_debug_request = None, cli_debug_args = ''{}''\<rparr>"

lemma child_generations_end_witness:
  "lineage demo_cli [demo_cli\<lparr>cli_headless := True\<rparr>] \<and> length [demo_cli\<lparr>cli_headless := True\<rparr>] \<le> remaining_depth demo_cli"
proof -
  have bridge: "build_child_session_bridge (\<lambda>_. Inr fake_preset) demo_cli ''p'' [''fake''] = Inr (Some
      (\<lparr>cb_config = \<lparr>cc_auto_spawn = True, cc_max_children = 16, cc_max_depth = 1, cc_profile = fake_preset\<rparr>,
        cb_remaining_depth = 1, cb_parent = parent_context demo_cli [''fake'']\<rparr>,
       \<lparr>sv_scope = None, sv_parent_instance_id = ''p'', sv_child_profile = ''fake'', sv_child_profile_file = None,
        sv_child_max_children = 16\<rparr>))"
    by (simp add: build_child_session_bridge_def remaining_depth_def demo_cli_def)
  have plan: "resolve_child_spawn (\<lambda>_ _. None) (\<lambda>_. [])
      \<lparr>cc_auto_spawn = True, cc_max_children = 16, cc_max_depth = 1, cc_profile = fake_preset\<rparr> 1 0
      (parent_context demo_cli [''fake'']) \<lparr>sd_request = ''launch'', sd_configuration = JNull\<rparr> =
      Inr \<lparr>cp_backend = PlanStdio ''fake'' [], cp_debug_request = ''launch'', cp_debug_arguments = JNull, cp_child_depth = 1 - 1\<rparr>"
    using resolve_fake [of "\<lparr>cc_auto_spawn = True, cc_max_children = 16, cc_max_depth = 1, cc_profile = fake_preset\<rparr>" 1 0
        "\<lparr>sd_request = ''launch'', sd_configuration = JNull\<rparr>" "parent_context demo_cli [''fake'']" "''fake''" "[]"]
    by (simp add: parent_context_def demo_cli_def strip_emit_start_debugging_def)
  have "spawns demo_cli (demo_cli\<lparr>cli_headless := True\<rparr>)"
    by (rule spawns.intros [OF bridge]) (use plan in \<open>auto simp: spawned_options_def demo_cli_def\<close>)
  then have line: "lineage demo_cli [demo_cli\<lparr>cli_headless := True\<rparr>]" by simp
  then show ?thesis using child_generations_end [of demo_cli "[demo_cli\<lparr>cli_headless := True\<rparr>]"] by blast
qed

text \<open>C30: The session file of a proxy lives as long as its guard: after saving, the session is found
  under its id with its port while the proxy lives, and when the armed guard is dropped its file
  is gone while the files of the other sessions are as they were.\<close>

theorem session_file_lifetime:
  fixes d :: store and w :: world
  assumes "decode (encode (session_file c pid now sh port)) = Some (session_file c pid now sh port)"
  defines "d1 \<equiv> snd (guard_new decode w io_ok d)"
  defines "d2 \<equiv> snd (guard_save encode io_ok (session_file c pid now sh port) d1)"
  shows "fst (store_get decode w io_ok (sh_instance_id sh) d2) =
      Inr (if is_pid_alive w pid \<and> is_control_port_in_use w port then Some (session_file c pid now sh port) else None) \<and>
    hm_get (guard_drop io_ok (guard_arm (sh_instance_id sh) (fst (guard_new decode w io_ok d))) d2)
      (record_path (sh_instance_id sh)) = None \<and>
    (\<forall>j. j \<noteq> sh_instance_id sh \<longrightarrow>
      hm_get (guard_drop io_ok (guard_arm (sh_instance_id sh) (fst (guard_new decode w io_ok d))) d2) (record_path j) =
        hm_get d1 (record_path j))"
proof -
  have fields: "sr_instance_id (session_file c pid now sh port) = sh_instance_id sh"
    "sr_pid (session_file c pid now sh port) = pid" "sr_control_port (session_file c pid now sh port) = port"
    by (simp_all add: session_file_def)
  have files: "hm_get d2 = (hm_get d1)(tmp_path (sh_instance_id sh) := None,
      record_path (sh_instance_id sh) \<mapsto> encode (session_file c pid now sh port))"
    unfolding d2_def guard_save_def store_save_files fields ..
  have "fst (store_get decode w io_ok (sh_instance_id sh) d2) =
      Inr (if record_alive w (session_file c pid now sh port) then Some (session_file c pid now sh port) else None)"
    using store_get_saved(1) [where decode = decode and encode = encode and r = "session_file c pid now sh port"
        and w = w and d = d1, OF assms(1)] by (simp add: d2_def guard_save_def fields)
  moreover have "guard_drop io_ok (guard_arm (sh_instance_id sh) g) d2 = hm_remove (record_path (sh_instance_id sh)) d2" for g
    by (simp add: guard_drop_def guard_arm_def store_delete_def files io_ok_None)
  moreover have "record_path j \<noteq> record_path (sh_instance_id sh)" if "j \<noteq> sh_instance_id sh" for j
    using that by (simp add: record_path_def)
  ultimately show ?thesis by (simp add: files record_alive_def fields)
qed

definition demo_handle :: session_handle where
  "demo_handle = \<lparr>sh_instance_id = ''s'', sh_adapter_id = ''fake'', sh_control_port = None\<rparr>"

lemma session_file_lifetime_witness:
  "hm_get (guard_drop io_ok (guard_arm ''s'' (fst (guard_new (\<lambda>_. Some (session_file demo_cli 7 5 demo_handle 4711)) demo_world io_ok [])))
      (snd (guard_save (\<lambda>_. ''{}'') io_ok (session_file demo_cli 7 5 demo_handle 4711)
        (snd (guard_new (\<lambda>_. Some (session_file demo_cli 7 5 demo_handle 4711)) demo_world io_ok [])))))
    (record_path ''s'') = None"
  using session_file_lifetime
    [of "\<lambda>_. Some (session_file demo_cli 7 5 demo_handle 4711)" "\<lambda>_. ''{}''" demo_cli 7 5 demo_handle 4711 demo_world "[]"]
  by (simp add: demo_handle_def)

end
