(* ===== verification/CoreRender.thy ===== *)
theory CoreRender imports CoreStop begin

text \<open>
  The text views of \<open>dap-core/src/render.rs\<close> (threads, stacks, variables, breakpoints, watches and
  the status line) with the styles of \<open>terminal_style.rs\<close>. The text of a JSON value is the crate's and
  a parameter. The lemma on styles says that taking the escape sequences out again gives the plain
  view.
\<close>

section \<open>Styles\<close>

record terminal_style =
  ts_enabled :: bool

definition plain_style :: terminal_style where
  "plain_style = \<lparr>ts_enabled = False\<rparr>"

definition style_detect :: "host \<Rightarrow> bool \<Rightarrow> terminal_style" where
  "style_detect h is_terminal =
     \<lparr>ts_enabled = (h_env h ''NO_COLOR'' = None \<and> is_terminal \<and>
        \<not> (case h_env h ''DAP_NO_COLOR'' of Some v \<Rightarrow> v \<noteq> [] \<and> v \<noteq> ''0'' | None \<Rightarrow> False))\<rparr>"

definition style_wrap :: "terminal_style \<Rightarrow> string \<Rightarrow> string \<Rightarrow> string" where
  "style_wrap s code text =
     (if ts_enabled s then [CHR 0x1B] @ ''['' @ code @ ''m'' @ text @ [CHR 0x1B] @ ''[0m'' else text)"

definition bold :: "terminal_style \<Rightarrow> string \<Rightarrow> string" where "bold s t = style_wrap s ''1'' t"
definition dim :: "terminal_style \<Rightarrow> string \<Rightarrow> string" where "dim s t = style_wrap s ''2'' t"
definition cyan :: "terminal_style \<Rightarrow> string \<Rightarrow> string" where "cyan s t = style_wrap s ''36'' t"
definition green :: "terminal_style \<Rightarrow> string \<Rightarrow> string" where "green s t = style_wrap s ''32'' t"
definition yellow :: "terminal_style \<Rightarrow> string \<Rightarrow> string" where "yellow s t = style_wrap s ''33'' t"
definition red :: "terminal_style \<Rightarrow> string \<Rightarrow> string" where "red s t = style_wrap s ''31'' t"
definition blue :: "terminal_style \<Rightarrow> string \<Rightarrow> string" where "blue s t = style_wrap s ''34'' t"

lemmas style_defs = bold_def dim_def cyan_def green_def yellow_def red_def blue_def

lemma style_plain [simp]:
  "bold plain_style t = t" "dim plain_style t = t" "cyan plain_style t = t" "green plain_style t = t"
  "yellow plain_style t = t" "red plain_style t = t" "blue plain_style t = t"
  by (simp_all add: style_defs style_wrap_def plain_style_def)

text \<open>Taking out the escape sequences: from an escape to the next \<open>m\<close>.\<close>

fun strip_escapes :: "bool \<Rightarrow> string \<Rightarrow> string" where
  "strip_escapes inside [] = []"
| "strip_escapes False (c # s) = (if c = CHR 0x1B then strip_escapes True s else c # strip_escapes False s)"
| "strip_escapes True (c # s) = strip_escapes (c \<noteq> CHR ''m'') s"

lemma strip_escapes_plain: "CHR 0x1B \<notin> set t \<Longrightarrow> strip_escapes False (t @ s) = t @ strip_escapes False s"
  by (induction t) auto

lemma strip_escapes_code: "CHR ''m'' \<notin> set code \<Longrightarrow> strip_escapes True (code @ CHR ''m'' # s) = strip_escapes False s"
  by (induction code) auto

lemma strip_escapes_wrap:
  assumes "CHR 0x1B \<notin> set t" and "CHR ''m'' \<notin> set code"
  shows "strip_escapes False (style_wrap s code t @ r) = t @ strip_escapes False r"
proof (cases "ts_enabled s")
  case True
  have "strip_escapes True (CHR ''['' # code @ CHR ''m'' # u) = strip_escapes False u" for u
    using strip_escapes_code [of "CHR ''['' # code" u] assms(2) by simp
  with True assms(1) show ?thesis
    by (simp add: style_wrap_def strip_escapes_plain)
next
  case False
  with assms(1) show ?thesis by (simp add: style_wrap_def strip_escapes_plain)
qed

section \<open>Helpers\<close>

definition nl :: string where
  "nl = [CHR 0x0A]"

definition short_filename :: "string \<Rightarrow> string" where
  "short_filename path = unwrap_or (file_name path) path"

text \<open>Padding counts characters: the bytes that do not continue one.\<close>

definition char_count :: "string \<Rightarrow> nat" where
  "char_count s = length (filter (\<lambda>c. (of_char c :: nat) < 128 \<or> 192 \<le> (of_char c :: nat)) s)"

definition pad_right :: "nat \<Rightarrow> string \<Rightarrow> string" where
  "pad_right w s = s @ replicate (w - char_count s) CHR '' ''"

definition pad_left :: "nat \<Rightarrow> string \<Rightarrow> string" where
  "pad_left w s = replicate (w - char_count s) CHR '' '' @ s"

definition show_bool :: "bool \<Rightarrow> string" where
  "show_bool b = (if b then ''true'' else ''false'')"

text \<open>A list of rows under a title, with a line for none.\<close>

definition listing :: "string \<Rightarrow> string \<Rightarrow> (json \<Rightarrow> string) \<Rightarrow> json list option \<Rightarrow> string" where
  "listing title none row xs =
     title @ nl @ (case xs of
        None \<Rightarrow> none @ nl
      | Some ys \<Rightarrow> if ys = [] then none @ nl else concat (map row ys))"

abbreviation str_or :: "json \<Rightarrow> string \<Rightarrow> string \<Rightarrow> string" where
  "str_or v k d \<equiv> unwrap_or (get_str v k) d"

abbreviation int_or :: "json \<Rightarrow> string \<Rightarrow> int \<Rightarrow> int" where
  "int_or v k d \<equiv> unwrap_or (get_i64 v k) d"

section \<open>Threads and stacks\<close>

definition format_threads :: "json \<Rightarrow> string" where
  "format_threads body =
     listing ''Threads:'' ''  (none)''
       (\<lambda>t. ''  ['' @ show_int (int_or t ''id'' (-1)) @ ''] '' @ str_or t ''name'' ''?'' @ nl)
       (get_array body ''threads'')"

record stack_trace_options =
  so_full :: bool
  so_style :: "terminal_style option"

definition stack_options_user :: "host \<Rightarrow> bool \<Rightarrow> stack_trace_options" where
  "stack_options_user h is_terminal = \<lparr>so_full = False, so_style = Some (style_detect h is_terminal)\<rparr>"

definition stack_options_all :: stack_trace_options where
  "stack_options_all = \<lparr>so_full = True, so_style = None\<rparr>"

definition frame_path :: "json \<Rightarrow> string option" where
  "frame_path frame = Option.bind (jget frame ''source'') (\<lambda>s. get_str s ''path'')"

definition frame_row :: "terminal_style \<Rightarrow> nat \<Rightarrow> json \<Rightarrow> string" where
  "frame_row s shown frame =
     ''  '' @ bold s (''#'' @ show_nat shown) @ '' ['' @ show_int (int_or frame ''id'' (-1)) @ ''] ''
     @ str_or frame ''name'' ''?'' @ '' (''
     @ cyan s (short_filename (unwrap_or (frame_path frame) ''?'') @ '':'' @ show_int (int_or frame ''line'' 0)) @ '')'' @ nl"

text \<open>The text of the frames with the numbers of shown and of hidden ones.\<close>

fun frame_rows :: "terminal_style \<Rightarrow> bool \<Rightarrow> nat \<Rightarrow> nat \<Rightarrow> json list \<Rightarrow> string \<times> nat \<times> nat" where
  "frame_rows s full shown hidden [] = ([], shown, hidden)"
| "frame_rows s full shown hidden (f # fs) =
     (if is_hidden_stack_frame (unwrap_or (frame_path f) ''?'') full
      then frame_rows s full shown (Suc hidden) fs
      else case frame_rows s full (Suc shown) hidden fs of
        (text, counts) \<Rightarrow> (frame_row s shown f @ text, counts))"

definition format_stack_trace_with_options :: "json \<Rightarrow> stack_trace_options \<Rightarrow> string" where
  "format_stack_trace_with_options body opts =
     (let s = unwrap_or (so_style opts) plain_style
      in ''Stack trace:'' @ nl @
         (case get_array body ''stackFrames'' of
            Some (f # fs) \<Rightarrow>
              (case frame_rows s (so_full opts) 0 0 (f # fs) of
                 (text, shown, hidden) \<Rightarrow>
                   text
                   @ (if hidden > 0
                      then dim s (''  ('' @ show_nat hidden @ '' runtime frame'' @ (if hidden = 1 then [] else ''s'')
                             @ '' hidden; use `bt full` to show all)'') @ nl
                      else [])
                   @ (if shown = 0 then ''  (no user frames; try `bt full`)'' @ nl else []))
          | _ \<Rightarrow> ''  (no frames)'' @ nl))"

definition format_stack_trace :: "json \<Rightarrow> string" where
  "format_stack_trace body = format_stack_trace_with_options body stack_options_all"

definition format_stop_location :: "json \<Rightarrow> string option" where
  "format_stop_location stack =
     (case get_array stack ''stackFrames'' of
        Some (frame # _) \<Rightarrow>
          (case (frame_path frame, get_i64 frame ''line'') of
             (Some path, Some line) \<Rightarrow>
               Some (short_filename path @ '':'' @ show_int line @ '' in '' @ str_or frame ''name'' ''?'')
           | _ \<Rightarrow> None)
      | _ \<Rightarrow> None)"

definition right_arrow :: string where
  "right_arrow = [CHR 0xE2, CHR 0x86, CHR 0x92]"

definition format_navigate_status :: "json \<Rightarrow> json \<Rightarrow> terminal_style option \<Rightarrow> string" where
  "format_navigate_status nav stack style =
     (let s = unwrap_or style plain_style;
          field = (\<lambda>a b. or_else (jget nav a) (jget nav b));
          nav_type = unwrap_or (Option.bind (field ''navigationType'' ''navigation_type'') as_str) ''?'';
          reason = unwrap_or (Option.bind (field ''stopReason'' ''stop_reason'') as_str) ''?'';
          thread = unwrap_or (Option.bind (field ''threadId'' ''thread_id'') as_i64) 0
      in green s right_arrow @ '' ''
         @ (case format_stop_location stack of Some loc \<Rightarrow> cyan s loc | None \<Rightarrow> dim s ''?'') @ '' ''
         @ dim s (''('' @ nav_type @ '', '' @ reason @ '', thread '' @ show_int thread @ '')''))"

fun show_status :: "execution_status \<Rightarrow> string" where
  "show_status StatusUnknown = ''Unknown''"
| "show_status StatusRunning = ''Running''"
| "show_status StatusStopped = ''Stopped''"
| "show_status StatusExited = ''Exited''"

definition format_status :: "execution_tracker \<Rightarrow> string" where
  "format_status t =
     (let s = xt_state t
      in ''Status: '' @ show_status (xs_status s) @ nl
         @ (case xs_stop_reason s of Some r \<Rightarrow> ''Stop reason: '' @ r @ nl | None \<Rightarrow> [])
         @ (case xs_thread_id s of Some i \<Rightarrow> ''Thread: '' @ show_int i @ nl | None \<Rightarrow> [])
         @ (case xs_description s of Some d \<Rightarrow> ''Description: '' @ d @ nl | None \<Rightarrow> []))"

section \<open>Values\<close>

definition format_evaluate :: "(json \<Rightarrow> string) \<Rightarrow> json \<Rightarrow> string" where
  "format_evaluate print body = unwrap_or (get_str body ''result'') (print body)"

definition format_evaluate_pretty :: "(json \<Rightarrow> string) \<Rightarrow> json \<Rightarrow> terminal_style option \<Rightarrow> string" where
  "format_evaluate_pretty print body style =
     (let s = unwrap_or style plain_style; result = format_evaluate print body
      in case get_str body ''type'' of
           Some t \<Rightarrow> if t = [] then result else result @ '' '' @ dim s (''('' @ t @ '')'')
         | None \<Rightarrow> result)"

definition format_scopes :: "json \<Rightarrow> string" where
  "format_scopes body =
     listing ''Scopes:'' ''  (none)''
       (\<lambda>v. ''  '' @ str_or v ''name'' ''?'' @ '' (variablesReference='' @ show_int (int_or v ''variablesReference'' (-1))
            @ '', expensive='' @ show_bool (unwrap_or (get_bool v ''expensive'') False) @ '')'' @ nl)
       (get_array body ''scopes'')"

definition name_width :: "json list \<Rightarrow> nat" where
  "name_width vars = max 4 (foldl max 0 (map length (List.map_filter (\<lambda>v. get_str v ''name'') vars)))"

definition variable_row :: "terminal_style \<Rightarrow> nat \<Rightarrow> json \<Rightarrow> string" where
  "variable_row s width v =
     (let type_name = str_or v ''type'' []
      in ''  '' @ bold s (pad_right width (str_or v ''name'' ''?'')) @ '' = '' @ str_or v ''value'' ''?''
         @ (if type_name = [] then [] else '' '' @ dim s (''('' @ type_name @ '')'')) @ nl)"

definition format_variables_table :: "json \<Rightarrow> terminal_style option \<Rightarrow> string" where
  "format_variables_table body style =
     (let vars = get_array body ''variables''
      in listing ''Locals:'' ''  (none)''
           (variable_row (unwrap_or style plain_style) (name_width (unwrap_or vars []))) vars)"

definition format_variables :: "json \<Rightarrow> string" where
  "format_variables body = format_variables_table body None"

section \<open>Breakpoints and watches\<close>

definition breakpoint_extras :: "json \<Rightarrow> string" where
  "breakpoint_extras entry =
     (let extra = (\<lambda>k label. case get_str entry k of Some v \<Rightarrow> [label @ v] | None \<Rightarrow> []);
          extras = extra ''condition'' ''if '' @ extra ''hit_condition'' ''hit '' @ extra ''log_message'' ''log ''
      in if extras = [] then [] else '' '' @ join_with '' '' extras)"

definition breakpoint_row :: "terminal_style \<Rightarrow> bool \<Rightarrow> string \<Rightarrow> nat \<Rightarrow> json \<Rightarrow> string" where
  "breakpoint_row s numbered path number entry =
     (let location = cyan s (path @ '':'' @ show_int (int_or entry ''line'' 0))
      in if numbered then ''  '' @ yellow s (show_nat number) @ '': '' @ location @ breakpoint_extras entry @ nl
         else ''  '' @ location @ breakpoint_extras entry @ nl)"

fun breakpoint_rows :: "terminal_style \<Rightarrow> bool \<Rightarrow> string \<Rightarrow> nat \<Rightarrow> json list \<Rightarrow> string \<times> nat" where
  "breakpoint_rows s numbered path number [] = ([], number)"
| "breakpoint_rows s numbered path number (e # es) =
     apfst ((@) (breakpoint_row s numbered path number e))
       (breakpoint_rows s numbered path (if numbered then Suc number else number) es)"

fun breakpoint_files :: "terminal_style \<Rightarrow> bool \<Rightarrow> nat \<Rightarrow> jmap \<Rightarrow> string" where
  "breakpoint_files s numbered number [] = []"
| "breakpoint_files s numbered number ((path, entries) # m) =
     (case as_array entries of
        Some (e # es) \<Rightarrow>
          (case breakpoint_rows s numbered path number (e # es) of
             (text, number') \<Rightarrow> text @ breakpoint_files s numbered number' m)
      | _ \<Rightarrow> ''  '' @ path @ '': (none)'' @ nl @ breakpoint_files s numbered number m)"

definition format_breakpoints_table :: "json \<Rightarrow> bool \<Rightarrow> terminal_style option \<Rightarrow> string" where
  "format_breakpoints_table body numbered style =
     ''Breakpoints:'' @ nl @
     (case as_object body of
        Some (p # m) \<Rightarrow> breakpoint_files (unwrap_or style plain_style) numbered 1 (p # m)
      | _ \<Rightarrow> ''  (none)'' @ nl)"

definition format_breakpoints :: "json \<Rightarrow> string" where
  "format_breakpoints body = format_breakpoints_table body False None"

definition format_exception_breakpoints :: "json list \<Rightarrow> string" where
  "format_exception_breakpoints entries =
     listing ''Exception breakpoints:'' ''  (none)''
       (\<lambda>e. case get_str e ''condition'' of
              Some c \<Rightarrow> ''  '' @ str_or e ''filter'' ''?'' @ '' if '' @ c @ nl
            | None \<Rightarrow> ''  '' @ str_or e ''filter'' ''?'' @ nl)
       (Some entries)"

definition format_watches :: "json \<Rightarrow> string" where
  "format_watches watches =
     listing ''Watches:'' ''  (none)''
       (\<lambda>w. ''  '' @ str_or w ''expression'' ''?'' @ '' = '' @ str_or w ''result'' ''?'' @ nl) (as_array watches)"

definition format_data_watches :: "json \<Rightarrow> string" where
  "format_data_watches entries =
     listing ''Data watches:'' ''  (none)''
       (\<lambda>e. ''  '' @ str_or e ''expression'' ''?''
            @ (case get_str e ''baseline'' of Some b \<Rightarrow> '' baseline='' @ b | None \<Rightarrow> []) @ nl) (as_array entries)"

definition format_exception_filters :: "json list \<Rightarrow> string" where
  "format_exception_filters filters =
     listing ''Exception filters:'' ''  (none advertised)''
       (\<lambda>f. (let i = str_or f ''filter'' ''?''
             in ''  '' @ i @ '' ('' @ str_or f ''label'' i @ '') default=''
                @ show_bool (unwrap_or (get_bool f ''default'') False) @ nl))
       (Some filters)"

definition build_sync_presentation ::
    "host \<Rightarrow> bool \<Rightarrow> execution_tracker \<Rightarrow> json \<Rightarrow> json \<Rightarrow> json \<Rightarrow> json \<Rightarrow> json" where
  "build_sync_presentation h is_terminal execution stack watches breakpoints data_watches =
     jobj [(''status'', JString (format_status execution)),
           (''stack'', JString (format_stack_trace_with_options stack (stack_options_user h is_terminal))),
           (''watches'', JString (format_watches watches)),
           (''breakpoints'', JString (format_breakpoints_table (unwrap_or (jget breakpoints ''merged'') breakpoints) True None)),
           (''data_watches'', JString (format_data_watches data_watches))]"

section \<open>Counting frames\<close>

text \<open>Every frame is shown, numbered in order, or counted as hidden; with \<open>full\<close> none is hidden.\<close>

lemma frame_rows_counts:
  "frame_rows s full shown hidden fs = (out, shown', hidden') \<Longrightarrow>
     shown' + hidden' = shown + hidden + length fs \<and>
     hidden' = hidden + length (filter (\<lambda>f. is_hidden_stack_frame (unwrap_or (frame_path f) ''?'') full) fs)"
  by (induction s full shown hidden fs arbitrary: out shown' hidden' rule: frame_rows.induct)
     (auto split: if_splits prod.splits)

lemma frame_rows_full: "frame_rows s True shown hidden fs =
    (concat (map (\<lambda>(n, f). frame_row s n f) (enumerate shown fs)), shown + length fs, hidden)"
  by (induction fs arbitrary: shown) (simp_all add: is_hidden_stack_frame_def)

end
