(* ===== verification/CoreSource.thy ===== *)
theory CoreSource imports CoreRender "HOL-Library.List_Lexorder" "HOL-Library.Product_Lexorder"
  "HOL-Library.Char_ord" begin

text \<open>
  The source listing of \<open>dap-core/src/source_view.rs\<close>: which file and line a frame names, where a
  relative path is looked for, the window of lines around the current one and its highlighting. Text
  is a list of bytes, and a slice of a \<open>str\<close> that would cut a character panics, so the highlighter
  returns \<open>None\<close> there. The file system is the record \<open>host\<close>; the working directory is an argument.
\<close>

section \<open>Frames\<close>

record frame_loc =
  fl_path :: string
  fl_line :: int
  fl_column :: "int option"
  fl_name :: "string option"
  fl_frame_id :: "int option"

definition frame_location :: "json \<Rightarrow> frame_loc option" where
  "frame_location frame =
     (case get_i64 frame ''line'' of
        None \<Rightarrow> None
      | Some line \<Rightarrow>
          if line \<le> 0 then None
          else case Option.bind (jget frame ''source'') (\<lambda>s. get_str s ''path'') of
            None \<Rightarrow> None
          | Some path \<Rightarrow>
              if path = [] then None
              else Some \<lparr>fl_path = path, fl_line = line, fl_column = get_i64 frame ''column'',
                         fl_name = get_str frame ''name'', fl_frame_id = get_i64 frame ''id''\<rparr>)"

definition select_stack_frame :: "json \<Rightarrow> int \<Rightarrow> json option" where
  "select_stack_frame stack fid =
     (case Option.bind (jget stack ''stackFrames'') as_array of
        None \<Rightarrow> None
      | Some frames \<Rightarrow>
          (case find (\<lambda>f. get_i64 f ''id'' = Some fid) frames of
             Some f \<Rightarrow> Some f
           | None \<Rightarrow> (case frames of [] \<Rightarrow> None | f # _ \<Rightarrow> Some f)))"

section \<open>Finding the file\<close>

text \<open>The components of a Unix path and their order, by which \<open>PathBuf\<close> is compared.\<close>

datatype path_component = RootDir | CurDir | ParentDir | Normal string

fun component_rank :: "path_component \<Rightarrow> nat \<times> string" where
  "component_rank RootDir = (0, [])"
| "component_rank CurDir = (1, [])"
| "component_rank ParentDir = (2, [])"
| "component_rank (Normal s) = (3, s)"

lemma component_rank_inj: "component_rank a = component_rank b \<Longrightarrow> a = b"
  by (cases a; cases b) simp_all

instantiation path_component :: linorder
begin

definition less_eq_path_component :: "path_component \<Rightarrow> path_component \<Rightarrow> bool" where
  "less_eq_path_component a b \<longleftrightarrow> component_rank a \<le> component_rank b"

definition less_path_component :: "path_component \<Rightarrow> path_component \<Rightarrow> bool" where
  "less_path_component a b \<longleftrightarrow> component_rank a < component_rank b"

instance
  by standard (auto simp: less_eq_path_component_def less_path_component_def intro: component_rank_inj)

end

definition path_components :: "string \<Rightarrow> path_component list" where
  "path_components s =
     (if is_absolute s then [RootDir]
      else if s = ''.'' \<or> prefix ''./'' s then [CurDir] else [])
     @ map (\<lambda>p. if p = ''..'' then ParentDir else Normal p) (path_parts s)"

fun dedup_by :: "('a \<Rightarrow> 'b) \<Rightarrow> 'a list \<Rightarrow> 'a list" where
  "dedup_by f (x # y # zs) = (if f x = f y then dedup_by f (x # zs) else x # dedup_by f (y # zs))"
| "dedup_by f xs = xs"

definition source_path_candidates :: "string option \<Rightarrow> string \<Rightarrow> string list \<Rightarrow> string list" where
  "source_path_candidates cwd path hints =
     path # (if is_absolute path then []
             else (case cwd of Some c \<Rightarrow> [path_join c path] | None \<Rightarrow> [])
                  @ map (\<lambda>d. path_join d path) hints)"

fun first_some :: "('a \<Rightarrow> 'b option) \<Rightarrow> 'a list \<Rightarrow> 'b option" where
  "first_some f [] = None"
| "first_some f (x # xs) = (case f x of Some y \<Rightarrow> Some y | None \<Rightarrow> first_some f xs)"

definition read_source_file_with_hints ::
    "host \<Rightarrow> string option \<Rightarrow> string \<Rightarrow> string list \<Rightarrow> string option" where
  "read_source_file_with_hints h cwd path hints =
     first_some (h_read h) (source_path_candidates cwd path hints)"

definition read_source_file :: "host \<Rightarrow> string option \<Rightarrow> string \<Rightarrow> string option" where
  "read_source_file h cwd path = read_source_file_with_hints h cwd path []"

definition default_source_search_dirs :: "string option \<Rightarrow> string list" where
  "default_source_search_dirs cwd = (case cwd of Some c \<Rightarrow> [c] | None \<Rightarrow> [])"

definition source_search_dirs_for_program :: "host \<Rightarrow> string option \<Rightarrow> string \<Rightarrow> string list" where
  "source_search_dirs_for_program h cwd program =
     dedup_by path_components (sort_key path_components
       (default_source_search_dirs cwd
        @ (case path_parent program of
             None \<Rightarrow> []
           | Some parent \<Rightarrow>
               if parent = [] then []
               else parent # (if is_absolute parent then []
                              else case cwd of Some c \<Rightarrow> [path_join c parent] | None \<Rightarrow> []))
        @ (if h_is_file h program \<or> h_is_dir h program
           then case h_canonical h program of
                  None \<Rightarrow> []
                | Some whole \<Rightarrow> (case path_parent whole of Some parent \<Rightarrow> [parent] | None \<Rightarrow> [])
           else [])))"

section \<open>Highlighting\<close>

definition ascii_char :: "char \<Rightarrow> bool" where
  "ascii_char c \<longleftrightarrow> (of_char c :: nat) < 128"

text \<open>The text of a string literal after its opening quote, and what follows it.\<close>

fun scan_quoted :: "char \<Rightarrow> string \<Rightarrow> string \<times> string" where
  "scan_quoted q [] = ([], [])"
| "scan_quoted q (c # s) =
     (if c = CHR 0x5C then
        (case s of
           [] \<Rightarrow> ([c], [])
         | d # s' \<Rightarrow> (let (a, b) = scan_quoted q s' in (c # d # a, b)))
      else if c = q then ([c], s)
      else (let (a, b) = scan_quoted q s in (c # a, b)))"

lemma scan_quoted_append: "scan_quoted q s = (a, b) \<Longrightarrow> s = a @ b"
  by (induction q s arbitrary: a b rule: scan_quoted.induct)
     (auto simp: Let_def split: if_splits list.splits prod.splits)

definition highlight_words :: "string list" where
  "highlight_words = [''def '', ''class '', ''return '', ''import '', ''from '', ''if '', ''for '',
     ''while '', ''elif '', ''else:'', ''try:'', ''except'']"

text \<open>The bytes before the first whitespace character or colon.\<close>

fun keyword_split :: "string \<Rightarrow> string \<times> string" where
  "keyword_split [] = ([], [])"
| "keyword_split (c # s) =
     (if c = CHR '':'' \<or> (\<exists>w \<in> set ws_seqs. prefix w (c # s)) then ([], c # s)
      else (let (a, b) = keyword_split s in (c # a, b)))"

lemma keyword_split_append: "keyword_split s = (a, b) \<Longrightarrow> s = a @ b"
  by (induction s arbitrary: a b) (auto split: if_splits prod.splits)

text \<open>A keyword starts with a letter, so colouring it takes at least one byte.\<close>

lemma ws_not_letter:
  "(of_char c :: nat) < 128 \<Longrightarrow> 32 < (of_char c :: nat) \<Longrightarrow> w \<in> set ws_seqs \<Longrightarrow> \<not> prefix w (c # s)"
  by (auto simp: ws_seqs_def)

lemma highlight_words_start:
  "w \<in> set highlight_words \<Longrightarrow> prefix w s \<Longrightarrow>
     \<exists>c s'. s = c # s' \<and> (of_char c :: nat) < 128 \<and> 32 < (of_char c :: nat) \<and> c \<noteq> CHR '':''"
  by (auto simp: highlight_words_def prefix_def)

lemma keyword_split_shorter:
  assumes "w \<in> set highlight_words" and "prefix w s"
  shows "length (snd (keyword_split s)) < length s"
proof -
  obtain c s' where s: "s = c # s'" "(of_char c :: nat) < 128" "32 < (of_char c :: nat)" "c \<noteq> CHR '':''"
    using highlight_words_start [OF assms] by blast
  have "\<not> (\<exists>w \<in> set ws_seqs. prefix w (c # s'))"
    using ws_not_letter s(2,3) by blast
  with s show ?thesis
    using keyword_split_append [of s'] by (auto split: prod.splits)
qed

lemma scan_quoted_shorter: "length (snd (scan_quoted q s)) \<le> length s"
  using scan_quoted_append [of q s "fst (scan_quoted q s)" "snd (scan_quoted q s)"]
  by (metis le_add2 length_append prod.collapse)

text \<open>
  The scan of \<open>highlight_python_line\<close> from its index on. The last branch slices one byte out of the
  line, which panics when the byte does not end a character.
\<close>

function highlight_bytes :: "terminal_style \<Rightarrow> string \<Rightarrow> string option" where
  "highlight_bytes st [] = Some []"
| "highlight_bytes st (c # s) =
     (if c = CHR ''#'' then Some (dim st (c # s))
      else if c = CHR 0x22 \<or> c = CHR 0x27 then
        map_option ((@) (yellow st (c # fst (scan_quoted c s)))) (highlight_bytes st (snd (scan_quoted c s)))
      else if \<exists>w \<in> set highlight_words. prefix w (c # s) then
        map_option ((@) (blue st (fst (keyword_split (c # s))))) (highlight_bytes st (snd (keyword_split (c # s))))
      else case slice_to (c # s) 1 of
        None \<Rightarrow> None
      | Some b \<Rightarrow> map_option ((@) b) (highlight_bytes st s))"
  by pat_completeness auto
termination
  by (relation "measure (\<lambda>(st, s). length s)")
     (auto simp: scan_quoted_shorter le_imp_less_Suc simp del: keyword_split.simps dest: keyword_split_shorter)

definition highlight_python_line :: "terminal_style \<Rightarrow> string \<Rightarrow> string option" where
  "highlight_python_line st line =
     (if \<not> ts_enabled st then Some line
      else if prefix ''#'' (trim_start line) then Some (dim st line)
      else highlight_bytes st line)"

definition highlight_source_line :: "terminal_style \<Rightarrow> string \<Rightarrow> string option" where
  "highlight_source_line st line =
     (if \<not> ts_enabled st then Some line
      else if prefix ''//'' (trim_start line) then Some (dim st line)
      else highlight_python_line st line)"

section \<open>The listing\<close>

definition snippet_current :: "int \<Rightarrow> string list \<Rightarrow> nat" where
  "snippet_current line lines = nat (max 1 (min line (int (length lines))))"

definition snippet_start :: "nat \<Rightarrow> nat \<Rightarrow> nat" where
  "snippet_start current context_lines = max (current - context_lines) 1"

definition snippet_end :: "nat \<Rightarrow> nat \<Rightarrow> nat \<Rightarrow> nat" where
  "snippet_end current context_lines count = min (current + context_lines) count"

definition snippet_row :: "terminal_style \<Rightarrow> string list \<Rightarrow> nat \<Rightarrow> nat \<Rightarrow> nat \<Rightarrow> string option" where
  "snippet_row st lines current width n =
     (if n = 0 \<or> length lines < n then None
      else map_option (\<lambda>body. ''  '' @ (if n = current then green st ''>'' else '' '') @ '' ''
             @ dim st (pad_left width (show_nat n)) @ '' | '' @ body @ nl)
           (highlight_source_line st (lines ! (n - 1))))"

definition format_source_snippet_styled ::
    "int \<Rightarrow> string \<Rightarrow> nat \<Rightarrow> terminal_style \<Rightarrow> string option" where
  "format_source_snippet_styled line source context_lines st =
     (let lines = str_lines source
      in if lines = [] then Some (''(empty source file)'' @ nl)
         else let current = snippet_current line lines;
                  first = snippet_start current context_lines;
                  final = snippet_end current context_lines (length lines);
                  width = max (length (show_nat final)) 3
              in map_option concat (those (map (snippet_row st lines current width) [first ..< Suc final])))"

definition format_source_snippet :: "int \<Rightarrow> string \<Rightarrow> nat \<Rightarrow> string option" where
  "format_source_snippet line source context_lines =
     format_source_snippet_styled line source context_lines plain_style"

definition format_source_show_styled ::
    "frame_loc \<Rightarrow> string option \<Rightarrow> nat \<Rightarrow> terminal_style option \<Rightarrow> string option" where
  "format_source_show_styled location source context_lines style =
     (let st = unwrap_or style plain_style;
          header_name = (case fl_name location of Some n \<Rightarrow> if n = [] then ''?'' else n | None \<Rightarrow> ''?'');
          file = unwrap_or (file_name (fl_path location)) (fl_path location);
          header = ''  '' @ file @ '':'' @ show_int (fl_line location) @ '' in '' @ header_name
      in map_option ((@) (''Source:'' @ nl @ cyan st header @ nl))
         (case source of
            Some source_text \<Rightarrow> format_source_snippet_styled (fl_line location) source_text context_lines st
          | None \<Rightarrow> Some (dim st (''  (source file not found)'' @ nl)
              @ ''  path: '' @ fl_path location @ nl
              @ ''  hint: run `show` from the script directory, or launch with a path like ./main.py'' @ nl)))"

definition format_source_show :: "frame_loc \<Rightarrow> string option \<Rightarrow> nat \<Rightarrow> string option" where
  "format_source_show location source context_lines =
     format_source_show_styled location source context_lines None"

section \<open>What the listing keeps\<close>

lemma slice_to_one [simp]:
  "slice_to (c # s) (Suc 0) = (if is_char_boundary (c # s) 1 then Some [c] else None)"
  by (simp add: slice_to_def)

lemma ascii_char_boundary: "list_all ascii_char s \<Longrightarrow> is_char_boundary (c # s) 1"
  by (cases s) (auto simp: is_char_boundary_def ascii_char_def)

lemma list_all_suffix: "list_all P (a @ b) \<Longrightarrow> list_all P b"
  by simp

text \<open>A pure ASCII line never panics.\<close>

lemma highlight_bytes_ascii: "list_all ascii_char s \<Longrightarrow> \<exists>out. highlight_bytes st s = Some out"
proof (induction st s rule: highlight_bytes.induct)
  case (2 st c s)
  have q: "list_all ascii_char (snd (scan_quoted c s))"
    using 2(4) scan_quoted_append [of c s "fst (scan_quoted c s)" "snd (scan_quoted c s)"]
    by (metis list_all_suffix list.pred_inject(2) prod.collapse)
  have k: "list_all ascii_char (snd (keyword_split (c # s)))"
    using 2(4) keyword_split_append [of "c # s" "fst (keyword_split (c # s))" "snd (keyword_split (c # s))"]
    by (metis list_all_suffix prod.collapse)
  have b: "is_char_boundary (c # s) (Suc 0)"
    using 2(4) ascii_char_boundary [of s c] by simp
  show ?case
    using 2 q k b by (auto simp del: keyword_split.simps)
qed simp

text \<open>Whatever is printed is the line with escape sequences around parts of it.\<close>

lemma highlight_bytes_text:
  "highlight_bytes st s = Some out \<Longrightarrow> CHR 0x1B \<notin> set s \<Longrightarrow> strip_escapes False (out @ r) = s @ strip_escapes False r"
proof (induction st s arbitrary: out r rule: highlight_bytes.induct)
  case (2 st c s)
  obtain a b where q: "scan_quoted c s = (a, b)" by fastforce
  obtain u v where k: "keyword_split (c # s) = (u, v)" by fastforce
  have qs: "s = a @ b" by (rule scan_quoted_append [OF q])
  have ks: "c # s = u @ v" by (rule keyword_split_append [OF k])
  have ue: "CHR 0x1B \<notin> set u" "CHR 0x1B \<notin> set v"
    using 2(5) unfolding ks by auto
  consider (hash) "c = CHR ''#''" | (quote) "c \<noteq> CHR ''#''" "c = CHR 0x22 \<or> c = CHR 0x27"
    | (word) "c \<noteq> CHR ''#''" "\<not> (c = CHR 0x22 \<or> c = CHR 0x27)" "\<exists>w \<in> set highlight_words. prefix w (c # s)"
    | (other) "c \<noteq> CHR ''#''" "\<not> (c = CHR 0x22 \<or> c = CHR 0x27)" "\<not> (\<exists>w \<in> set highlight_words. prefix w (c # s))"
    by blast
  then show ?case
  proof cases
    case hash
    have "out = dim st (c # s)" using 2(4) hash by simp
    then show ?thesis
      using 2(5) by (simp only: dim_def, subst strip_escapes_wrap) auto
  next
    case quote
    obtain o1 where o1: "highlight_bytes st b = Some o1" "out = yellow st (c # a) @ o1"
      using 2(4) quote q by auto
    have "strip_escapes False (o1 @ r) = b @ strip_escapes False r"
      using 2(1) [OF quote, of o1 r] o1(1) q 2(5) qs by simp
    moreover have "CHR 0x1B \<notin> set (c # a)" using 2(5) qs by simp
    ultimately show ?thesis
      using o1(2) qs by (simp add: yellow_def strip_escapes_wrap)
  next
    case word
    obtain o1 where o1: "highlight_bytes st v = Some o1" "out = blue st u @ o1"
      using 2(4) word k by (auto simp del: keyword_split.simps)
    have "strip_escapes False (o1 @ r) = v @ strip_escapes False r"
      using 2(2) [OF word, of o1 r] o1(1) k ue by simp
    then show ?thesis
      using o1(2) ks ue by (simp add: blue_def strip_escapes_wrap)
  next
    case other
    obtain o1 where o1: "highlight_bytes st s = Some o1" "out = c # o1"
      using 2(4) other by (auto simp: slice_to_def split: if_splits)
    have "strip_escapes False (o1 @ r) = s @ strip_escapes False r"
      using 2(3) [OF other, of "[c]" o1 r] o1 2(4,5) other
      by (auto simp: slice_to_def split: if_splits)
    then show ?thesis using o1(2) 2(5) by auto
  qed
qed simp

lemma highlight_source_line_ascii:
  "list_all ascii_char line \<Longrightarrow> \<exists>out. highlight_source_line st line = Some out"
  by (auto simp: highlight_source_line_def highlight_python_line_def highlight_bytes_ascii)

lemma highlight_source_line_append:
  assumes "highlight_source_line st line = Some out" and "CHR 0x1B \<notin> set line"
  shows "strip_escapes False (out @ r) = line @ strip_escapes False r"
proof -
  have d: "strip_escapes False (dim st line @ r) = line @ strip_escapes False r"
    using strip_escapes_wrap [of line "''2''" st r] assms(2) by (simp add: dim_def)
  have p: "strip_escapes False (line @ r) = line @ strip_escapes False r"
    using strip_escapes_plain assms(2) by simp
  have b: "highlight_bytes st line = Some out \<Longrightarrow> strip_escapes False (out @ r) = line @ strip_escapes False r"
    using highlight_bytes_text assms(2) by simp
  show ?thesis
    using assms(1) d p b
    by (auto simp: highlight_source_line_def highlight_python_line_def split: if_splits)
qed

text \<open>
  A byte that starts a longer character and follows ordinary text is sliced apart: no text between
  \<open>x\<close> and the end of the line saves the listing.
\<close>

lemma highlight_bytes_panics:
  assumes "192 \<le> (of_char c :: nat)" and "128 \<le> (of_char d :: nat)" and "(of_char d :: nat) < 192"
  shows "highlight_bytes st (c # d # s) = None"
proof -
  have "\<not> (\<exists>w \<in> set highlight_words. prefix w (c # d # s))"
    using highlight_words_start [of _ "c # d # s"] assms(1) by fastforce
  moreover have "c \<noteq> CHR ''#''" "c \<noteq> CHR 0x22" "c \<noteq> CHR 0x27"
    using assms(1) by auto
  moreover have "\<not> is_char_boundary (c # d # s) 1"
    using assms by (simp add: is_char_boundary_def)
  ultimately show ?thesis by simp
qed

lemma highlight_needs_ascii:
  "highlight_source_line \<lparr>ts_enabled = True\<rparr> (''x = '' @ [CHR 0xC3, CHR 0xA9]) = None"
  by code_simp

section \<open>The window of lines\<close>

lemma snippet_current_range:
  "ls \<noteq> [] \<Longrightarrow> 1 \<le> snippet_current line ls \<and> snippet_current line ls \<le> length ls"
  by (cases ls) (auto simp: snippet_current_def)

lemma those_some: "(\<And>x. x \<in> set xs \<Longrightarrow> \<exists>y. f x = Some y) \<Longrightarrow> \<exists>ys. those (map f xs) = Some ys"
proof (induction xs)
  case (Cons x xs)
  then obtain y ys where "f x = Some y" "those (map f xs) = Some ys" by (metis list.set_intros)
  then show ?case by simp
qed simp

lemma those_length: "those xs = Some ys \<Longrightarrow> length ys = length xs"
  by (induction xs arbitrary: ys) (auto split: option.splits)

lemma those_nth: "those xs = Some ys \<Longrightarrow> i < length xs \<Longrightarrow> xs ! i = Some (ys ! i)"
  by (induction xs arbitrary: ys i) (auto split: option.splits simp: nth_Cons')

text \<open>The plain listing never indexes out of the file, whatever the frame's line.\<close>

lemma snippet_rows_in_range:
  assumes "ls \<noteq> []" and "n \<in> set [snippet_start (snippet_current line ls) k ..< Suc (snippet_end (snippet_current line ls) k (length ls))]"
  shows "n \<noteq> 0 \<and> n \<le> length ls"
  using assms snippet_current_range [OF assms(1), of line] by (auto simp: snippet_start_def snippet_end_def)

lemma snippet_current_shown:
  "ls \<noteq> [] \<Longrightarrow> snippet_current line ls \<in>
     set [snippet_start (snippet_current line ls) k ..< Suc (snippet_end (snippet_current line ls) k (length ls))]"
  using snippet_current_range [of ls line] by (auto simp: snippet_start_def snippet_end_def)

end
