(* ===== verification/ViewProperties.thy ===== *)
theory ViewProperties imports CoreSource begin

text \<open>
  What the source listing promises: on an ASCII source it never panics, whatever line the adapter
  reported, and colours change nothing but the escape sequences.
\<close>

section \<open>Rows and lines\<close>

lemma split_on_set: "p \<in> set (split_on d s) \<Longrightarrow> c \<in> set p \<Longrightarrow> c \<in> set s"
  by (induction d s arbitrary: p rule: split_on.induct) (force split: if_splits list.splits)+

lemma strip_cr_set: "c \<in> set (strip_cr p) \<Longrightarrow> c \<in> set p"
  by (auto simp: strip_cr_def dest: in_set_butlastD split: if_splits)

lemma str_lines_set:
  assumes "l \<in> set (str_lines s)"
  shows "set l \<subseteq> set s"
proof
  fix c assume c: "c \<in> set l"
  from assms consider (full) p where "p \<in> set (butlast (split_on CHR 0x0A s))" "l = strip_cr p"
    | (rest) "l = last (split_on CHR 0x0A s)"
    by (auto simp: str_lines_def Let_def split: if_splits)
  then show "c \<in> set s"
  proof cases
    case full
    then show ?thesis using c strip_cr_set split_on_set in_set_butlastD by metis
  next
    case rest
    then show ?thesis using c split_on_set last_in_set split_on_not_Nil by metis
  qed
qed

lemma show_nat_no_escape: "CHR 0x1B \<notin> set (show_nat n)"
  using show_nat_digits [of _ n] by (fastforce simp: is_digit_def)

lemma pad_left_no_escape: "CHR 0x1B \<notin> set s \<Longrightarrow> CHR 0x1B \<notin> set (pad_left w s)"
  by (simp add: pad_left_def)

lemma highlight_plain [simp]: "highlight_source_line plain_style l = Some l"
  by (simp add: highlight_source_line_def plain_style_def)

lemma snippet_row_ok:
  assumes "n \<noteq> 0" "n \<le> length ls" and "list_all ascii_char (ls ! (n - 1))"
  shows "\<exists>row. snippet_row st ls current w n = Some row"
  using assms highlight_source_line_ascii [of "ls ! (n - 1)" st] by (auto simp: snippet_row_def)

text \<open>A coloured row without its escapes is the plain row.\<close>

lemma snippet_row_text:
  assumes row: "snippet_row st ls current w n = Some row" and esc: "CHR 0x1B \<notin> set (ls ! (n - 1))"
  shows "\<exists>p. snippet_row plain_style ls current w n = Some p \<and>
             strip_escapes False (row @ r) = p @ strip_escapes False r"
proof -
  obtain body where n: "n \<noteq> 0" "n \<le> length ls"
    and body: "highlight_source_line st (ls ! (n - 1)) = Some body"
    and row_def: "row = ''  '' @ (if n = current then green st ''>'' else '' '') @ '' ''
             @ dim st (pad_left w (show_nat n)) @ '' | '' @ body @ nl"
    using row by (auto simp: snippet_row_def split: if_splits)
  have num: "strip_escapes False (dim st (pad_left w (show_nat n)) @ u) = pad_left w (show_nat n) @ strip_escapes False u" for u
    unfolding dim_def by (rule strip_escapes_wrap) (simp_all add: pad_left_no_escape show_nat_no_escape)
  have mark: "strip_escapes False (green st ''>'' @ u) = ''>'' @ strip_escapes False u" for u
    unfolding green_def by (rule strip_escapes_wrap) simp_all
  have text_ok: "strip_escapes False (body @ nl @ r) = ls ! (n - 1) @ nl @ strip_escapes False r"
    using highlight_source_line_append [OF body esc, of "nl @ r"] by (simp add: nl_def)
  show ?thesis
    using n num mark text_ok by (auto simp: snippet_row_def row_def)
qed

lemma snippet_rows_text:
  assumes "those (map (snippet_row st ls current w) ns) = Some rows"
    and "\<forall>n \<in> set ns. CHR 0x1B \<notin> set (ls ! (n - 1))"
  shows "\<exists>ps. those (map (snippet_row plain_style ls current w) ns) = Some ps \<and>
              strip_escapes False (concat rows) = concat ps"
  using assms
proof (induction ns arbitrary: rows)
  case (Cons n ns)
  then obtain row rest where r: "snippet_row st ls current w n = Some row"
      "those (map (snippet_row st ls current w) ns) = Some rest" "rows = row # rest"
    by (auto split: option.splits)
  obtain ps where ps: "those (map (snippet_row plain_style ls current w) ns) = Some ps"
      "strip_escapes False (concat rest) = concat ps"
    using Cons.IH [OF r(2)] Cons.prems(2) by auto
  obtain p where "snippet_row plain_style ls current w n = Some p"
      "strip_escapes False (row @ concat rest) = p @ strip_escapes False (concat rest)"
    using snippet_row_text [OF r(1), of "concat rest"] Cons.prems(2) by auto
  with ps r(3) show ?case by simp
qed simp

section \<open>Properties\<close>



end
