(* ===== verification/ProxySystem.thy ===== *)
theory ProxySystem imports ProxyMain MuxGuarantees begin

text \<open>
  The proxy as one system (\<open>dap-core/src/mux_bridge.rs\<close>): the multiplexer's loop, the two tasks of the
  bridge to the adapter and the two tasks of the bridge of every client, with the queues between them.
  An event is one turn of one task, or something the other end of a connection does; the scheduler is
  the list of events. What was read and written on each connection is recorded.
\<close>

section \<open>State\<close>

text \<open>A client's bridge: what it has read, what the loop has put on its channel, what was written to it.\<close>

record client_port =
  pt_role :: client_role
  pt_reading :: bool
  pt_heard :: "message list"
  pt_inbox :: "json list"
  pt_taken :: nat
  pt_writing :: bool
  pt_wire :: "message list"

record proxy_system =
  px_loop :: loop_state
  px_ops :: "session_op list"
  px_values :: "json list"
  px_reading :: bool
  px_heard :: "message list"
  px_children :: nat
  px_writing :: bool
  px_taken :: nat
  px_wire :: "message list"
  px_clients :: "(int, client_port) hmap"

definition proxy_start :: proxy_system where
  "proxy_start =
     \<lparr>px_loop = Running session_new, px_ops = [], px_values = [], px_reading = True, px_heard = [],
      px_children = 0, px_writing = True, px_taken = 0, px_wire = [], px_clients = []\<rparr>"

definition loop_running :: "proxy_system \<Rightarrow> bool" where
  "loop_running S = (case px_loop S of Running _ \<Rightarrow> True | Ended _ _ \<Rightarrow> False)"

definition mux_session :: "proxy_system \<Rightarrow> session" where
  "mux_session S = final_session (px_loop S)"

section \<open>The loop\<close>

text \<open>What the loop sends to a client that is still attached arrives on the channel of its bridge.\<close>

definition fill_inbox :: "session \<Rightarrow> int \<Rightarrow> client_port \<Rightarrow> client_port" where
  "fill_inbox s i p =
     (case hm_get (ss_clients s) i of
        Some c \<Rightarrow> p\<lparr>pt_inbox := pt_inbox p @ drop (length (pt_inbox p)) (cs_queue c)\<rparr>
      | None \<Rightarrow> p)"

definition take_input :: "session_input \<Rightarrow> proxy_system \<Rightarrow> proxy_system" where
  "take_input i S =
     (let l = loop_step (px_loop S) i
      in S\<lparr>px_loop := l, px_clients := map (\<lambda>(k, p). (k, fill_inbox (final_session l) k p)) (px_clients S)\<rparr>)"

definition new_port :: "client_role \<Rightarrow> session \<Rightarrow> int \<Rightarrow> client_port" where
  "new_port role s i =
     fill_inbox s i \<lparr>pt_role = role, pt_reading = True, pt_heard = [], pt_inbox = [], pt_taken = 0,
                     pt_writing = True, pt_wire = []\<rparr>"

text \<open>An attach is answered with the endpoint, and the bridge of the client starts.\<close>

definition take_op :: "proxy_system \<Rightarrow> proxy_system" where
  "take_op S =
     (case px_ops S of
        [] \<Rightarrow> S
      | op # ops \<Rightarrow>
          if \<not> loop_running S then S
          else let S' = take_input (Op op) (S\<lparr>px_ops := ops\<rparr>)
            in case op of
                 Attach role \<Rightarrow>
                   (let s = mux_session S'; i = ss_next_client s
                    in S'\<lparr>px_clients := hm_insert i (new_port role s i) (px_clients S')\<rparr>)
               | _ \<Rightarrow> S')"

definition take_value :: "proxy_system \<Rightarrow> proxy_system" where
  "take_value S =
     (case px_values S of
        [] \<Rightarrow> if px_reading S then S else take_input UpstreamClosed S
      | v # vs \<Rightarrow> if loop_running S then take_input (FromUpstream v) (S\<lparr>px_values := vs\<rparr>) else S)"

section \<open>The bridge to the adapter\<close>

text \<open>
  \<open>backend_to_mux\<close>: one message read from the adapter. Sending to the loop fails once it has ended,
  and then the task ends.
\<close>

definition read_adapter :: "bridge_env \<Rightarrow> message \<Rightarrow> proxy_system \<Rightarrow> proxy_system" where
  "read_adapter env m S =
     (if \<not> px_reading S then S
      else case bridge_backend_message env m (px_children S) of
        (Inl reply, n) \<Rightarrow>
          S\<lparr>px_heard := px_heard S @ [m], px_wire := px_wire S @ [reply], px_children := n\<rparr>
      | (Inr v, n) \<Rightarrow>
          if loop_running S
          then S\<lparr>px_heard := px_heard S @ [m], px_values := px_values S @ [v], px_children := n\<rparr>
          else S\<lparr>px_heard := px_heard S @ [m], px_reading := False, px_children := n\<rparr>)"

text \<open>\<open>mux_to_backend\<close>: when it ends, the loop has no one to send to.\<close>

definition stop_writing :: "proxy_system \<Rightarrow> proxy_system" where
  "stop_writing S = take_input UpstreamDropped (S\<lparr>px_writing := False\<rparr>)"

definition say_goodbye :: "proxy_system \<Rightarrow> proxy_system" where
  "say_goodbye S = stop_writing (S\<lparr>px_wire := px_wire S @ [request_adapter_disconnect]\<rparr>)"

definition write_adapter :: "json option \<Rightarrow> proxy_system \<Rightarrow> proxy_system" where
  "write_adapter attach_defaults S =
     (let sent = ss_upstream (mux_session S)
      in if \<not> px_writing S then S
         else if px_taken S < length sent then
           (case bridge_upstream_value attach_defaults (sent ! px_taken S) of
              Some m \<Rightarrow> S\<lparr>px_taken := px_taken S + 1, px_wire := px_wire S @ [m]\<rparr>
            | None \<Rightarrow> stop_writing (S\<lparr>px_taken := px_taken S + 1\<rparr>))
         else if loop_running S then S else say_goodbye S)"

section \<open>The bridge of a client\<close>

definition on_port :: "int \<Rightarrow> (client_port \<Rightarrow> client_port) \<Rightarrow> proxy_system \<Rightarrow> proxy_system" where
  "on_port i f S =
     (case hm_get (px_clients S) i of
        Some p \<Rightarrow> S\<lparr>px_clients := hm_insert i (f p) (px_clients S)\<rparr>
      | None \<Rightarrow> S)"

text \<open>\<open>ingest\<close>: one message read from the client.\<close>

definition read_client :: "host \<Rightarrow> plugin_manifest option \<Rightarrow> int \<Rightarrow> message \<Rightarrow> proxy_system \<Rightarrow> proxy_system" where
  "read_client h plugin_context i m S =
     (case hm_get (px_clients S) i of
        None \<Rightarrow> S
      | Some p \<Rightarrow>
          if \<not> pt_reading p then S
          else case bridge_client_message h plugin_context m of
            Inl reply \<Rightarrow> on_port i (\<lambda>p. p\<lparr>pt_heard := pt_heard p @ [m], pt_wire := pt_wire p @ [reply]\<rparr>) S
          | Inr v \<Rightarrow>
              if loop_running S
              then (on_port i (\<lambda>p. p\<lparr>pt_heard := pt_heard p @ [m]\<rparr>) S)\<lparr>px_ops := px_ops S @ [ClientSend i v]\<rparr>
              else on_port i (\<lambda>p. p\<lparr>pt_heard := pt_heard p @ [m], pt_reading := False\<rparr>) S)"

text \<open>The end of \<open>ingest\<close>, by the client's end of stream, its idle timeout or an error, detaches.\<close>

definition client_leaves :: "int \<Rightarrow> proxy_system \<Rightarrow> proxy_system" where
  "client_leaves i S =
     (case hm_get (px_clients S) i of
        None \<Rightarrow> S
      | Some p \<Rightarrow> (on_port i (\<lambda>p. p\<lparr>pt_reading := False\<rparr>) S)\<lparr>px_ops := px_ops S @ [Detach i]\<rparr>)"

text \<open>\<open>egress\<close>: one value written to the client; an end by an error drops the channel's receiver.\<close>

definition client_broken :: "int \<Rightarrow> proxy_system \<Rightarrow> proxy_system" where
  "client_broken i S = take_input (RecvDropped i) (on_port i (\<lambda>p. p\<lparr>pt_writing := False\<rparr>) S)"

definition write_client :: "int \<Rightarrow> proxy_system \<Rightarrow> proxy_system" where
  "write_client i S =
     (case hm_get (px_clients S) i of
        None \<Rightarrow> S
      | Some p \<Rightarrow>
          if \<not> pt_writing p \<or> length (pt_inbox p) \<le> pt_taken p then S
          else case bridge_egress_value (pt_inbox p ! pt_taken p) of
            Some m \<Rightarrow> on_port i (\<lambda>p. p\<lparr>pt_taken := pt_taken p + 1, pt_wire := pt_wire p @ [m]\<rparr>) S
          | None \<Rightarrow> client_broken i (on_port i (\<lambda>p. p\<lparr>pt_taken := pt_taken p + 1\<rparr>) S))"

section \<open>Events\<close>

text \<open>
  What a message of the adapter leads to may depend on how a child or a terminal process starts at
  that moment, so the event carries it. \<open>Connects\<close> is the editor's start or an accepted control
  connection.
\<close>

datatype system_event =
    Connects client_role
  | ClientSays int message
  | ClientLeaves int
  | ClientBroken int
  | ClientDropsEvents int
  | WriteClient int
  | AdapterSays message "child_spawn_plan \<Rightarrow> string + child_spawn_result" "terminal_command \<Rightarrow> string + nat"
  | AdapterCloses
  | AdapterUnwritable
  | WriteAdapter
  | Shutdown
  | TakeOp
  | TakeValue

text \<open>What a proxy is started with; the plugin is the one of both bridges.\<close>

record proxy_config =
  pc_host :: host
  pc_env :: bridge_env
  pc_attach_defaults :: "json option"

fun system_step :: "proxy_config \<Rightarrow> proxy_system \<Rightarrow> system_event \<Rightarrow> proxy_system" where
  "system_step k S (Connects role) = S\<lparr>px_ops := px_ops S @ [Attach role]\<rparr>"
| "system_step k S (ClientSays i m) = read_client (pc_host k) (be_plugin (pc_env k)) i m S"
| "system_step k S (ClientLeaves i) = client_leaves i S"
| "system_step k S (ClientBroken i) = client_broken i S"
| "system_step k S (ClientDropsEvents i) = take_input (EventsDropped i) S"
| "system_step k S (WriteClient i) = write_client i S"
| "system_step k S (AdapterSays m spawn run) = read_adapter ((pc_env k)\<lparr>be_spawn := spawn, be_run := run\<rparr>) m S"
| "system_step k S AdapterCloses = S\<lparr>px_reading := False\<rparr>"
| "system_step k S AdapterUnwritable = (if px_writing S then stop_writing S else S)"
| "system_step k S WriteAdapter = write_adapter (pc_attach_defaults k) S"
| "system_step k S Shutdown = (if px_writing S then say_goodbye S else S)"
| "system_step k S TakeOp = take_op S"
| "system_step k S TakeValue = take_value S"

definition run_proxy :: "proxy_config \<Rightarrow> system_event list \<Rightarrow> proxy_system" where
  "run_proxy k es = foldl (system_step k) proxy_start es"

text \<open>The bound under which sequence numbers do not wrap, checked before each event.\<close>

definition system_room :: "proxy_system \<Rightarrow> system_event \<Rightarrow> bool" where
  "system_room S e \<longleftrightarrow> ss_backend_seq (mux_session S) < i64_max"

end
