(* ===== verification/ProxyTurns.thy ===== *)
theory ProxyTurns imports ProxySystem begin

text \<open>
  What every turn of the system of \<open>ProxySystem\<close> keeps: what has been written to the adapter and to the
  clients follows from what was read from them and from the state of the loop. Each task's turn has its
  lemma, and two interpretations of the locale of runs put them together.
\<close>

section \<open>What the loop sends to the adapter\<close>

text \<open>
  One input adds at most one value to the upstream channel, and that is a request of the client whose
  message the input is, with its command.
\<close>

definition comes_from :: "session_input \<Rightarrow> json \<Rightarrow> bool" where
  "comes_from i u \<longleftrightarrow> (\<exists>j v. i = Op (ClientSend j v) \<and> message_kind v = KRequest \<and>
     message_kind u = KRequest \<and> command u = command v)"

lemma send_upstream_adds:
  "ss_upstream (fst (send_upstream m s)) = ss_upstream s \<or> ss_upstream (fst (send_upstream m s)) = ss_upstream s @ [m]"
  by (simp add: send_upstream_def)

lemma forward_editor_kind:
  "message_kind (fst (forward_editor m s)) = message_kind m \<and> command (fst (forward_editor m s)) = command m \<and>
   ss_upstream (snd (forward_editor m s)) = ss_upstream s"
  by (simp add: forward_editor_def Let_def split: option.split)

lemma forward_other_kind:
  "message_kind (fst (forward_other i m s)) = message_kind m \<and> command (fst (forward_other i m s)) = command m \<and>
   ss_upstream (snd (forward_other i m s)) = ss_upstream s"
  by (simp add: forward_other_def Let_def)

lemma client_message_upstream:
  "ss_upstream (fst (handle_client_message j v s)) = ss_upstream s \<or>
   (\<exists>u. ss_upstream (fst (handle_client_message j v s)) = ss_upstream s @ [u] \<and> comes_from (Op (ClientSend j v)) u)"
proof (cases "hm_get (ss_clients s) j")
  case None
  then show ?thesis by (simp add: handle_client_message_unknown)
next
  case (Some c)
  show ?thesis
  proof (cases "message_kind v \<noteq> KRequest \<or> cs_role c = Control \<and> command v = Some snapshot_command")
    case True
    then show ?thesis using Some
      by (auto simp: handle_client_message_def serve_snapshot_def deliver_to_client_def split: option.split)
  next
    case False
    define r where "r = (if cs_role c = Editor then forward_editor v s else forward_other j v s)"
    have r: "message_kind (fst r) = message_kind v" "command (fst r) = command v" "ss_upstream (snd r) = ss_upstream s"
      using forward_editor_kind [of v s] forward_other_kind [of j v s] by (simp_all add: r_def)
    have "handle_client_message j v s = send_upstream (fst r) (snd r)"
      using handle_client_message_cases [OF Some, of v] False by (simp add: r_def Let_def)
    then show ?thesis
      using send_upstream_adds [of "fst r" "snd r"] r False by (auto simp: comes_from_def)
  qed
qed

lemma loop_step_upstream:
  "ss_upstream (final_session (loop_step l i)) = ss_upstream (final_session l) \<or>
   (\<exists>u. ss_upstream (final_session (loop_step l i)) = ss_upstream (final_session l) @ [u] \<and> comes_from i u)"
proof (cases l)
  case (Running s)
  have result: "final_session (loop_result r) = fst r" for r
    by (cases r; cases "snd r") (simp_all add: loop_result_def)
  show ?thesis
  proof (cases i)
    case (Op op)
    then show ?thesis using Running client_message_upstream
      by (cases op) (auto simp: result attach_def detach_def Let_def)
  qed (use Running in \<open>auto simp: result drop_recv_def split: option.split\<close>)
qed simp

section \<open>Invariants\<close>

fun is_request :: "message \<Rightarrow> bool" where
  "is_request (Request r) = True"
| "is_request _ = False"

fun is_response :: "message \<Rightarrow> bool" where
  "is_response (Response r) = True"
| "is_response _ = False"

fun reverse_request :: "message \<Rightarrow> request option" where
  "reverse_request (Request r) = (if rq_command r \<in> reverse_commands then Some r else None)"
| "reverse_request _ = None"

definition forwarded :: "proxy_config \<Rightarrow> proxy_system \<Rightarrow> message list" where
  "forwarded k S = List.map_filter (bridge_upstream_value (pc_attach_defaults k))
     (take (px_taken S) (ss_upstream (mux_session S)))"

definition allowed :: "proxy_config \<Rightarrow> json \<Rightarrow> bool" where
  "allowed k v \<longleftrightarrow> message_kind v = KRequest \<longrightarrow> be_plugin (pc_env k) \<noteq> None \<longrightarrow> command v \<noteq> Some plugin_info_command"

definition own_replies :: "host \<Rightarrow> plugin_manifest option \<Rightarrow> message list \<Rightarrow> message list" where
  "own_replies h plugin_context ms =
     List.map_filter (\<lambda>m. Option.bind plugin_context (\<lambda>p. try_handle_client_request h p m)) ms"

definition port_ok :: "proxy_config \<Rightarrow> client_port \<Rightarrow> bool" where
  "port_ok k p \<longleftrightarrow> pt_taken p \<le> length (pt_inbox p) \<and>
     pt_wire p \<in> shuffles (own_replies (pc_host k) (be_plugin (pc_env k)) (pt_heard p))
       (List.map_filter bridge_egress_value (take (pt_taken p) (pt_inbox p)))"

definition channels_ok :: "proxy_config \<Rightarrow> proxy_system \<Rightarrow> bool" where
  "channels_ok k S \<longleftrightarrow> px_taken S \<le> length (ss_upstream (mux_session S)) \<and>
     (\<forall>u \<in> set (ss_upstream (mux_session S)). message_kind u = KRequest \<and> allowed k u) \<and>
     (\<forall>i v. ClientSend i v \<in> set (px_ops S) \<longrightarrow> allowed k v)"

definition wire_ok :: "proxy_config \<Rightarrow> proxy_system \<Rightarrow> bool" where
  "wire_ok k S \<longleftrightarrow>
     (\<exists>g. (g = [] \<or> g = [request_adapter_disconnect] \<and> \<not> px_writing S) \<and>
          filter is_request (px_wire S) = forwarded k S @ g) \<and>
     list_all2 replies_to (List.map_filter reverse_request (px_heard S)) (filter is_response (px_wire S)) \<and>
     list_all (\<lambda>m. is_request m \<or> is_response m) (px_wire S)"

definition system_ok :: "proxy_config \<Rightarrow> proxy_system \<Rightarrow> bool" where
  "system_ok k S \<longleftrightarrow> loop_ok (px_loop S) \<and> numbered (mux_session S) \<and> channels_ok k S \<and> wire_ok k S \<and>
     list_all (\<lambda>q. port_ok k (snd q)) (px_clients S)"

lemmas system_parts = system_ok_def channels_ok_def wire_ok_def

lemma shuffles_snoc_left: "zs \<in> shuffles xs ys \<Longrightarrow> zs @ [x] \<in> shuffles (xs @ [x]) ys"
proof (induction xs ys arbitrary: zs rule: shuffles.induct)
  case (1 ys)
  then show ?case by (induction ys arbitrary: zs) (auto simp: Cons_in_shuffles_iff)
next
  case (3 a xs b ys)
  then show ?case by (auto simp: Cons_in_shuffles_iff)
qed simp

lemma shuffles_snoc_right: "zs \<in> shuffles xs ys \<Longrightarrow> zs @ [y] \<in> shuffles xs (ys @ [y])"
  using shuffles_snoc_left [of zs ys xs y] by (simp add: shuffles_commutes)

lemma list_all_hm_insert: "list_all P m \<Longrightarrow> P (i, x) \<Longrightarrow> list_all P (hm_insert i x m)"
  using hm_insert_members [of i x m] by (auto simp: list_all_iff)

section \<open>Every turn keeps the invariants\<close>

lemma take_input_fields [simp]:
  "px_ops (take_input i S) = px_ops S" "px_values (take_input i S) = px_values S"
  "px_reading (take_input i S) = px_reading S" "px_heard (take_input i S) = px_heard S"
  "px_children (take_input i S) = px_children S" "px_writing (take_input i S) = px_writing S"
  "px_taken (take_input i S) = px_taken S" "px_wire (take_input i S) = px_wire S"
  "px_loop (take_input i S) = loop_step (px_loop S) i"
  by (simp_all add: take_input_def Let_def)

lemma mux_session_take: "mux_session (take_input i S) = final_session (loop_step (px_loop S) i)"
  by (simp add: mux_session_def)

lemma mux_session_fields [simp]:
  "mux_session (S\<lparr>px_ops := a\<rparr>) = mux_session S" "mux_session (S\<lparr>px_values := b\<rparr>) = mux_session S"
  "mux_session (S\<lparr>px_reading := c\<rparr>) = mux_session S" "mux_session (S\<lparr>px_heard := d\<rparr>) = mux_session S"
  "mux_session (S\<lparr>px_children := e\<rparr>) = mux_session S" "mux_session (S\<lparr>px_writing := f\<rparr>) = mux_session S"
  "mux_session (S\<lparr>px_taken := g\<rparr>) = mux_session S" "mux_session (S\<lparr>px_wire := h\<rparr>) = mux_session S"
  "mux_session (S\<lparr>px_clients := j\<rparr>) = mux_session S"
  by (simp_all add: mux_session_def)

lemma on_port_fields [simp]:
  "px_ops (on_port i f S) = px_ops S" "px_heard (on_port i f S) = px_heard S" "px_writing (on_port i f S) = px_writing S"
  "px_taken (on_port i f S) = px_taken S" "px_wire (on_port i f S) = px_wire S" "px_loop (on_port i f S) = px_loop S"
  "mux_session (on_port i f S) = mux_session S"
  by (simp_all add: on_port_def mux_session_def split: option.split)

text \<open>The invariants of the loop and of the adapter's side are those of the state without its clients.\<close>

lemma forwarded_cong:
  "px_taken T = px_taken S \<Longrightarrow> mux_session T = mux_session S \<Longrightarrow> forwarded k T = forwarded k S"
  by (simp add: forwarded_def)

lemma forwarded_take_input:
  "px_taken S \<le> length (ss_upstream (mux_session S)) \<Longrightarrow> forwarded k (take_input i S) = forwarded k S"
  using loop_step_upstream [of "px_loop S" i] by (auto simp: forwarded_def mux_session_def)

lemma channels_take_input:
  assumes "channels_ok k S" and "\<And>j v. i = Op (ClientSend j v) \<Longrightarrow> allowed k v"
  shows "channels_ok k (take_input i S)"
proof -
  have "message_kind u = KRequest \<and> allowed k u" if "comes_from i u" for u
    using that assms(2) by (auto simp: comes_from_def allowed_def)
  then show ?thesis
    using assms(1) loop_step_upstream [of "px_loop S" i]
    by (auto simp: channels_ok_def mux_session_take) (auto simp: mux_session_def)
qed

lemma wire_take_input:
  "channels_ok k S \<Longrightarrow> wire_ok k S \<Longrightarrow> wire_ok k (take_input i S)"
  by (simp add: wire_ok_def channels_ok_def forwarded_take_input)

lemma port_ok_fill: "port_ok k p \<Longrightarrow> port_ok k (fill_inbox s i p)"
  by (auto simp: port_ok_def fill_inbox_def split: option.split)

lemma ports_take_input:
  "list_all (\<lambda>q. port_ok k (snd q)) (px_clients S) \<Longrightarrow> list_all (\<lambda>q. port_ok k (snd q)) (px_clients (take_input i S))"
  by (auto simp: take_input_def Let_def list_all_iff port_ok_fill)

lemma port_ok_new: "port_ok k (new_port role s i)"
  unfolding new_port_def by (rule port_ok_fill) (simp add: port_ok_def own_replies_def List.map_filter_def)

lemma ports_on_port:
  assumes "list_all (\<lambda>q. port_ok k (snd q)) (px_clients S)"
    and "\<And>p. hm_get (px_clients S) i = Some p \<Longrightarrow> port_ok k p \<Longrightarrow> port_ok k (f p)"
  shows "list_all (\<lambda>q. port_ok k (snd q)) (px_clients (on_port i f S))"
proof (cases "hm_get (px_clients S) i")
  case (Some p)
  then have "port_ok k p" using assms(1) map_of_SomeD [OF Some] by (auto simp: list_all_iff)
  then show ?thesis
    using Some assms by (auto simp: on_port_def intro!: list_all_hm_insert)
qed (use assms(1) in \<open>simp add: on_port_def\<close>)

lemma take_input_ok:
  assumes "system_ok k S" and "system_room S e" and "\<And>j v. i = Op (ClientSend j v) \<Longrightarrow> allowed k v"
  shows "system_ok k (take_input i S)"
proof -
  have "loop_ok (loop_step (px_loop S) i) \<and> numbered (final_session (loop_step (px_loop S) i))"
    using assms(1,2) by (intro up.good_step) (auto simp: system_ok_def system_room_def mux_session_def)
  then show ?thesis
    using assms channels_take_input [of k S i] wire_take_input [of k S i] ports_take_input [of k S i]
    by (simp add: system_ok_def mux_session_take)
qed

text \<open>A change of what a client's bridge has done leaves the rest alone.\<close>

lemma on_port_ok:
  assumes "system_ok k S" and "\<And>p. hm_get (px_clients S) i = Some p \<Longrightarrow> port_ok k p \<Longrightarrow> port_ok k (f p)"
  shows "system_ok k (on_port i f S)"
  using assms ports_on_port [of k S i f]
  by (simp add: system_ok_def channels_ok_def wire_ok_def forwarded_cong [of "on_port i f S" S])

lemma system_room_simps [simp]:
  "system_room (on_port i f S) e = system_room S e" "system_room (S\<lparr>px_ops := a\<rparr>) e = system_room S e"
  "system_room (S\<lparr>px_values := b\<rparr>) e = system_room S e" "system_room (S\<lparr>px_writing := c\<rparr>) e = system_room S e"
  "system_room (S\<lparr>px_taken := n\<rparr>) e = system_room S e" "system_room (S\<lparr>px_wire := w\<rparr>) e = system_room S e"
  by (simp_all add: system_room_def)

lemma enqueue_ok:
  assumes "system_ok k S" and "\<And>i v. ClientSend i v \<in> set ops \<Longrightarrow> allowed k v"
  shows "system_ok k (S\<lparr>px_ops := px_ops S @ ops\<rparr>)"
  using assms by (auto simp: system_ok_def channels_ok_def wire_ok_def forwarded_cong [of "S\<lparr>px_ops := px_ops S @ ops\<rparr>" S])

subsection \<open>The adapter's side\<close>

lemma bridge_upstream_request:
  "message_kind u = KRequest \<Longrightarrow> bridge_upstream_value d u = Some m \<Longrightarrow>
     \<exists>r. m = Request r \<and> seq u = Some (rq_seq r) \<and> command u = Some (rq_command r)"
  by (auto simp: bridge_upstream_value_def value_to_message_def seq_def command_def split: option.splits)

lemma is_response_reply: "replies_to r m \<Longrightarrow> is_response m \<and> \<not> is_request m"
  by (auto simp: replies_to_def)

lemma bridge_backend_reply:
  assumes "bridge_backend_message env m n = (Inl reply, n')"
  shows "\<exists>r. reverse_request m = Some r \<and> replies_to r reply"
proof -
  from assms obtain r where r: "m = Request r" "rq_command r \<in> reverse_commands"
    using bridge_backend_forward [of m env n] by force
  then show ?thesis using bridge_backend_reverse [OF r(2), of env n] assms by auto
qed

lemma bridge_backend_value:
  assumes "bridge_backend_message env m n = (Inr v, n')"
  shows "reverse_request m = None"
proof (cases m)
  case (Request r)
  then show ?thesis using bridge_backend_reverse [of r env n] assms by auto
qed simp_all

lemma stop_writing_ok:
  assumes "system_ok k S" and "system_room S e"
  shows "system_ok k (stop_writing S)"
proof -
  have "system_ok k (S\<lparr>px_writing := False\<rparr>)"
    using assms(1) by (auto simp: system_ok_def channels_ok_def wire_ok_def forwarded_cong [of "S\<lparr>px_writing := False\<rparr>" S])
  then show ?thesis
    unfolding stop_writing_def by (rule take_input_ok [of _ _ e]) (use assms(2) in simp_all)
qed

lemma say_goodbye_ok:
  assumes "system_ok k S" and "system_room S e" and "px_writing S"
  shows "system_ok k (say_goodbye S)"
proof -
  let ?T = "S\<lparr>px_wire := px_wire S @ [request_adapter_disconnect], px_writing := False\<rparr>"
  have "is_request request_adapter_disconnect" by (simp add: request_adapter_disconnect_def)
  moreover have "\<not> is_response request_adapter_disconnect" by (simp add: request_adapter_disconnect_def)
  ultimately have "system_ok k ?T"
    using assms(1,3) by (auto simp: system_ok_def channels_ok_def wire_ok_def forwarded_cong [of ?T S])
  then have "system_ok k (take_input UpstreamDropped ?T)"
    by (rule take_input_ok [of _ _ e]) (use assms(2) in \<open>simp_all add: system_room_def\<close>)
  then show ?thesis by (simp add: say_goodbye_def stop_writing_def)
qed

lemma write_adapter_ok:
  assumes ok: "system_ok k S" and room: "system_room S e"
  shows "system_ok k (write_adapter (pc_attach_defaults k) S)"
proof (cases "px_writing S \<and> px_taken S < length (ss_upstream (mux_session S))")
  case True
  define u where "u = ss_upstream (mux_session S) ! px_taken S"
  have next_taken: "take (px_taken S + 1) (ss_upstream (mux_session S)) = take (px_taken S) (ss_upstream (mux_session S)) @ [u]"
    using True by (simp add: take_Suc_conv_app_nth u_def)
  have u: "message_kind u = KRequest"
    using ok True by (simp add: system_ok_def channels_ok_def u_def)
  have g: "filter is_request (px_wire S) = forwarded k S"
    using ok True by (auto simp: system_ok_def wire_ok_def)
  show ?thesis
  proof (cases "bridge_upstream_value (pc_attach_defaults k) u")
    case None
    let ?T = "S\<lparr>px_taken := px_taken S + 1\<rparr>"
    have "forwarded k ?T = forwarded k S"
      using None next_taken by (simp add: forwarded_def map_filter_snoc)
    then have "system_ok k ?T"
      using ok True by (auto simp: system_ok_def channels_ok_def wire_ok_def)
    then have "system_ok k (stop_writing ?T)" by (rule stop_writing_ok [of _ _ e]) (use room in simp)
    then show ?thesis using True None by (simp add: write_adapter_def Let_def u_def)
  next
    case (Some m)
    let ?T = "S\<lparr>px_taken := px_taken S + 1, px_wire := px_wire S @ [m]\<rparr>"
    obtain r where "m = Request r" using bridge_upstream_request [OF u Some] by blast
    moreover have "forwarded k ?T = forwarded k S @ [m]"
      using Some next_taken by (simp add: forwarded_def map_filter_snoc)
    ultimately have "system_ok k ?T"
      using ok True g by (auto simp: system_ok_def channels_ok_def wire_ok_def)
    then show ?thesis using True Some by (simp add: write_adapter_def Let_def u_def)
  qed
next
  case False
  then show ?thesis
    using ok say_goodbye_ok [OF ok room] by (auto simp: write_adapter_def Let_def)
qed

lemma read_adapter_ok:
  assumes ok: "system_ok k S"
  shows "system_ok k (read_adapter env m S)"
proof (cases "px_reading S")
  case True
  obtain a n where b: "bridge_backend_message env m (px_children S) = (a, n)" by fastforce
  show ?thesis
  proof (cases a)
    case (Inl reply)
    let ?T = "S\<lparr>px_heard := px_heard S @ [m], px_wire := px_wire S @ [reply], px_children := n\<rparr>"
    obtain r where "reverse_request m = Some r" "replies_to r reply"
      using bridge_backend_reply b Inl by blast
    then have "system_ok k ?T"
      using ok is_response_reply [of r reply]
      by (auto simp: system_ok_def channels_ok_def wire_ok_def forwarded_cong [of ?T S] map_filter_snoc list_all2_appendI)
    then show ?thesis using True b Inl by (simp add: read_adapter_def)
  next
    case (Inr v)
    have none: "reverse_request m = None" using bridge_backend_value b Inr by blast
    let ?T = "S\<lparr>px_heard := px_heard S @ [m], px_values := px_values S @ [v], px_children := n\<rparr>"
    let ?U = "S\<lparr>px_heard := px_heard S @ [m], px_reading := False, px_children := n\<rparr>"
    have "system_ok k ?T" "system_ok k ?U"
      using ok none
      by (auto simp: system_ok_def channels_ok_def wire_ok_def forwarded_cong [of ?T S] forwarded_cong [of ?U S] map_filter_snoc)
    then show ?thesis using True b Inr by (simp add: read_adapter_def)
  qed
qed (use ok in \<open>simp add: read_adapter_def\<close>)

subsection \<open>The clients' side\<close>

lemma bridge_client_reply:
  "bridge_client_message h plugin_context m = Inl reply \<Longrightarrow>
     Option.bind plugin_context (\<lambda>p. try_handle_client_request h p m) = Some reply"
  by (auto simp: bridge_client_message_def split: option.splits)

lemma bridge_client_value:
  assumes "bridge_client_message h plugin_context m = Inr v"
  shows "Option.bind plugin_context (\<lambda>p. try_handle_client_request h p m) = None" "v = message_to_value m"
  using assms by (auto simp: bridge_client_message_def split: option.splits)

lemma message_value_kind:
  "message_kind (message_to_value m) = KRequest \<Longrightarrow> \<exists>r. m = Request r \<and> command (message_to_value m) = Some (rq_command r)"
  by (cases m) (auto simp: message_kind_def command_def map_add_def split: option.splits)

lemma bridge_client_allowed:
  assumes "bridge_client_message h (be_plugin (pc_env k)) m = Inr v"
  shows "allowed k v"
  unfolding allowed_def
proof (intro impI)
  assume v: "message_kind v = KRequest" and "be_plugin (pc_env k) \<noteq> None"
  then obtain p where p: "be_plugin (pc_env k) = Some p" by blast
  obtain r where "m = Request r" "command v = Some (rq_command r)"
    using message_value_kind v bridge_client_value(2) [OF assms] by blast
  then show "command v \<noteq> Some plugin_info_command"
    using bridge_client_value(1) [OF assms] p by (auto split: if_splits)
qed

lemma own_replies_snoc:
  "own_replies h q (ms @ [m]) = own_replies h q ms @
     (case Option.bind q (\<lambda>p. try_handle_client_request h p m) of Some y \<Rightarrow> [y] | None \<Rightarrow> [])"
  by (simp add: own_replies_def map_filter_snoc)

lemma read_client_ok:
  assumes ok: "system_ok k S"
  shows "system_ok k (read_client (pc_host k) (be_plugin (pc_env k)) i m S)"
proof (cases "\<exists>p. hm_get (px_clients S) i = Some p \<and> pt_reading p")
  case True
  show ?thesis
  proof (cases "bridge_client_message (pc_host k) (be_plugin (pc_env k)) m")
    case (Inl reply)
    have "system_ok k (on_port i (\<lambda>p. p\<lparr>pt_heard := pt_heard p @ [m], pt_wire := pt_wire p @ [reply]\<rparr>) S)"
      using bridge_client_reply [OF Inl]
      by (intro on_port_ok [OF ok]) (auto simp: port_ok_def own_replies_snoc intro: shuffles_snoc_left)
    then show ?thesis using True Inl by (auto simp: read_client_def)
  next
    case (Inr v)
    have heard: "system_ok k (on_port i (\<lambda>p. p\<lparr>pt_heard := pt_heard p @ [m]\<rparr>) S)"
      "system_ok k (on_port i (\<lambda>p. p\<lparr>pt_heard := pt_heard p @ [m], pt_reading := False\<rparr>) S)"
      using bridge_client_value(1) [OF Inr]
      by (intro on_port_ok [OF ok]; simp add: port_ok_def own_replies_snoc)+
    show ?thesis
      using True Inr heard(2) enqueue_ok [OF heard(1), of "[ClientSend i v]"] bridge_client_allowed [OF Inr]
      by (auto simp: read_client_def)
  qed
qed (use ok in \<open>auto simp: read_client_def split: option.split\<close>)

lemma client_leaves_ok:
  assumes "system_ok k S"
  shows "system_ok k (client_leaves i S)"
proof -
  have "system_ok k (on_port i (\<lambda>p. p\<lparr>pt_reading := False\<rparr>) S)"
    using assms by (intro on_port_ok) (auto simp: port_ok_def)
  from enqueue_ok [OF this, of "[Detach i]"] show ?thesis
    using assms by (simp add: client_leaves_def split: option.split)
qed

lemma client_broken_ok:
  assumes "system_ok k S" and "system_room S e"
  shows "system_ok k (client_broken i S)"
proof -
  have "system_ok k (on_port i (\<lambda>p. p\<lparr>pt_writing := False\<rparr>) S)"
    using assms(1) by (intro on_port_ok) (auto simp: port_ok_def)
  then show ?thesis
    unfolding client_broken_def by (rule take_input_ok [of _ _ e]) (use assms(2) in simp_all)
qed

lemma write_client_ok:
  assumes ok: "system_ok k S" and room: "system_room S e"
  shows "system_ok k (write_client i S)"
proof (cases "\<exists>p. hm_get (px_clients S) i = Some p \<and> pt_writing p \<and> pt_taken p < length (pt_inbox p)")
  case True
  then obtain p where p: "hm_get (px_clients S) i = Some p" "pt_writing p" "pt_taken p < length (pt_inbox p)" by blast
  show ?thesis
  proof (cases "bridge_egress_value (pt_inbox p ! pt_taken p)")
    case None
    have "system_ok k (on_port i (\<lambda>p. p\<lparr>pt_taken := pt_taken p + 1\<rparr>) S)"
      using p None by (intro on_port_ok [OF ok]) (auto simp: port_ok_def take_Suc_conv_app_nth map_filter_snoc)
    then have "system_ok k (client_broken i (on_port i (\<lambda>p. p\<lparr>pt_taken := pt_taken p + 1\<rparr>) S))"
      by (rule client_broken_ok [of _ _ e]) (use room in simp)
    then show ?thesis using p None by (simp add: write_client_def)
  next
    case (Some m)
    have "system_ok k (on_port i (\<lambda>p. p\<lparr>pt_taken := pt_taken p + 1, pt_wire := pt_wire p @ [m]\<rparr>) S)"
      using p Some
      by (intro on_port_ok [OF ok]) (auto simp: port_ok_def take_Suc_conv_app_nth map_filter_snoc intro: shuffles_snoc_right)
    then show ?thesis using p Some by (simp add: write_client_def)
  qed
qed (use ok in \<open>auto simp: write_client_def split: option.split\<close>)

subsection \<open>The loop's turns\<close>

lemma dequeue_ok:
  assumes "system_ok k S" and "px_ops S = op # ops"
  shows "system_ok k (S\<lparr>px_ops := ops\<rparr>) \<and> (\<forall>j v. op = ClientSend j v \<longrightarrow> allowed k v)"
  using assms by (auto simp: system_ok_def channels_ok_def wire_ok_def forwarded_cong [of "S\<lparr>px_ops := ops\<rparr>" S])

lemma add_port_ok:
  "system_ok k S \<Longrightarrow> system_ok k (S\<lparr>px_clients := hm_insert i (new_port role s i) (px_clients S)\<rparr>)"
  by (auto simp: system_ok_def channels_ok_def wire_ok_def port_ok_new
      forwarded_cong [of "S\<lparr>px_clients := hm_insert i (new_port role s i) (px_clients S)\<rparr>" S] intro!: list_all_hm_insert)

lemma take_op_ok:
  assumes "system_ok k S" and "system_room S e"
  shows "system_ok k (take_op S)"
proof (cases "px_ops S")
  case (Cons op ops)
  have T: "system_ok k (take_input (Op op) (S\<lparr>px_ops := ops\<rparr>))"
    using dequeue_ok [OF assms(1) Cons] assms(2) by (intro take_input_ok [of _ _ e]) auto
  show ?thesis
    using assms(1) T add_port_ok [OF T] Cons by (cases op) (simp_all add: take_op_def Let_def)
qed (use assms in \<open>simp add: take_op_def\<close>)

lemma take_value_ok:
  assumes ok: "system_ok k S" and room: "system_room S e"
  shows "system_ok k (take_value S)"
proof -
  have "system_ok k (S\<lparr>px_values := vs\<rparr>)" for vs
    using ok by (simp add: system_ok_def channels_ok_def wire_ok_def forwarded_cong [of "S\<lparr>px_values := vs\<rparr>" S])
  then have "system_ok k (take_input i (S\<lparr>px_values := vs\<rparr>))" if "\<forall>op. i \<noteq> Op op" for i vs
    using that room by (intro take_input_ok [of _ _ e]) auto
  moreover have "system_ok k (take_input UpstreamClosed S)"
    using ok room by (intro take_input_ok [of _ _ e]) auto
  ultimately show ?thesis using ok by (simp add: take_value_def split: list.split)
qed

lemma system_step_ok:
  assumes ok: "system_ok k S" and room: "system_room S e"
  shows "system_ok k (system_step k S e)"
proof (cases e)
  case (Connects role)
  then show ?thesis using enqueue_ok [OF ok, of "[Attach role]"] by simp
next
  case (ClientDropsEvents i)
  then show ?thesis using take_input_ok [OF ok room, of "EventsDropped i"] by simp
next
  case AdapterCloses
  then show ?thesis using ok by (simp add: system_ok_def channels_ok_def wire_ok_def forwarded_cong [of "S\<lparr>px_reading := False\<rparr>" S])
qed (use assms read_client_ok client_leaves_ok client_broken_ok write_client_ok read_adapter_ok
      stop_writing_ok say_goodbye_ok write_adapter_ok take_op_ok take_value_ok in auto)

lemma proxy_start_ok: "system_ok k proxy_start"
  using up.good_start
  by (simp add: system_ok_def channels_ok_def wire_ok_def forwarded_def mux_session_def proxy_start_def List.map_filter_def)

interpretation px: guarded_machine proxy_start "system_step k" system_room "system_ok k" for k
  by unfold_locales (auto intro: proxy_start_ok system_step_ok)

section \<open>The channels of the clients\<close>

text \<open>A client the loop knows has a bridge in its role, whose channel holds exactly what the loop has sent to it.\<close>

definition boxes_ok :: "proxy_system \<Rightarrow> bool" where
  "boxes_ok S \<longleftrightarrow> (\<forall>i c. hm_get (ss_clients (mux_session S)) i = Some c \<longrightarrow>
     (\<exists>p. hm_get (px_clients S) i = Some p \<and> pt_inbox p = cs_queue c \<and> pt_role p = cs_role c))"

lemma clients_kept_get:
  assumes "clients_kept s t" and "hm_get (ss_clients t) j = Some c'"
  shows "\<exists>c. hm_get (ss_clients s) j = Some c \<and> prefix (cs_queue c) (cs_queue c') \<and> cs_role c' = cs_role c"
proof -
  have "j \<in> set (hm_keys (ss_clients s))"
    using assms clients_kept_keys [OF assms(1)] by (metis domI dom_map_of_conv_image_fst list.set_map)
  then obtain c where "hm_get (ss_clients s) j = Some c" by (metis list.set_map map_of_eq_None_iff not_None_eq)
  then show ?thesis using assms by (fastforce simp: clients_kept_def)
qed

lemma attach_get:
  assumes "hm_get (ss_clients (attach role s)) j = Some c'" and "j \<noteq> next_client_id s"
  shows "\<exists>c. hm_get (ss_clients s) j = Some c \<and> prefix (cs_queue c) (cs_queue c') \<and> cs_role c' = cs_role c"
  using clients_kept_get [OF clients_kept_replay assms(1) [unfolded attach_def Let_def]] assms(2) by simp

lemma deliver_replay_next [simp]: "ss_next_client (deliver_replay i ms s) = ss_next_client s"
  by (induction ms arbitrary: s) (simp_all add: deliver_to_client_def split: option.split)

lemma attach_next: "ss_next_client (attach role s) = next_client_id s"
  by (simp add: attach_def Let_def)

lemma loop_step_clients:
  assumes "hm_get (ss_clients (final_session (loop_step l i))) j = Some c'"
    and "\<And>role. i = Op (Attach role) \<Longrightarrow> j \<noteq> ss_next_client (final_session (loop_step l i))"
  shows "\<exists>c. hm_get (ss_clients (final_session l)) j = Some c \<and> prefix (cs_queue c) (cs_queue c') \<and> cs_role c' = cs_role c"
proof (cases l)
  case (Running s)
  have result: "final_session (loop_result r) = fst r" for r
    by (cases r; cases "snd r") (simp_all add: loop_result_def)
  show ?thesis
  proof (cases i)
    case (FromUpstream m)
    then show ?thesis using assms(1) Running clients_kept_get [OF clients_kept_upstream_message] by (simp add: result)
  next
    case (Op op)
    show ?thesis
    proof (cases op)
      case (Attach role)
      then show ?thesis using assms Op Running attach_get [of role s j c'] by (simp add: result attach_next)
    next
      case (ClientSend k m)
      then show ?thesis using assms(1) Op Running clients_kept_get [OF clients_kept_client_message] by (simp add: result)
    next
      case (Detach k)
      then show ?thesis using assms(1) Op Running by (auto simp: result detach_def split: if_splits)
    qed
  next
    case (RecvDropped k)
    then show ?thesis using assms(1) Running by (auto simp: drop_recv_def split: option.splits if_splits)
  qed (use assms(1) Running in auto)
qed (use assms(1) in auto)

lemma hm_get_map_keyed: "hm_get (map (\<lambda>(k, v). (k, f k v)) m) i = map_option (f i) (hm_get m i)"
  by (induction m) auto

lemma fill_inbox_role [simp]: "pt_role (fill_inbox s i p) = pt_role p"
  by (simp add: fill_inbox_def split: option.split)

lemma new_port_role [simp]: "pt_role (new_port role s i) = role"
  by (simp add: new_port_def)

lemma fill_inbox_prefix:
  assumes "hm_get (ss_clients t) i = Some c'" and "pt_inbox p = cs_queue c" and "prefix (cs_queue c) (cs_queue c')"
  shows "pt_inbox (fill_inbox t i p) = cs_queue c'"
  using assms by (auto simp: fill_inbox_def prefix_def)

text \<open>Every client but one that is just being attached.\<close>

lemma take_input_boxes:
  assumes "boxes_ok S" and "hm_get (ss_clients (mux_session (take_input i S))) j = Some c'"
    and "\<And>role. i = Op (Attach role) \<Longrightarrow> j \<noteq> ss_next_client (mux_session (take_input i S))"
  shows "\<exists>p. hm_get (px_clients (take_input i S)) j = Some p \<and> pt_inbox p = cs_queue c' \<and> pt_role p = cs_role c'"
proof -
  obtain c where c: "hm_get (ss_clients (mux_session S)) j = Some c" "prefix (cs_queue c) (cs_queue c')"
    "cs_role c' = cs_role c"
    using loop_step_clients [of "px_loop S" i j c'] assms(2,3) by (auto simp: mux_session_take mux_session_def)
  then obtain p where "hm_get (px_clients S) j = Some p" "pt_inbox p = cs_queue c" "pt_role p = cs_role c"
    using assms(1) by (auto simp: boxes_ok_def)
  then show ?thesis
    using c(2,3) assms(2) fill_inbox_prefix [of _ j c' p c]
    by (simp add: take_input_def Let_def hm_get_map_keyed mux_session_def)
qed

lemma take_input_boxes_ok:
  "boxes_ok S \<Longrightarrow> (\<And>role. i \<noteq> Op (Attach role)) \<Longrightarrow> boxes_ok (take_input i S)"
  using take_input_boxes [of S i] by (auto simp: boxes_ok_def)

lemma boxes_cong:
  "boxes_ok S \<Longrightarrow> px_loop T = px_loop S \<Longrightarrow> px_clients T = px_clients S \<Longrightarrow> boxes_ok T"
  by (simp add: boxes_ok_def mux_session_def)

lemma on_port_boxes_ok:
  "boxes_ok S \<Longrightarrow> (\<And>p. pt_inbox (f p) = pt_inbox p \<and> pt_role (f p) = pt_role p) \<Longrightarrow> boxes_ok (on_port i f S)"
  by (fastforce simp: boxes_ok_def on_port_def mux_session_def split: option.split)

lemma boxes_ok_ops [simp]: "boxes_ok (S\<lparr>px_ops := a\<rparr>) = boxes_ok S"
  by (simp add: boxes_ok_def)

lemma stop_writing_boxes_ok: "boxes_ok S \<Longrightarrow> boxes_ok (stop_writing S)"
  unfolding stop_writing_def by (rule take_input_boxes_ok) (auto elim: boxes_cong)

lemma say_goodbye_boxes_ok: "boxes_ok S \<Longrightarrow> boxes_ok (say_goodbye S)"
  unfolding say_goodbye_def by (rule stop_writing_boxes_ok) (auto elim: boxes_cong)

lemma write_adapter_boxes_ok: "boxes_ok S \<Longrightarrow> boxes_ok (write_adapter d S)"
  by (auto simp: write_adapter_def Let_def intro!: stop_writing_boxes_ok say_goodbye_boxes_ok
      elim: boxes_cong split: option.split)

lemma read_adapter_boxes_ok: "boxes_ok S \<Longrightarrow> boxes_ok (read_adapter env m S)"
  by (auto simp: read_adapter_def elim: boxes_cong split: prod.split sum.split)

lemma client_broken_boxes_ok: "boxes_ok S \<Longrightarrow> boxes_ok (client_broken i S)"
  unfolding client_broken_def by (rule take_input_boxes_ok) (auto intro: on_port_boxes_ok)

lemma write_client_boxes_ok: "boxes_ok S \<Longrightarrow> boxes_ok (write_client i S)"
  by (auto simp: write_client_def intro!: client_broken_boxes_ok on_port_boxes_ok split: option.split)

lemma read_client_boxes_ok: "boxes_ok S \<Longrightarrow> boxes_ok (read_client h q i m S)"
  by (auto simp: read_client_def intro!: on_port_boxes_ok split: option.split sum.split)

lemma client_leaves_boxes_ok: "boxes_ok S \<Longrightarrow> boxes_ok (client_leaves i S)"
  by (auto simp: client_leaves_def intro!: on_port_boxes_ok split: option.split)

lemma new_port_inbox:
  "hm_get (ss_clients s) i = Some c \<Longrightarrow> pt_inbox (new_port role s i) = cs_queue c"
  by (simp add: new_port_def fill_inbox_def)

lemma take_op_boxes_ok:
  assumes "boxes_ok S"
  shows "boxes_ok (take_op S)"
proof (cases "px_ops S")
  case (Cons op ops)
  let ?T = "take_input (Op op) (S\<lparr>px_ops := ops\<rparr>)"
  have S: "boxes_ok (S\<lparr>px_ops := ops\<rparr>)" using assms by (auto elim: boxes_cong)
  show ?thesis
  proof (cases op)
    case (Attach role)
    show ?thesis
    proof (cases "px_loop S")
      case (Running s)
      have "cs_role c = role" if "hm_get (ss_clients (mux_session ?T)) (ss_next_client (mux_session ?T)) = Some c" for c
        using that Running Attach by (auto simp: mux_session_take attached_clients attach_next)
      then have "boxes_ok (?T\<lparr>px_clients := hm_insert (ss_next_client (mux_session ?T))
          (new_port role (mux_session ?T) (ss_next_client (mux_session ?T))) (px_clients ?T)\<rparr>)"
        unfolding boxes_ok_def
        using take_input_boxes [OF S, of "Op op"] by (fastforce simp: new_port_inbox Attach)
      then show ?thesis using assms Cons Attach by (simp add: take_op_def Let_def)
    qed (use assms Cons in \<open>simp add: take_op_def loop_running_def\<close>)
  qed (use assms Cons take_input_boxes_ok [OF S, of "Op op"] in \<open>simp_all add: take_op_def Let_def\<close>)
qed (use assms in \<open>simp add: take_op_def\<close>)

lemma take_value_boxes_ok:
  assumes "boxes_ok S"
  shows "boxes_ok (take_value S)"
proof -
  have "boxes_ok (S\<lparr>px_values := vs\<rparr>)" for vs using assms by (auto elim: boxes_cong)
  then show ?thesis using assms
    by (auto simp: take_value_def intro!: take_input_boxes_ok split: list.split)
qed

lemma system_step_boxes_ok: "boxes_ok S \<Longrightarrow> boxes_ok (system_step k S e)"
  by (cases e) (auto intro: read_client_boxes_ok client_leaves_boxes_ok client_broken_boxes_ok write_client_boxes_ok
      read_adapter_boxes_ok stop_writing_boxes_ok say_goodbye_boxes_ok write_adapter_boxes_ok take_op_boxes_ok
      take_value_boxes_ok take_input_boxes_ok elim: boxes_cong)

interpretation bx: guarded_machine proxy_start "system_step k" "\<lambda>_ _. True" boxes_ok for k
  by unfold_locales (simp_all add: system_step_boxes_ok, simp add: boxes_ok_def proxy_start_def mux_session_def session_new_def)

end
