(* ===== verification/SystemProperties.thy ===== *)
theory SystemProperties imports ProxyTurns begin

text \<open>
  The properties of the proxy as a whole: what the adapter and a client see of it, in every order of the
  turns of its tasks, and a request's way from a client to the adapter and its response's way back.
\<close>

section \<open>Messages under another number\<close>

lemma value_to_message_cong:
  assumes "\<And>k. jget v k = jget w k"
  shows "value_to_message v = value_to_message w"
  unfolding value_to_message_def message_kind_def opt_value_def opt_string_def read_request_seq_def assms ..

lemma jobj_object [simp]: "\<exists>m. jobj kvs = JObject m"
  by (simp add: jobj_def)

lemma request_renumbered:
  assumes "in_i64 n"
  shows "value_to_message (set_seq n (message_to_value (Request q))) = Some (settle (Request (q\<lparr>rq_seq := n\<rparr>)))"
proof -
  have "jget (set_seq n (message_to_value (Request q))) k = jget (message_to_value (Request (q\<lparr>rq_seq := n\<rparr>))) k" for k
    by simp
  from value_to_message_cong [OF this] show ?thesis
    using value_message_roundtrip [of "Request (q\<lparr>rq_seq := n\<rparr>)"] assms by (simp only: message_ok.simps) simp
qed

lemma response_renumbered:
  assumes "in_i64 n" and "in_i64 (rs_seq x)"
  shows "value_to_message (set_request_seq n (message_to_value (Response x))) =
    Some (settle (Response (x\<lparr>rs_request_seq := n\<rparr>)))"
proof -
  have "jget (set_request_seq n (message_to_value (Response x))) k =
      jget (message_to_value (Response (x\<lparr>rs_request_seq := n\<rparr>))) k" for k
    by (auto simp: map_add_def split: option.split)
  from value_to_message_cong [OF this] show ?thesis
    using value_message_roundtrip [of "Response (x\<lparr>rs_request_seq := n\<rparr>)"] assms by (simp only: message_ok.simps) simp
qed

lemma response_value_fields:
  "message_kind (message_to_value (Response x)) = KResponse"
  "in_i64 (rs_request_seq x) \<Longrightarrow> request_seq (message_to_value (Response x)) = Some (rs_request_seq x)"
  by (simp_all add: message_kind_def request_seq_def map_add_def)

lemma request_value_fields:
  "message_kind (message_to_value (Request q)) = KRequest"
  "in_i64 (rq_seq q) \<Longrightarrow> seq (message_to_value (Request q)) = Some (rq_seq q)"
  "command (message_to_value (Request q)) = Some (rq_command q)"
  by (simp_all add: message_kind_def seq_def command_def)

lemma augment_keeps_numbers:
  "\<exists>y. augment_initialize_response (Response x) = Response y \<and> rs_seq y = rs_seq x \<and> rs_request_seq y = rs_request_seq x \<and>
     (\<forall>n. augment_initialize_response (Response (x\<lparr>rs_request_seq := n\<rparr>)) = Response (y\<lparr>rs_request_seq := n\<rparr>))"
  by (cases x) simp

text \<open>What the bridge makes of a request on its way to the adapter, and of a message on its way back.\<close>

definition with_defaults :: "json option \<Rightarrow> message \<Rightarrow> message" where
  "with_defaults d m = (case d of Some v \<Rightarrow> merge_debug_request_arguments v m | None \<Rightarrow> m)"

definition as_seen :: "bridge_env \<Rightarrow> message \<Rightarrow> message" where
  "as_seen env m = (if be_plugin env \<noteq> None then augment_initialize_response m else m)"

lemma as_seen_keeps_numbers:
  "\<exists>y. as_seen env (Response x) = Response y \<and> rs_seq y = rs_seq x \<and> rs_request_seq y = rs_request_seq x \<and>
     (\<forall>n. as_seen env (Response (x\<lparr>rs_request_seq := n\<rparr>)) = Response (y\<lparr>rs_request_seq := n\<rparr>))"
proof (cases "be_plugin env")
  case None
  then show ?thesis by (intro exI [of _ x]) (simp add: as_seen_def)
next
  case (Some p)
  then show ?thesis using augment_keeps_numbers [of x] by (simp only: as_seen_def) simp
qed

section \<open>Requests from the adapter's numbers\<close>

lemma map_filter_append: "List.map_filter f (xs @ ys) = List.map_filter f xs @ List.map_filter f ys"
  by (simp add: List.map_filter_def)

lemma map_filter_Cons':
  "List.map_filter f (x # xs) = (case f x of Some y \<Rightarrow> y # List.map_filter f xs | None \<Rightarrow> List.map_filter f xs)"
  by (simp add: List.map_filter_def split: option.split)

lemma map_filter_mem: "u \<in> set us \<Longrightarrow> f u = Some y \<Longrightarrow> y \<in> set (List.map_filter f us)"
  by (force simp: List.map_filter_def)

lemma forwarded_requests:
  assumes "\<forall>u \<in> set us. message_kind u = KRequest" and "sorted_wrt (<) (List.map_filter seq us)"
  shows "\<exists>rs. List.map_filter (bridge_upstream_value d) us = map Request rs \<and> sorted_wrt (<) (map rq_seq rs) \<and>
    (\<forall>r \<in> set rs. \<exists>u \<in> set us. seq u = Some (rq_seq r) \<and> command u = Some (rq_command r))"
  using assms
proof (induction us)
  case Nil
  then show ?case by (intro exI [of _ "[]"]) (simp add: List.map_filter_def)
next
  case (Cons u us)
  then have "sorted_wrt (<) (List.map_filter seq us)" by (simp add: map_filter_Cons' split: option.splits)
  then obtain rs where rs: "List.map_filter (bridge_upstream_value d) us = map Request rs" "sorted_wrt (<) (map rq_seq rs)"
      "\<forall>r \<in> set rs. \<exists>u \<in> set us. seq u = Some (rq_seq r) \<and> command u = Some (rq_command r)"
    using Cons by auto
  show ?case
  proof (cases "bridge_upstream_value d u")
    case None
    then show ?thesis using rs by (intro exI [of _ rs]) (auto simp: map_filter_Cons')
  next
    case (Some m)
    obtain r where r: "m = Request r" "seq u = Some (rq_seq r)" "command u = Some (rq_command r)"
      using bridge_upstream_request [OF _ Some] Cons.prems(1) by auto
    have "\<forall>x \<in> set rs. rq_seq r < rq_seq x"
      using Cons.prems(2) r(2) rs(3) map_filter_mem [of _ us seq] by (fastforce simp: map_filter_Cons')
    then show ?thesis using rs r Some by (intro exI [of _ "r # rs"]) (auto simp: map_filter_Cons')
  qed
qed

section \<open>A concrete run\<close>

definition demo_proxy :: proxy_config where
  "demo_proxy =
     \<lparr>pc_host = \<lparr>h_env = (\<lambda>_. None), h_canonical = (\<lambda>_. None), h_is_file = (\<lambda>_. False), h_is_dir = (\<lambda>_. False),
                 h_read = (\<lambda>_. None), h_read_dir = (\<lambda>_. None)\<rparr>,
      pc_env = \<lparr>be_children = None, be_plugin = None, be_pointer = (\<lambda>_ _. None), be_print = (\<lambda>_. []), be_quote = (\<lambda>s. s),
                be_temp_dir = ''/tmp'', be_spawn = (\<lambda>_. Inl []), be_run = (\<lambda>_. Inl [])\<rparr>,
      pc_attach_defaults = None\<rparr>"

definition threads_request :: request where
  "threads_request = \<lparr>rq_seq = 7, rq_command = ''threads'', rq_arguments = None\<rparr>"

definition threads_response :: response where
  "threads_response = \<lparr>rs_seq = 3, rs_request_seq = 1, rs_success = True, rs_command = Some ''threads'',
     rs_message = None, rs_body = None\<rparr>"

definition terminal_request :: request where
  "terminal_request = \<lparr>rq_seq = 4, rq_command = ''runInTerminal'', rq_arguments = None\<rparr>"

text \<open>A control client asks for the threads and is answered, the adapter asks for a terminal, the bridge is shut down.\<close>

definition demo_turns :: "system_event list" where
  "demo_turns =
     [Connects Control, TakeOp, ClientSays 1 (Request threads_request), TakeOp, WriteAdapter,
      AdapterSays (Response threads_response) (\<lambda>_. Inl []) (\<lambda>_. Inl []), TakeValue, WriteClient 1,
      AdapterSays (Request terminal_request) (\<lambda>_. Inl []) (\<lambda>_. Inl []), Shutdown]"

lemma demo_turns_room: "ok_run (system_step demo_proxy) system_room proxy_start demo_turns"
  by code_simp

lemma demo_client_there: "hm_get (px_clients (run_proxy demo_proxy demo_turns)) 1 \<noteq> None"
  by code_simp

text \<open>The disconnect of the bridge has the number 1, which the first request of the clients had.\<close>

lemma goodbye_reuses_number:
  "List.map_filter (\<lambda>m. case m of Request r \<Rightarrow> Some (rq_seq r, rq_command r) | _ \<Rightarrow> None)
     (px_wire (run_proxy demo_proxy demo_turns)) = [(1, ''threads''), (1, ''disconnect'')]"
  by code_simp

definition demo_control :: session where
  "demo_control = attach Control session_new"

definition demo_asked :: session where
  "demo_asked = fst (handle_client_message 1 (message_to_value (Request threads_request)) demo_control)"

lemma demo_control_facts:
  "session_path session_new [Op (Attach Control)] demo_control" "ss_upstream_open demo_control"
  "hm_get (ss_clients demo_control) 1 = Some \<lparr>cs_role = Control, cs_queue = [], cs_open = True\<rparr>"
  "hm_get (ss_clients demo_asked) 1 = Some \<lparr>cs_role = Control, cs_queue = [], cs_open = True\<rparr>"
  "snd (handle_client_message 1 (message_to_value (Request threads_request)) demo_control) = None"
  "ss_backend_seq demo_control = 0"
  by (simp add: demo_control_def, code_simp+)

lemma demo_control_asked:
  "session_step demo_control (Op (ClientSend 1 (message_to_value (Request threads_request)))) = Running demo_asked"
  using demo_control_facts(5) by (simp add: demo_asked_def prod_eq_iff)

section \<open>Properties\<close>





text \<open>C3: A request that a control client or an agent writes to its connection reaches the adapter's
  connection under the next number, as it was but for the target's defaults, and whatever happens
  meanwhile, the adapter's response under that number puts a message on the channel of that client
  which is written to it as the response the adapter sent, with the number the client had used.\<close>

theorem proxy_request_roundtrip:
  assumes hist: "session_path session_new hist s"
    and room: "int (length hist) + int (length between) + 1 < i64_max"
    and up: "ss_upstream_open s"
    and sender: "hm_get (ss_clients s) i = Some c" "cs_role c \<noteq> Editor"
    and said: "bridge_client_message h plugin (Request q) = Inr m" "in_i64 (rq_seq q)"
      "\<not> (cs_role c = Control \<and> rq_command q = snapshot_command)"
    and sent: "session_step s (Op (ClientSend i m)) = Running s1"
    and path: "session_path s1 between s2"
    and unanswered: "\<forall>x \<in> set between. \<not> answers (ss_backend_seq s + 1) x"
    and there: "hm_get (ss_clients s2) i = Some d" "cs_open d"
    and answer: "rs_request_seq x = ss_backend_seq s + 1" "in_i64 (rs_seq x)"
  shows "\<exists>u v. ss_upstream s1 = ss_upstream s @ [u] \<and>
      bridge_upstream_value defaults u =
        Some (with_defaults defaults (settle (Request (q\<lparr>rq_seq := ss_backend_seq s + 1\<rparr>)))) \<and>
      bridge_backend_message env (Response x) n = (Inr v, n) \<and>
      (\<exists>s3 a. session_step s2 (FromUpstream v) = Running s3 \<and>
         hm_get (ss_clients s3) i = Some (push_queue a d) \<and>
         bridge_egress_value a = Some (settle (as_seen env (Response (x\<lparr>rs_request_seq := rq_seq q\<rparr>)))))"
proof -
  define b where "b = ss_backend_seq s + 1"
  have s: "session_ok s" "ss_backend_seq s \<le> int (length hist)"
    using path_keeps [OF hist] room by simp_all
  then have b: "in_i64 b" using session_okD(2) [OF s(1)] room by (simp add: b_def in_i64_def i64_max_def)
  have m: "m = message_to_value (Request q)" using bridge_client_value(2) [OF said(1)] .
  obtain y where y: "as_seen env (Response x) = Response y" "rs_seq y = rs_seq x" "rs_request_seq y = b"
      "as_seen env (Response (x\<lparr>rs_request_seq := rq_seq q\<rparr>)) = Response (y\<lparr>rs_request_seq := rq_seq q\<rparr>)"
    using as_seen_keeps_numbers [of env x] answer(1) unfolding b_def by metis
  define v where "v = message_to_value (Response y)"
  have inbound: "bridge_backend_message env (Response x) n = (Inr v, n)"
    using y(1) by (simp add: bridge_backend_forward as_seen_def v_def)
  have v: "message_kind v = KResponse" "request_seq v = Some b"
    using response_value_fields [of y] y(3) b by (simp_all add: v_def)
  have req: "message_kind m = KRequest" "seq m = Some (rq_seq q)"
      "\<not> (cs_role c = Control \<and> command m = Some snapshot_command)"
    using request_value_fields [of q] said(2,3) by (simp_all add: m)
  note trip = client_trip [OF hist room up sender req sent path unanswered there, of v]
  obtain s3 where s3: "session_step s2 (FromUpstream v) = Running s3"
      "ss_clients s3 = hm_insert i (push_queue (set_request_seq (rq_seq q) v) d) (ss_clients s2)"
    and up1: "ss_upstream s1 = ss_upstream s @ [set_seq b m]"
    using trip v by (auto simp: b_def)
  have "bridge_egress_value (set_request_seq (rq_seq q) v) =
      Some (settle (as_seen env (Response (x\<lparr>rs_request_seq := rq_seq q\<rparr>))))"
    using response_renumbered [of "rq_seq q" y] said(2) answer(2) y by (simp add: bridge_egress_value_def v_def)
  moreover have "bridge_upstream_value defaults (set_seq b m) =
      Some (with_defaults defaults (settle (Request (q\<lparr>rq_seq := b\<rparr>))))"
    using request_renumbered [OF b, of q] by (simp only: bridge_upstream_value_def with_defaults_def m option.map)
  ultimately show ?thesis
    using s3 up1 inbound unfolding b_def [symmetric]
    by (intro exI [of _ "set_seq b m"] exI [of _ v] conjI exI [of _ s3] exI [of _ "set_request_seq (rq_seq q) v"]) simp_all
qed

theorem proxy_request_roundtrip_witness:
  "\<exists>v s3 a. session_step demo_asked (FromUpstream v) = Running s3 \<and>
     hm_get (ss_clients s3) 1 = Some (push_queue a \<lparr>cs_role = Control, cs_queue = [], cs_open = True\<rparr>) \<and>
     bridge_egress_value a = Some (settle (as_seen (pc_env demo_proxy) (Response (threads_response\<lparr>rs_request_seq := 7\<rparr>))))"
proof -
  have said: "bridge_client_message h None (Request threads_request) = Inr (message_to_value (Request threads_request))" for h
    by (simp add: bridge_client_message_def)
  have numbers: "in_i64 (rq_seq threads_request)" "rs_request_seq threads_response = ss_backend_seq demo_control + 1"
      "in_i64 (rs_seq threads_response)" "rq_command threads_request \<noteq> snapshot_command"
      "rq_seq threads_request = 7"
    by (simp_all add: threads_request_def threads_response_def demo_control_facts snapshot_command_def)
  note c = demo_control_facts
  obtain u v s3 a where "session_step demo_asked (FromUpstream v) = Running s3"
      "hm_get (ss_clients s3) 1 = Some (push_queue a \<lparr>cs_role = Control, cs_queue = [], cs_open = True\<rparr>)"
      "bridge_egress_value a = Some (settle (as_seen (pc_env demo_proxy) (Response (threads_response\<lparr>rs_request_seq := rq_seq threads_request\<rparr>))))"
    using proxy_request_roundtrip [OF c(1) _ c(2,3) _ said numbers(1) _ demo_control_asked _ _ c(4) _ numbers(2,3),
        of "[]" None "pc_env demo_proxy" 0] numbers(4)
    by (auto simp: i64_max_def)
  then show ?thesis using numbers(5) by metis
qed

end
