(* ===== verification/ProxyBackend.thy ===== *)
theory ProxyBackend imports ProxyMain DapTransport begin

text \<open>
  How a backend is started (\<open>dap-core/src/proxy.rs\<close>, \<open>builtin_adapter.rs\<close>), the proxy without a
  multiplexer, the frontend that starts \<open>dap-proxy\<close> itself (\<open>client.rs\<close>), the processes of the child
  sessions (\<open>child_supervisor.rs\<close>), the watch on the parent process (\<open>parent_watch.rs\<close>) and the choice
  of the mode (\<open>dap-proxy/src/main.rs\<close>). Starting a process and opening a connection are parameters:
  the definitions say which process or connection, with what.
\<close>

section \<open>Backends\<close>

datatype backend_start =
    StartStdio string "string list" bool
  | ConnectTcp string nat
  | StartGdbRemote

definition spawn_builtin :: "adapter_spawn \<Rightarrow> string + backend_start" where
  "spawn_builtin a =
     (if as_command a = ''gdb-remote'' then Inr StartGdbRemote
      else Inl (''unknown builtin adapter `'' @ as_command a @ ''`''))"

definition spawn_with_options :: "bool \<Rightarrow> adapter_spawn \<Rightarrow> string + backend_start" where
  "spawn_with_options new_session a =
     (case as_transport a of
        Stdio \<Rightarrow> Inr (StartStdio (as_command a) (as_args a) new_session)
      | Tcp \<Rightarrow>
          (case rsplit_once CHR '':'' (as_command a) of
             None \<Rightarrow> Inl ''invalid tcp adapter command host:port''
           | Some (host, port) \<Rightarrow>
               (case parse_u16 port of
                  Some p \<Rightarrow> Inr (ConnectTcp host p)
                | None \<Rightarrow> Inl ''invalid tcp adapter command host:port''))
      | Builtin \<Rightarrow> spawn_builtin a)"

definition backend_spawn :: "adapter_spawn \<Rightarrow> string + backend_start" where
  "backend_spawn a = spawn_with_options False a"

section \<open>The transparent proxy\<close>

text \<open>One direction: what is written for the bytes that are read, and the error that ended it.\<close>

definition forward_shared ::
    "(string \<Rightarrow> message option) \<Rightarrow> (message \<Rightarrow> string) \<Rightarrow> string \<Rightarrow> string \<times> protocol_error option" where
  "forward_shared decode encode input =
     (case recv_all decode input of (ms, e) \<Rightarrow> (concat (map (write_message encode) ms), e))"

text \<open>Both directions: the bytes for the client and for the backend; the client's error comes first.\<close>

definition run_transparent_proxy ::
    "(string \<Rightarrow> message option) \<Rightarrow> (message \<Rightarrow> string) \<Rightarrow> string \<Rightarrow> string
       \<Rightarrow> string \<times> string \<times> (protocol_error + unit)" where
  "run_transparent_proxy decode encode from_client from_backend =
     (let (to_backend, e) = forward_shared decode encode from_client;
          (to_client, e') = forward_shared decode encode from_backend
      in (to_client, to_backend, case or_else e e' of Some x \<Rightarrow> Inl x | None \<Rightarrow> Inr ()))"

lemma forward_shared_written:
  assumes "\<forall>m \<in> set ms. decode (encode m) = Some (norm m) \<and> length (encode m) \<le> 2 ^ 63 - 1"
  shows "forward_shared decode encode (concat (map (write_message encode) ms)) =
    (concat (map (write_message encode) (map norm ms)), None)"
  using recv_all_written [OF assms] by (simp add: forward_shared_def)

section \<open>A frontend's proxy\<close>

record proxy_stdio_options =
  po_program :: "string option"
  po_adapter :: "string option"
  po_adapter_cmd :: "string list option"
  po_no_control :: bool
  po_plugins_dir :: "string option"
  po_proxy_bin :: "string option"
  po_extra_args :: "string list"

definition proxy_stdio_default :: proxy_stdio_options where
  "proxy_stdio_default =
     \<lparr>po_program = None, po_adapter = None, po_adapter_cmd = None, po_no_control = True,
      po_plugins_dir = None, po_proxy_bin = None, po_extra_args = []\<rparr>"

definition proxy_stdio_program :: "string \<Rightarrow> proxy_stdio_options" where
  "proxy_stdio_program program = proxy_stdio_default\<lparr>po_program := Some program\<rparr>"

definition with_adapter :: "string \<Rightarrow> proxy_stdio_options \<Rightarrow> proxy_stdio_options" where
  "with_adapter adapter o1 = o1\<lparr>po_adapter := Some adapter\<rparr>"

definition with_adapter_cmd :: "string list \<Rightarrow> proxy_stdio_options \<Rightarrow> proxy_stdio_options" where
  "with_adapter_cmd cmd o1 = o1\<lparr>po_adapter_cmd := Some cmd\<rparr>"

definition with_control_listener :: "proxy_stdio_options \<Rightarrow> proxy_stdio_options" where
  "with_control_listener o1 = o1\<lparr>po_no_control := False\<rparr>"

definition which_on_path :: "host \<Rightarrow> string \<Rightarrow> string option" where
  "which_on_path h name =
     (case h_env h ''PATH'' of
        None \<Rightarrow> None
      | Some path_var \<Rightarrow> find (h_is_file h) (map (\<lambda>dir. path_join dir name) (split_on CHR '':'' path_var)))"

definition default_proxy_bin :: "host \<Rightarrow> string option" where
  "default_proxy_bin h =
     (case h_env h ''CARGO_BIN_EXE_dap-proxy'' of Some p \<Rightarrow> Some p | None \<Rightarrow> which_on_path h ''dap-proxy'')"

text \<open>The executable and its arguments.\<close>

definition spawn_proxy_stdio :: "host \<Rightarrow> proxy_stdio_options \<Rightarrow> string + string \<times> string list" where
  "spawn_proxy_stdio h o1 =
     (case or_else (po_proxy_bin o1) (default_proxy_bin h) of
        None \<Rightarrow> Inl ''dap-proxy executable not found; set proxy_bin or install dap-proxy on PATH''
      | Some bin \<Rightarrow> Inr (bin,
          [''--stdio''] @ (if po_no_control o1 then [''--no-control''] else [])
          @ opt_args ''--program'' (po_program o1) @ opt_args ''--adapter'' (po_adapter o1)
          @ (case po_adapter_cmd o1 of Some cmd \<Rightarrow> ''--adapter-cmd'' # cmd | None \<Rightarrow> [])
          @ opt_args ''--plugins-dir'' (po_plugins_dir o1) @ po_extra_args o1))"

section \<open>Processes of child sessions\<close>

text \<open>
  The supervisor keeps the processes whose ready line came; a process that was started and failed to
  report is not among them. \<open>start\<close> is a process id or the error of starting it, \<open>lines\<close> what the
  process writes to its standard error.
\<close>

definition supervised_spawn ::
    "(string \<Rightarrow> json option) \<Rightarrow> (json \<Rightarrow> string) \<Rightarrow> (string list \<Rightarrow> string + nat) \<Rightarrow> (nat \<Rightarrow> string option list)
       \<Rightarrow> supervisor \<Rightarrow> child_spawn_plan \<Rightarrow> nat list \<Rightarrow> (string + child_spawn_result) \<times> nat list" where
  "supervised_spawn parse print start lines sv p children =
     (case start (child_command_line print sv p) of
        Inl e \<Rightarrow> (Inl (''spawn child dap-proxy: '' @ e), children)
      | Inr pid \<Rightarrow>
          (case read_child_ready parse (lines pid) of
             Inl e \<Rightarrow> (Inl e, children)
           | Inr ready \<Rightarrow> (Inr ready, children @ [pid])))"

text \<open>The processes that are killed, and those that are left.\<close>

definition teardown :: "nat list \<Rightarrow> nat list \<times> nat list" where
  "teardown children = (children, [])"

section \<open>The parent process\<close>

definition parent_went_away :: "(nat \<Rightarrow> bool) \<Rightarrow> nat \<Rightarrow> nat \<Rightarrow> bool" where
  "parent_went_away alive initial_ppid ppid =
     (if initial_ppid = 0 then False
      else if ppid = 1 \<and> initial_ppid \<noteq> 1 then True
      else if ppid \<noteq> initial_ppid then True
      else \<not> alive initial_ppid)"

text \<open>The polls in order; the index of the one that notifies. Without a parent there is no watch.\<close>

fun watch_parent :: "nat \<Rightarrow> ((nat \<Rightarrow> bool) \<times> nat) list \<Rightarrow> nat option" where
  "watch_parent initial_ppid [] = None"
| "watch_parent initial_ppid ((alive, ppid) # polls) =
     (if initial_ppid = 0 then None
      else if parent_went_away alive initial_ppid ppid then Some 0
      else map_option Suc (watch_parent initial_ppid polls))"

lemma watch_parent_first:
  "watch_parent n polls = Some i \<Longrightarrow>
     n \<noteq> 0 \<and> i < length polls \<and> parent_went_away (fst (polls ! i)) n (snd (polls ! i)) \<and>
     (\<forall>j < i. snd (polls ! j) = n \<and> fst (polls ! j) n)"
proof (induction polls arbitrary: i)
  case (Cons p polls)
  obtain alive ppid where p: "p = (alive, ppid)" by (cases p)
  show ?case
  proof (cases "parent_went_away alive n ppid")
    case True
    then show ?thesis using Cons.prems by (auto simp: p split: if_splits)
  next
    case False
    then obtain k where k: "i = Suc k" "watch_parent n polls = Some k" "n \<noteq> 0"
      using Cons.prems by (auto simp: p split: if_splits)
    have "ppid = n \<and> alive n" using False k(3) by (auto simp: parent_went_away_def split: if_splits)
    then show ?thesis using Cons.IH [OF k(2)] k(1) by (auto simp: p nth_Cons split: nat.splits)
  qed
qed simp

section \<open>The mode\<close>

datatype run_mode = HeadlessMode | EditorMode

definition proxy_mode :: "cli \<Rightarrow> string + run_mode" where
  "proxy_mode c =
     (if cli_headless c then Inr HeadlessMode
      else if \<not> cli_stdio c then Inl ''editor mode requires --stdio''
      else Inr EditorMode)"

section \<open>The endpoint of a child\<close>

lemma spawn_tcp_endpoint:
  "n < 2 ^ 16 \<Longrightarrow> backend_spawn \<lparr>as_transport = Tcp, as_command = h @ '':'' @ show_nat n, as_args = []\<rparr> = Inr (ConnectTcp h n)"
  using rsplit_once_append [of "CHR '':''" "show_nat n" h] parse_radix_show_nat [of n "2 ^ 16 - 1"]
  by (simp add: backend_spawn_def spawn_with_options_def parse_u16_def show_nat_free)

lemma child_endpoint_argument:
  assumes "cp_backend p = PlanTcp h n"
  shows "\<exists>us vs. child_command_line print sv p = us @ [''--adapter-tcp'', h @ '':'' @ show_nat n] @ vs"
proof -
  have "child_command_line print sv p =
    ([''--headless'', ''--control-port'', ''0'', ''--parent-id'', sv_parent_instance_id sv,
      ''--child-profile'', sv_child_profile sv]
     @ opt_args ''--child-profile-file'' (sv_child_profile_file sv)
     @ (if cp_child_depth p > 0 then [''--child-sessions''] else [])
     @ [''--child-depth'', show_nat (cp_child_depth p), ''--child-max-children'', show_nat (sv_child_max_children sv),
        ''--debug-request'', cp_debug_request p, ''--debug-args'', print (cp_debug_arguments p)])
    @ [''--adapter-tcp'', h @ '':'' @ show_nat n] @ opt_args ''--scope'' (sv_scope sv)"
    unfolding child_command_line_def assms append_assoc child_backend_plan.case ..
  then show ?thesis by blast
qed

text \<open>C28: The endpoint a child session is planned with is on the child's command line, and a proxy
  given that option connects to exactly that host and port, also when the host has colons in it.\<close>

theorem child_endpoint_roundtrip:
  assumes "cp_backend p = PlanTcp h n" and "n < 2 ^ 16"
  shows "\<exists>us vs endpoint. child_command_line print sv p = us @ [''--adapter-tcp'', endpoint] @ vs \<and>
    (\<forall>c en l. cli_adapter_tcp c = Some endpoint \<longrightarrow>
       (\<exists>a. resolve_backend_spawn c en l = Inr a \<and> backend_spawn a = Inr (ConnectTcp h n)))"
  using child_endpoint_argument [OF assms(1), of print sv] spawn_tcp_endpoint [OF assms(2), of h]
  by (auto simp: resolve_backend_spawn_def)

theorem child_endpoint_roundtrip_witness:
  "\<exists>us vs endpoint. child_command_line (\<lambda>_. ''{}'')
       \<lparr>sv_scope = None, sv_parent_instance_id = ''p'', sv_child_profile = ''debugpy'', sv_child_profile_file = None,
        sv_child_max_children = 16\<rparr>
       \<lparr>cp_backend = PlanTcp ''::1'' 5678, cp_debug_request = ''attach'', cp_debug_arguments = JNull, cp_child_depth = 0\<rparr>
     = us @ [''--adapter-tcp'', endpoint] @ vs \<and>
    (\<forall>c en l. cli_adapter_tcp c = Some endpoint \<longrightarrow>
       (\<exists>a. resolve_backend_spawn c en l = Inr a \<and> backend_spawn a = Inr (ConnectTcp ''::1'' 5678)))"
  by (rule child_endpoint_roundtrip) simp_all

end
