(* ===== verification/MuxTyped.thy ===== *)
theory MuxTyped imports MuxGuarantees begin

text \<open>
  Typing of the multiplexer. Its queues carry JSON trees, and the bridges read each of them back as a
  message. The typing says that every tree the loop holds, sends or keeps for later is a message, so
  that reading it back cannot fail; every input that is itself a message keeps the typing.
\<close>

section \<open>Values that are messages\<close>

definition dap_value :: "json \<Rightarrow> bool" where
  "dap_value v \<longleftrightarrow> value_to_message v \<noteq> None"

lemma dap_value_object: "dap_value v \<Longrightarrow> \<exists>m. v = JObject m"
  using message_kind_object [of v] by (auto simp: dap_value_def value_to_message_def split: message_kind.splits)

lemma dap_value_message [simp]: "message_ok m \<Longrightarrow> dap_value (message_to_value m)"
  by (simp add: dap_value_def value_message_roundtrip)

lemma dap_value_request:
  "message_kind v = KRequest \<Longrightarrow> dap_value v \<longleftrightarrow> get_i64 v ''seq'' \<noteq> None \<and> get_str v ''command'' \<noteq> None"
  by (auto simp: dap_value_def value_to_message_def split: option.splits)

lemma dap_value_response:
  "message_kind v = KResponse \<Longrightarrow> dap_value v \<longleftrightarrow>
     get_i64 v ''seq'' \<noteq> None \<and> read_request_seq v \<noteq> None \<and> get_bool v ''success'' \<noteq> None \<and>
     opt_string v ''command'' \<noteq> None \<and> opt_string v ''message'' \<noteq> None"
  by (auto simp: dap_value_def value_to_message_def split: option.splits)

lemma dap_value_event:
  "message_kind v = KEvent \<Longrightarrow> dap_value v \<longleftrightarrow> get_i64 v ''seq'' \<noteq> None \<and> get_str v ''event'' \<noteq> None"
  by (auto simp: dap_value_def value_to_message_def split: option.splits)

lemma dap_value_unknown: "message_kind v = KUnknown \<Longrightarrow> \<not> dap_value v"
  by (simp add: dap_value_def value_to_message_def)

lemmas dap_value_kinds = dap_value_request dap_value_response dap_value_event dap_value_unknown

lemma get_i64_range: "get_i64 v k = Some n \<Longrightarrow> in_i64 n"
  by (auto simp: as_i64_Some split: bind_splits)

lemma dap_value_seq: "dap_value v \<Longrightarrow> \<exists>n. seq v = Some n \<and> in_i64 n"
  by (cases "message_kind v") (auto simp: dap_value_kinds seq_def get_i64_range)

lemma dap_value_request_seq: "dap_value v \<Longrightarrow> message_kind v = KResponse \<Longrightarrow> request_seq v \<noteq> None"
  by (auto simp: dap_value_kinds request_seq_def read_request_seq_def or_else_def split: option.splits)

text \<open>The rewrites of the loop keep a message a message.\<close>

lemma dap_value_set_seq [simp]:
  assumes "dap_value v" and "in_i64 n"
  shows "dap_value (set_seq n v)"
  using assms dap_value_object [OF assms(1)]
  by (cases "message_kind v") (auto simp: dap_value_kinds read_request_seq_def opt_string_def)

lemma dap_value_set_request_seq [simp]:
  assumes "dap_value v" and "in_i64 n"
  shows "dap_value (set_request_seq n v)"
  using assms dap_value_object [OF assms(1)]
  by (cases "message_kind v") (auto simp: dap_value_kinds read_request_seq_def opt_string_def)

lemma dap_value_set_cancel [simp]:
  assumes "dap_value v"
  shows "dap_value (fst (set_cancel_request_id n v))"
  using assms
  by (cases "message_kind v") (auto simp: dap_value_kinds read_request_seq_def opt_string_def set_cancel_jget)

lemma dap_value_translate_cancel [simp]: "dap_value v \<Longrightarrow> dap_value (fst (translate_cancel v r))"
  by (simp add: translate_cancel_def split: option.split)

lemma dap_value_response_json [simp]: "in_i64 n \<Longrightarrow> in_i64 k \<Longrightarrow> dap_value (response_json n k ok body)"
  by (simp add: dap_value_def value_to_message_def message_kind_def response_json_def read_request_seq_def opt_string_def)

lemma dap_value_replayed_initialize [simp]: "dap_value (replayed_initialize body)"
  by (simp add: dap_value_def value_to_message_def message_kind_def replayed_initialize_def read_request_seq_def opt_string_def)

section \<open>The typing of a session\<close>

definition cache_typed :: "cache \<Rightarrow> bool" where
  "cache_typed c \<longleftrightarrow> pred_option dap_value (ca_initialized c) \<and> pred_option dap_value (ca_last_stopped c)"

definition numbers_typed :: "session \<Rightarrow> bool" where
  "numbers_typed s \<longleftrightarrow> (\<forall>b i n. hm_get (ss_pending s) b = Some (i, n) \<longrightarrow> in_i64 n) \<and>
     (\<forall>b c. lookup_client (ss_remapper s) b = Some c \<longrightarrow> in_i64 (client_raw c))"

definition queues_typed :: "session \<Rightarrow> bool" where
  "queues_typed s \<longleftrightarrow> (\<forall>i c. hm_get (ss_clients s) i = Some c \<longrightarrow> list_all dap_value (cs_queue c))"

definition session_typed :: "session \<Rightarrow> bool" where
  "session_typed s \<longleftrightarrow> queues_typed s \<and> list_all dap_value (ss_published s) \<and> list_all dap_value (ss_upstream s) \<and>
     cache_typed (ss_cache s) \<and> numbers_typed s"

fun input_typed :: "session_input \<Rightarrow> bool" where
  "input_typed (FromUpstream v) = dap_value v"
| "input_typed (Op (ClientSend i v)) = dap_value v"
| "input_typed _ = True"

lemma session_typed_new [simp]: "session_typed session_new"
  by (simp add: session_typed_def queues_typed_def cache_typed_def numbers_typed_def session_new_def cache_new_def
      remapper_new_def lookup_client_def)

lemma display_in_i64 [simp]: "in_i64 (next_display_seq s)" and backend_in_i64 [simp]: "in_i64 (next_backend_seq s)"
  by (simp_all add: next_display_seq_def next_backend_seq_def wrap_i64_range)

section \<open>Every input keeps the typing\<close>

lemma queues_typedD: "queues_typed s \<Longrightarrow> hm_get (ss_clients s) i = Some c \<Longrightarrow> list_all dap_value (cs_queue c)"
  by (simp add: queues_typed_def)

lemma queues_typed_deliver:
  "queues_typed s \<Longrightarrow> dap_value m \<Longrightarrow> queues_typed (fst (deliver_to_client i m s))"
  by (auto simp: queues_typed_def deliver_to_client_def push_queue_def split: option.split if_splits)

lemma queues_typed_deliver_each:
  "queues_typed s \<Longrightarrow> dap_value m \<Longrightarrow> queues_typed (fst (deliver_each cs P m s))"
proof (induction cs arbitrary: s)
  case (Cons p cs)
  obtain i c where p: "p = (i, c)" by (cases p)
  obtain s' e where d: "deliver_to_client i m s = (s', e)" by fastforce
  have "queues_typed s'" using queues_typed_deliver [OF Cons.prems, of i] by (simp add: d)
  then show ?case using Cons by (cases e) (simp_all add: p d)
qed simp

lemma queues_typed_replay:
  "queues_typed s \<Longrightarrow> list_all dap_value ms \<Longrightarrow> queues_typed (deliver_replay i ms s)"
  by (induction ms arbitrary: s) (auto intro: queues_typed_deliver)

lemma queues_typed_cong: "ss_clients t = ss_clients s \<Longrightarrow> queues_typed t = queues_typed s"
  by (simp add: queues_typed_def)

lemma numbers_typed_cong:
  "ss_pending t = ss_pending s \<Longrightarrow> ss_remapper t = ss_remapper s \<Longrightarrow> numbers_typed t = numbers_typed s"
  by (simp add: numbers_typed_def)

text \<open>A delivery changes the queues only, so its typing is that of the queues.\<close>

lemma session_typed_deliver:
  "session_typed s \<Longrightarrow> dap_value m \<Longrightarrow> session_typed (fst (deliver_to_client i m s))"
  using queues_typed_deliver [of s m i] numbers_typed_cong [of "fst (deliver_to_client i m s)" s]
  by (simp add: session_typed_def)

lemma session_typed_deliver_each:
  "session_typed s \<Longrightarrow> dap_value m \<Longrightarrow> session_typed (fst (deliver_each cs P m s))"
  using queues_typed_deliver_each [of s m cs P] numbers_typed_cong [of "fst (deliver_each cs P m s)" s]
  by (simp add: session_typed_def)

lemma session_typed_replay:
  "session_typed s \<Longrightarrow> list_all dap_value ms \<Longrightarrow> session_typed (deliver_replay i ms s)"
  using queues_typed_replay [of s ms i] numbers_typed_cong [of "deliver_replay i ms s" s]
  by (simp add: session_typed_def)

lemma session_typed_publish: "session_typed s \<Longrightarrow> dap_value m \<Longrightarrow> session_typed (publish m s)"
  by (simp add: session_typed_def queues_typed_def numbers_typed_def publish_def)

lemma session_typed_send: "session_typed s \<Longrightarrow> dap_value m \<Longrightarrow> session_typed (fst (send_upstream m s))"
  by (simp add: session_typed_def queues_typed_def numbers_typed_def send_upstream_def)

lemma session_typed_display [simp]: "session_typed (s\<lparr>ss_display_seq := n\<rparr>) = session_typed s"
  by (simp add: session_typed_def queues_typed_def numbers_typed_def)

lemma session_typed_cache:
  "session_typed s \<Longrightarrow> cache_typed c \<Longrightarrow> session_typed (s\<lparr>ss_cache := c\<rparr>)"
  by (simp add: session_typed_def queues_typed_def numbers_typed_def)

lemma cache_typed_observe: "cache_typed c \<Longrightarrow> dap_value m \<Longrightarrow> cache_typed (cache_observe m c)"
  by (simp add: cache_typed_def cache_observe_def)

lemma cache_typed_response [simp]: "cache_typed (cache_observe_response m c) = cache_typed c"
  by (simp add: cache_typed_def cache_observe_response_def cache_initialize_body_def Let_def)

lemma cache_typed_request [simp]: "cache_typed (cache_observe_client_request n m c) = cache_typed c"
  by (simp add: cache_typed_def cache_observe_client_request_def)

lemma replay_typed: "cache_typed c \<Longrightarrow> list_all dap_value (replay c)"
  by (auto simp: cache_typed_def replay_def opt_list_def split: option.split)

lemma session_typed_to_editor:
  "session_typed s \<Longrightarrow> dap_value m \<Longrightarrow> session_typed (fst (deliver_to_editor m s))"
  by (simp add: deliver_to_editor_def deliver_to_role_def session_typed_deliver_each)

lemma session_typed_broadcast:
  "session_typed s \<Longrightarrow> dap_value m \<Longrightarrow> session_typed (fst (broadcast_to_all m s))"
  by (simp add: broadcast_to_all_def Let_def session_typed_deliver_each session_typed_publish)

lemma session_typed_released:
  assumes "session_typed s"
  shows "session_typed (released b s)"
  using assms rm.client_release [of "BackendSeq b" "ss_remapper s"]
  by (auto simp: released_def session_typed_def queues_typed_def numbers_typed_def split: option.split)

lemma owner_typed:
  assumes "session_typed s" and "owner s b = Some r"
  shows "case r of ToEditors n \<Rightarrow> in_i64 n | ToClient i n \<Rightarrow> in_i64 n"
  using assms by (auto simp: owner_def session_typed_def numbers_typed_def split: option.splits)

lemma session_typed_route:
  assumes "session_typed s" and "dap_value m"
  shows "session_typed (fst (route_response b m s))"
proof (cases "owner s b")
  case None
  then show ?thesis using assms by (simp add: route_response_cases)
next
  case (Some r)
  then show ?thesis
    using assms owner_typed [OF assms(1) Some] session_typed_released [OF assms(1), of b]
    by (cases r) (simp_all add: route_response_cases session_typed_to_editor session_typed_deliver)
qed

lemma session_typed_upstream:
  assumes "session_typed s" and "dap_value m"
  shows "session_typed (fst (handle_upstream_message m s))"
proof -
  have p: "session_typed (publish m s)" using assms by (rule session_typed_publish)
  then have c: "cache_typed (ss_cache (publish m s))" by (simp add: session_typed_def)
  show ?thesis
    using session_typed_cache [OF p] cache_typed_observe [OF c assms(2)] c assms(2) p
    by (cases "message_kind m"; cases "request_seq m")
       (simp_all add: handle_upstream_message_def Let_def session_typed_route session_typed_broadcast del: publish_frame)
qed

lemma session_typed_editor_request:
  assumes "session_typed s" and "dap_value m"
  shows "dap_value (fst (forward_editor m s)) \<and> session_typed (snd (forward_editor m s))"
proof -
  obtain n where n: "seq m = Some n" "in_i64 n" using dap_value_seq [OF assms(2)] by blast
  show ?thesis
    using assms n by (simp add: forward_editor_def Let_def session_typed_def queues_typed_def numbers_typed_def rm.client_assoc)
qed

lemma session_typed_other_request:
  assumes "session_typed s" and "dap_value m"
  shows "dap_value (fst (forward_other i m s)) \<and> session_typed (snd (forward_other i m s))"
proof -
  obtain n where n: "seq m = Some n" "in_i64 n" using dap_value_seq [OF assms(2)] by blast
  show ?thesis
    using assms n by (simp add: forward_other_def Let_def session_typed_def queues_typed_def numbers_typed_def unwrap_or_def)
qed

lemma session_typed_snapshot:
  "session_typed s \<Longrightarrow> dap_value m \<Longrightarrow> session_typed (fst (serve_snapshot i m s))"
  using dap_value_seq [of m] by (auto simp: serve_snapshot_def unwrap_or_def intro!: session_typed_deliver)

lemma session_typed_client:
  assumes "session_typed s" and "dap_value m"
  shows "session_typed (fst (handle_client_message i m s))"
proof (cases "hm_get (ss_clients s) i")
  case (Some c)
  then show ?thesis
    using assms session_typed_editor_request [OF assms] session_typed_other_request [OF assms, of i]
      session_typed_snapshot [OF assms]
    by (auto simp: handle_client_message_def case_prod_unfold intro!: session_typed_send)
qed (simp add: handle_client_message_unknown assms)

lemma session_typed_attach:
  assumes "session_typed s"
  shows "session_typed (attach role s)"
proof -
  have "session_typed (s\<lparr>ss_next_client := i, ss_receivers := rs,
      ss_clients := hm_insert i \<lparr>cs_role = role, cs_queue = [], cs_open = True\<rparr> (ss_clients s)\<rparr>)" for i rs
    using assms by (simp add: session_typed_def queues_typed_def numbers_typed_def)
  then show ?thesis
    using replay_typed [of "ss_cache s"] assms session_typed_replay
    by (simp add: attach_def Let_def) (simp add: session_typed_def [of s])
qed

lemma session_typed_detach: "session_typed s \<Longrightarrow> session_typed (detach i s)"
  by (simp add: session_typed_def queues_typed_def numbers_typed_def detach_def)

lemma session_typed_drop: "session_typed s \<Longrightarrow> session_typed (drop_recv i s)"
  by (auto simp: session_typed_def queues_typed_def numbers_typed_def drop_recv_def split: option.split)

section \<open>Errors of a typed session\<close>

text \<open>With typed inputs the only errors of the loop are a client that is gone and an adapter that is gone.\<close>

definition loss :: "mux_error option \<Rightarrow> bool" where
  "loss e \<longleftrightarrow> e = None \<or> e = Some ClientNotFound \<or> e = Some UpstreamNotConnected"

lemma loss_deliver [simp]: "loss (snd (deliver_to_client i m s))"
  by (simp add: deliver_to_client_def loss_def split: option.split)

lemma loss_deliver_each [simp]: "loss (snd (deliver_each cs P m s))"
proof (induction cs arbitrary: s)
  case (Cons p cs)
  obtain i c where p: "p = (i, c)" by (cases p)
  obtain s' e where d: "deliver_to_client i m s = (s', e)" by fastforce
  show ?case using Cons loss_deliver [of i m s] by (cases e) (simp_all add: p d)
qed (simp add: loss_def)

lemma loss_route [simp]: "loss (snd (route_response b m s))"
  by (simp add: route_response_cases deliver_to_editor_def deliver_to_role_def loss_def [of None] split: option.split route.split)

lemma loss_send [simp]: "loss (snd (send_upstream m s))"
  by (simp add: send_upstream_def loss_def)

lemma loss_upstream: "dap_value m \<Longrightarrow> loss (snd (handle_upstream_message m s))"
  using dap_value_request_seq [of m]
  by (auto simp: handle_upstream_message_def Let_def broadcast_to_all_def loss_def [of None] split: message_kind.split option.split)

lemma loss_client: "loss (snd (handle_client_message i m s))"
  by (simp add: handle_client_message_def serve_snapshot_def case_prod_unfold loss_def [of None] loss_def [of "Some ClientNotFound"]
      split: option.split)

fun loop_typed :: "loop_state \<Rightarrow> bool" where
  "loop_typed (Running s) = session_typed s"
| "loop_typed (Ended s e) = (session_typed s \<and> loss e)"

lemma loop_typed_result: "session_typed (fst r) \<Longrightarrow> loss (snd r) \<Longrightarrow> loop_typed (loop_result r)"
  by (cases r) (auto simp: loop_result_def split: option.split)

lemma loop_step_typed:
  assumes "loop_typed l" and "input_typed i"
  shows "loop_typed (loop_step l i)"
proof (cases l)
  case (Running s)
  then have s: "session_typed s" using assms(1) by simp
  show ?thesis
  proof (cases i)
    case (FromUpstream m)
    then show ?thesis using assms(2) s Running by (simp add: loop_typed_result session_typed_upstream loss_upstream)
  next
    case (Op op)
    then show ?thesis using assms(2) s Running
      by (cases op) (simp_all add: loop_typed_result session_typed_client loss_client session_typed_attach
          session_typed_detach loss_def [of None])
  next
    case UpstreamDropped
    then show ?thesis using s Running by (simp add: session_typed_def queues_typed_def numbers_typed_def)
  next
    case (EventsDropped i)
    then show ?thesis using s Running by (simp add: session_typed_def queues_typed_def numbers_typed_def)
  qed (use s Running in \<open>simp_all add: session_typed_drop loss_def\<close>)
qed (use assms in simp)

interpretation ty: guarded_machine "Running session_new" loop_step "\<lambda>_. input_typed" loop_typed
  by unfold_locales (simp_all add: loop_step_typed)

end
