(* ===== verification/SystemTyped.thy ===== *)
theory SystemTyped imports SystemProperties MuxTyped begin

text \<open>
  Typing of the whole proxy: every JSON tree on every queue of the system is a message, in every order
  of the turns. The decoding the bridges do of what the loop sent them is therefore never an error, and
  the loop never ends for a message it cannot read.
\<close>

section \<open>The typing of the system\<close>

definition op_typed :: "session_op \<Rightarrow> bool" where
  "op_typed op \<longleftrightarrow> input_typed (Op op)"

definition port_typed :: "client_port \<Rightarrow> bool" where
  "port_typed p \<longleftrightarrow> list_all dap_value (pt_inbox p)"

definition system_typed :: "proxy_system \<Rightarrow> bool" where
  "system_typed S \<longleftrightarrow> loop_typed (px_loop S) \<and> list_all dap_value (px_values S) \<and> list_all op_typed (px_ops S) \<and>
     list_all (\<lambda>q. port_typed (snd q)) (px_clients S)"

text \<open>What the other ends say has numbers of 64 bits, which is the type of the fields.\<close>

fun event_typed :: "system_event \<Rightarrow> bool" where
  "event_typed (ClientSays i m) = message_ok m"
| "event_typed (AdapterSays m spawn run) = message_ok m"
| "event_typed _ = True"

lemma loop_typed_session: "loop_typed l \<Longrightarrow> session_typed (final_session l)"
  by (cases l) simp_all

lemma port_typed_fill:
  assumes "session_typed s" and "port_typed p"
  shows "port_typed (fill_inbox s i p)"
proof (cases "hm_get (ss_clients s) i")
  case (Some c)
  then have "list_all dap_value (cs_queue c)" using assms(1) by (simp add: session_typed_def queues_typed_def)
  then show ?thesis using Some assms(2) by (auto simp: port_typed_def fill_inbox_def list_all_iff dest: in_set_dropD)
qed (simp add: fill_inbox_def assms(2))

lemma ports_typed_on_port:
  assumes "list_all (\<lambda>q. port_typed (snd q)) (px_clients S)" and "\<And>p. pt_inbox (f p) = pt_inbox p"
  shows "list_all (\<lambda>q. port_typed (snd q)) (px_clients (on_port i f S))"
proof (cases "hm_get (px_clients S) i")
  case (Some p)
  then have "port_typed p" using assms(1) map_of_SomeD [OF Some] by (auto simp: list_all_iff)
  then show ?thesis using Some assms by (auto simp: on_port_def port_typed_def intro!: list_all_hm_insert)
qed (use assms(1) in \<open>simp add: on_port_def\<close>)

section \<open>Every turn keeps it\<close>

lemma take_input_typed:
  assumes "system_typed S" and "input_typed i"
  shows "system_typed (take_input i S)"
proof -
  have l: "loop_typed (loop_step (px_loop S) i)" using assms loop_step_typed by (simp add: system_typed_def)
  then have "list_all (\<lambda>q. port_typed (snd q)) (px_clients (take_input i S))"
    using assms(1) port_typed_fill [OF loop_typed_session [OF l]]
    by (auto simp: take_input_def Let_def system_typed_def list_all_iff)
  then show ?thesis using assms(1) l by (simp add: system_typed_def)
qed

text \<open>Turns that change neither the loop nor a queue.\<close>

lemma system_typed_cong:
  assumes "system_typed S" and "px_loop T = px_loop S" "px_values T = px_values S" "px_ops T = px_ops S"
    "px_clients T = px_clients S"
  shows "system_typed T"
  using assms by (simp add: system_typed_def)

lemma on_port_values [simp]: "px_values (on_port i f S) = px_values S"
  by (simp add: on_port_def split: option.split)

lemma on_port_typed:
  "system_typed S \<Longrightarrow> (\<And>p. pt_inbox (f p) = pt_inbox p) \<Longrightarrow> system_typed (on_port i f S)"
  using ports_typed_on_port [of S f i] by (simp add: system_typed_def)

lemma enqueue_typed:
  "system_typed S \<Longrightarrow> list_all op_typed ops \<Longrightarrow> system_typed (S\<lparr>px_ops := px_ops S @ ops\<rparr>)"
  by (simp add: system_typed_def)

lemma stop_writing_typed: "system_typed S \<Longrightarrow> system_typed (stop_writing S)"
  unfolding stop_writing_def by (rule take_input_typed) (auto elim: system_typed_cong)

lemma say_goodbye_typed: "system_typed S \<Longrightarrow> system_typed (say_goodbye S)"
  unfolding say_goodbye_def by (rule stop_writing_typed) (auto elim: system_typed_cong)

lemma write_adapter_typed: "system_typed S \<Longrightarrow> system_typed (write_adapter d S)"
  by (auto simp: write_adapter_def Let_def intro!: stop_writing_typed say_goodbye_typed
      elim: system_typed_cong split: option.split)

lemma augment_typed: "message_ok m \<Longrightarrow> message_ok (augment_initialize_response m)"
  by (cases m) simp_all

lemma read_adapter_typed:
  assumes "system_typed S" and "message_ok m"
  shows "system_typed (read_adapter env m S)"
proof (cases "bridge_backend_message env m (px_children S)")
  case (Pair r n)
  have "dap_value v" if "r = Inr v" for v
    using Pair that assms(2) augment_typed [OF assms(2)] bridge_backend_reply
    by (auto simp: bridge_backend_message_def split: option.splits prod.splits if_splits)
  then show ?thesis using assms(1) Pair
    by (cases r) (auto simp: read_adapter_def system_typed_def)
qed

lemma client_broken_typed: "system_typed S \<Longrightarrow> system_typed (client_broken i S)"
  unfolding client_broken_def by (rule take_input_typed) (auto intro: on_port_typed)

lemma write_client_typed: "system_typed S \<Longrightarrow> system_typed (write_client i S)"
  by (auto simp: write_client_def intro!: client_broken_typed on_port_typed split: option.split)

lemma read_client_typed:
  assumes "system_typed S" and "message_ok m"
  shows "system_typed (read_client h q i m S)"
proof -
  have "dap_value v" if "bridge_client_message h q m = Inr v" for v
    using that assms(2) by (auto simp: bridge_client_message_def split: option.splits)
  moreover have "system_typed (on_port i (\<lambda>p. p\<lparr>pt_heard := pt_heard p @ [m]\<rparr>) S)"
    using assms(1) by (intro on_port_typed) simp_all
  ultimately show ?thesis using assms(1) enqueue_typed
    by (fastforce simp: read_client_def op_typed_def intro!: on_port_typed split: option.split sum.split)
qed

lemma client_leaves_typed:
  assumes "system_typed S"
  shows "system_typed (client_leaves i S)"
proof -
  have "system_typed (on_port i (\<lambda>p. p\<lparr>pt_reading := False\<rparr>) S)"
    using assms by (intro on_port_typed) simp_all
  from enqueue_typed [OF this, of "[Detach i]"] show ?thesis
    using assms by (simp add: client_leaves_def op_typed_def split: option.split)
qed

lemma new_port_typed: "session_typed s \<Longrightarrow> port_typed (new_port role s i)"
  unfolding new_port_def by (rule port_typed_fill) (simp_all add: port_typed_def)

lemma take_op_typed:
  assumes "system_typed S"
  shows "system_typed (take_op S)"
proof (cases "px_ops S")
  case (Cons op ops)
  let ?T = "take_input (Op op) (S\<lparr>px_ops := ops\<rparr>)"
  have T: "system_typed ?T"
    using assms Cons by (intro take_input_typed) (auto simp: system_typed_def op_typed_def)
  then have "session_typed (mux_session ?T)"
    by (simp add: system_typed_def mux_session_def loop_typed_session)
  then have "system_typed (?T\<lparr>px_clients := hm_insert i (new_port role (mux_session ?T) i) (px_clients ?T)\<rparr>)" for i role
    using T by (auto simp: system_typed_def new_port_typed intro!: list_all_hm_insert)
  then show ?thesis using assms T Cons by (cases op) (simp_all add: take_op_def Let_def)
qed (use assms in \<open>simp add: take_op_def\<close>)

lemma take_value_typed:
  assumes "system_typed S"
  shows "system_typed (take_value S)"
proof (cases "px_values S")
  case (Cons v vs)
  have "system_typed (take_input (FromUpstream v) (S\<lparr>px_values := vs\<rparr>))"
    using assms Cons by (intro take_input_typed) (auto simp: system_typed_def)
  then show ?thesis using assms Cons by (simp add: take_value_def)
qed (use assms take_input_typed [of S UpstreamClosed] in \<open>simp add: take_value_def\<close>)

lemma system_step_typed:
  assumes "system_typed S" and "event_typed e"
  shows "system_typed (system_step k S e)"
proof (cases e)
  case (Connects role)
  then show ?thesis using enqueue_typed [OF assms(1), of "[Attach role]"] by (simp add: op_typed_def)
next
  case AdapterCloses
  then show ?thesis using assms(1) by (auto elim: system_typed_cong)
qed (use assms in \<open>auto intro: read_client_typed client_leaves_typed client_broken_typed write_client_typed
      read_adapter_typed stop_writing_typed say_goodbye_typed write_adapter_typed take_op_typed take_value_typed
      take_input_typed\<close>)

interpretation sy: guarded_machine proxy_start "system_step k" "\<lambda>_. event_typed" system_typed for k
  by unfold_locales (simp_all add: system_step_typed, simp add: system_typed_def proxy_start_def)

lemma ok_run_each: "ok_run f (\<lambda>_. P) s es = list_all P es"
  by (induction es arbitrary: s) simp_all

section \<open>The property\<close>

text \<open>C6: Whatever the clients, the adapter and the scheduler do, every JSON tree the tasks of the proxy
  hand to each other is a message: what the bridge of the adapter gives to the loop, what the loop
  sends to the adapter, and what it sends to any client. So no task of the proxy ends because it cannot
  decode what another one gave it, and the loop never ends for a response without its number: it ends
  when the adapter or a client it has to reach is gone.\<close>

theorem proxy_values_typed:
  assumes "list_all event_typed es"
  shows "(\<forall>v \<in> set (px_values (run_proxy k es)). value_to_message v \<noteq> None) \<and>
    (\<forall>u \<in> set (ss_upstream (mux_session (run_proxy k es))). bridge_upstream_value (pc_attach_defaults k) u \<noteq> None) \<and>
    (\<forall>i p. hm_get (px_clients (run_proxy k es)) i = Some p \<longrightarrow> (\<forall>v \<in> set (pt_inbox p). bridge_egress_value v \<noteq> None)) \<and>
    (\<forall>s e. px_loop (run_proxy k es) = Ended s (Some e) \<longrightarrow> e = ClientNotFound \<or> e = UpstreamNotConnected)"
proof -
  have S: "system_typed (run_proxy k es)"
    using sy.good_reached [of k es] assms by (simp add: run_proxy_def ok_run_each)
  then have "session_typed (mux_session (run_proxy k es))"
    by (simp add: system_typed_def mux_session_def loop_typed_session)
  then show ?thesis
    using S by (auto simp: system_typed_def session_typed_def list_all_iff dap_value_def bridge_upstream_value_def
        bridge_egress_value_def port_typed_def loss_def dest!: map_of_SomeD)
qed

theorem proxy_values_typed_witness:
  "list_all event_typed demo_turns \<and>
   list_all (\<lambda>u. bridge_upstream_value (pc_attach_defaults demo_proxy) u \<noteq> None)
     (ss_upstream (mux_session (run_proxy demo_proxy demo_turns)))"
proof -
  have "list_all event_typed demo_turns" by code_simp
  then show ?thesis using proxy_values_typed [of demo_turns demo_proxy] by (simp add: list_all_iff)
qed

end
