(* ===== verification/ProxyExit.thy ===== *)
theory ProxyExit imports SystemProperties begin

text \<open>
  The end of a client's bridge (\<open>run_client_bridge\<close> of \<open>dap-core/src/mux_bridge.rs\<close>). The bridge has
  ended when its reader has ended and its writer has: the writer ends by an error, or when it has
  written everything on its channel and the loop, which held the sending side, has let it go. The
  lemmas follow one client through the turns of all tasks; two interpretations of the locale of fair
  schedules carry it from its last message to the end.
\<close>

section \<open>When a bridge has ended\<close>

text \<open>The loop has let the client go: it has ended, or the client is detached.\<close>

definition let_go :: "int \<Rightarrow> proxy_system \<Rightarrow> bool" where
  "let_go i S \<longleftrightarrow> \<not> loop_running S \<or> hm_get (ss_clients (mux_session S)) i = None"

definition bridge_done :: "int \<Rightarrow> proxy_system \<Rightarrow> bool" where
  "bridge_done i S =
     (case hm_get (px_clients S) i of
        None \<Rightarrow> False
      | Some p \<Rightarrow> \<not> pt_reading p \<and> (\<not> pt_writing p \<or> length (pt_inbox p) \<le> pt_taken p \<and> let_go i S))"

definition last_id :: "proxy_system \<Rightarrow> int" where
  "last_id S = ss_next_client (mux_session S)"

text \<open>Client ids are handed out in order and have not wrapped.\<close>

definition ids_left :: "proxy_system \<Rightarrow> bool" where
  "ids_left S \<longleftrightarrow> boxes_ok S \<and> 0 \<le> last_id S \<and> last_id S < 2 ^ 64 - 1"

section \<open>One client through one turn\<close>

text \<open>
  A bridge never goes back: it does not read or write again, it does not lose count of what it has
  written, nothing disappears from its channel, and once the loop has let the client go, it stays gone and nothing is added to its channel.
\<close>

definition moved :: "int \<Rightarrow> proxy_system \<Rightarrow> proxy_system \<Rightarrow> bool" where
  "moved i S T \<longleftrightarrow>
     (\<forall>p. hm_get (px_clients S) i = Some p \<longrightarrow>
        (\<exists>q. hm_get (px_clients T) i = Some q \<and> pt_role q = pt_role p \<and> pt_taken p \<le> pt_taken q \<and> (pt_reading q \<longrightarrow> pt_reading p) \<and>
             (pt_writing q \<longrightarrow> pt_writing p) \<and> prefix (pt_inbox p) (pt_inbox q) \<and>
             (let_go i S \<longrightarrow> pt_inbox q = pt_inbox p))) \<and>
     (let_go i S \<longrightarrow> let_go i T) \<and> last_id S \<le> last_id T"

lemma moved_same:
  "px_loop T = px_loop S \<Longrightarrow> px_clients T = px_clients S \<Longrightarrow> moved i S T"
  by (auto simp: moved_def let_go_def last_id_def loop_running_def mux_session_def)

lemma moved_trans: "moved i S T \<Longrightarrow> moved i T U \<Longrightarrow> moved i S U"
  unfolding moved_def by (fastforce intro: prefix_order.trans)

lemma moved_on_port:
  assumes "\<And>p. pt_role (f p) = pt_role p \<and> pt_taken p \<le> pt_taken (f p) \<and> (pt_reading (f p) \<longrightarrow> pt_reading p) \<and>
    (pt_writing (f p) \<longrightarrow> pt_writing p) \<and> pt_inbox (f p) = pt_inbox p"
  shows "moved i S (on_port j f S)"
  using assms by (auto simp: moved_def on_port_def let_go_def last_id_def loop_running_def mux_session_def split: option.split)

lemma loop_step_next:
  assumes "0 \<le> ss_next_client (final_session l)" and "ss_next_client (final_session l) < 2 ^ 64 - 1"
  shows "ss_next_client (final_session (loop_step l i)) =
    (if (\<exists>s role. l = Running s \<and> i = Op (Attach role)) then ss_next_client (final_session l) + 1
     else ss_next_client (final_session l))"
proof (cases l)
  case (Running s)
  show ?thesis
  proof (cases i)
    case (Op op)
    then show ?thesis using Running assms
      by (cases op) (simp_all add: attach_next next_client_id_def wrap_u64_def detach_def)
  qed (use Running in \<open>auto simp: drop_recv_def split: option.split\<close>)
qed simp

lemma moved_take_input:
  assumes ids: "ids_left S" and i: "i \<le> last_id S"
  shows "moved i S (take_input x S)"
proof -
  let ?T = "take_input x S"
  have next_id: "last_id ?T = (if (\<exists>s role. px_loop S = Running s \<and> x = Op (Attach role)) then last_id S + 1 else last_id S)"
    using loop_step_next [of "px_loop S" x] ids by (simp add: ids_left_def last_id_def mux_session_def)
  have gone: "hm_get (ss_clients (mux_session ?T)) i = None"
    if "hm_get (ss_clients (mux_session S)) i = None" "loop_running S"
  proof (rule ccontr)
    assume "hm_get (ss_clients (mux_session ?T)) i \<noteq> None"
    then obtain c where c: "hm_get (ss_clients (final_session (loop_step (px_loop S) x))) i = Some c"
      by (auto simp: mux_session_take)
    have n: "\<And>role. x = Op (Attach role) \<Longrightarrow> i \<noteq> ss_next_client (final_session (loop_step (px_loop S) x))"
      using next_id i that(2) by (cases "px_loop S") (auto simp: last_id_def mux_session_take loop_running_def)
    have "\<exists>c. hm_get (ss_clients (final_session (px_loop S))) i = Some c"
      using loop_step_clients [OF c] n by blast
    then show False using that(1) by (simp add: mux_session_def)
  qed
  have stop: "px_loop ?T = px_loop S" if "\<not> loop_running S"
    using that by (cases "px_loop S") (simp_all add: loop_running_def)
  have go: "let_go i S \<Longrightarrow> let_go i ?T"
    using gone stop by (cases "loop_running S") (auto simp: let_go_def loop_running_def)
  have inbox: "pt_inbox (fill_inbox (mux_session ?T) i p) = pt_inbox p"
    if "hm_get (px_clients S) i = Some p" "let_go i S" for p
  proof (cases "loop_running S")
    case True
    then show ?thesis using gone that(2) by (simp add: let_go_def fill_inbox_def)
  next
    case False
    then have "mux_session ?T = mux_session S" using stop by (simp add: mux_session_def)
    then show ?thesis using ids that(1) by (fastforce simp: ids_left_def boxes_ok_def fill_inbox_def split: option.split)
  qed
  have fields: "pt_taken (fill_inbox s i p) = pt_taken p" "pt_reading (fill_inbox s i p) = pt_reading p"
    "pt_writing (fill_inbox s i p) = pt_writing p" "prefix (pt_inbox p) (pt_inbox (fill_inbox s i p))" for s p
    by (simp_all add: fill_inbox_def split: option.split)
  have "hm_get (px_clients ?T) i = map_option (fill_inbox (mux_session ?T) i) (hm_get (px_clients S) i)"
    by (simp add: take_input_def Let_def hm_get_map_keyed mux_session_def)
  then show ?thesis using inbox go next_id by (auto simp: moved_def fields)
qed

lemma ids_left_ops [simp]: "ids_left (S\<lparr>px_ops := ops\<rparr>) = ids_left S" "last_id (S\<lparr>px_ops := ops\<rparr>) = last_id S"
  by (simp_all add: ids_left_def last_id_def)

lemma moved_stop_writing: "ids_left S \<Longrightarrow> i \<le> last_id S \<Longrightarrow> moved i S (stop_writing S)"
  unfolding stop_writing_def
  by (rule moved_trans [OF moved_same moved_take_input]) (auto simp: ids_left_def last_id_def elim: boxes_cong)

lemma moved_say_goodbye: "ids_left S \<Longrightarrow> i \<le> last_id S \<Longrightarrow> moved i S (say_goodbye S)"
  unfolding say_goodbye_def
  by (rule moved_trans [OF moved_same moved_stop_writing]) (auto simp: ids_left_def last_id_def elim: boxes_cong)

lemma moved_write_adapter:
  assumes "ids_left S" and "i \<le> last_id S"
  shows "moved i S (write_adapter d S)"
proof -
  let ?T = "S\<lparr>px_taken := px_taken S + 1\<rparr>"
  have "ids_left ?T" "i \<le> last_id ?T" using assms by (auto simp: ids_left_def last_id_def elim: boxes_cong)
  then have "moved i S (stop_writing ?T)" by (rule moved_trans [OF moved_same moved_stop_writing, rotated 2]) simp_all
  then show ?thesis using moved_say_goodbye [OF assms]
    by (auto simp: write_adapter_def Let_def intro: moved_same split: option.split)
qed

lemma moved_read_adapter: "moved i S (read_adapter env m S)"
  by (auto simp: read_adapter_def intro: moved_same split: prod.split sum.split)

lemma moved_client_broken: "ids_left S \<Longrightarrow> i \<le> last_id S \<Longrightarrow> moved i S (client_broken j S)"
  unfolding client_broken_def
  by (rule moved_trans [OF moved_on_port moved_take_input])
    (auto simp: ids_left_def last_id_def intro: on_port_boxes_ok)

lemma moved_write_client:
  assumes "ids_left S" and "i \<le> last_id S"
  shows "moved i S (write_client j S)"
proof -
  let ?T = "on_port j (\<lambda>p. p\<lparr>pt_taken := pt_taken p + 1\<rparr>) S"
  have "ids_left ?T" "i \<le> last_id ?T" using assms by (auto simp: ids_left_def last_id_def intro: on_port_boxes_ok)
  then have "moved i S (client_broken j ?T)"
    by (rule moved_trans [OF moved_on_port moved_client_broken, rotated 1]) simp
  then show ?thesis
    by (auto simp: write_client_def intro: moved_same moved_on_port split: option.split)
qed

lemma moved_ops [simp]: "moved i S (T\<lparr>px_ops := ops\<rparr>) = moved i S T"
  by (simp add: moved_def let_go_def loop_running_def last_id_def)

lemma moved_refl [simp]: "moved i S S"
  by (rule moved_same) simp_all

lemma moved_read_client: "moved i S (read_client h q j m S)"
  by (auto simp: read_client_def intro: moved_on_port split: option.split sum.split)

lemma moved_client_leaves: "moved i S (client_leaves j S)"
  by (auto simp: client_leaves_def intro: moved_on_port split: option.split)

lemma moved_take_op:
  assumes "ids_left S" and "i \<le> last_id S"
  shows "moved i S (take_op S)"
proof (cases "px_ops S")
  case (Cons op ops)
  let ?T = "take_input (Op op) (S\<lparr>px_ops := ops\<rparr>)"
  have T: "moved i S ?T"
    by (rule moved_trans [OF moved_same moved_take_input]) (use assms in simp_all)
  show ?thesis
  proof (cases "loop_running S")
    case running: True
    show ?thesis
    proof (cases op)
      case (Attach role)
      have "last_id ?T = last_id S + 1"
        using running Attach assms(1) loop_step_next [of "px_loop S" "Op op"]
        by (cases "px_loop S") (auto simp: last_id_def mux_session_def loop_running_def ids_left_def)
      then have "i \<noteq> ss_next_client (mux_session ?T)" using assms(2) by (simp add: last_id_def)
      then have "moved i S (?T\<lparr>px_clients := hm_insert (ss_next_client (mux_session ?T))
          (new_port role (mux_session ?T) (ss_next_client (mux_session ?T))) (px_clients ?T)\<rparr>)"
        using T by (simp add: moved_def let_go_def loop_running_def last_id_def)
      then show ?thesis using Cons Attach running by (simp add: take_op_def Let_def)
    qed (use Cons running T in \<open>simp_all add: take_op_def Let_def\<close>)
  qed (simp add: take_op_def Cons)
qed (simp add: take_op_def)

lemma moved_take_value:
  assumes "ids_left S" and "i \<le> last_id S"
  shows "moved i S (take_value S)"
proof -
  have "moved i S (take_input x (S\<lparr>px_values := vs\<rparr>))" for x vs
    by (rule moved_trans [OF moved_same moved_take_input])
      (use assms in \<open>auto simp: ids_left_def last_id_def elim: boxes_cong\<close>)
  then show ?thesis using moved_take_input [OF assms] by (simp add: take_value_def split: list.split)
qed

lemma system_step_moved:
  assumes "ids_left S" and "i \<le> last_id S"
  shows "moved i S (system_step k S e)"
  using assms
  by (cases e) (simp_all add: moved_read_client moved_client_leaves moved_client_broken moved_write_client
      moved_read_adapter moved_stop_writing moved_say_goodbye moved_write_adapter moved_take_op moved_take_value
      moved_take_input moved_same)

section \<open>Which clients have a bridge\<close>

definition has_bridge :: "int \<Rightarrow> proxy_system \<Rightarrow> bool" where
  "has_bridge i S \<longleftrightarrow> hm_get (px_clients S) i \<noteq> None"

definition seated :: "proxy_system \<Rightarrow> bool" where
  "seated S \<longleftrightarrow> 0 \<le> last_id S \<and> (\<forall>i. has_bridge i S \<longrightarrow> i \<le> last_id S)"

lemma has_bridge_simps [simp]:
  "has_bridge i (take_input x S) = has_bridge i S" "has_bridge i (on_port j f S) = has_bridge i S"
  "has_bridge i (S\<lparr>px_ops := a\<rparr>) = has_bridge i S" "has_bridge i (S\<lparr>px_values := b\<rparr>) = has_bridge i S"
  "has_bridge i (S\<lparr>px_reading := c\<rparr>) = has_bridge i S" "has_bridge i (S\<lparr>px_heard := d\<rparr>) = has_bridge i S"
  "has_bridge i (S\<lparr>px_children := n\<rparr>) = has_bridge i S" "has_bridge i (S\<lparr>px_writing := w\<rparr>) = has_bridge i S"
  "has_bridge i (S\<lparr>px_taken := t\<rparr>) = has_bridge i S" "has_bridge i (S\<lparr>px_wire := m\<rparr>) = has_bridge i S"
  by (auto simp: has_bridge_def take_input_def Let_def hm_get_map_keyed on_port_def split: option.split)

lemma has_bridge_take_op: "has_bridge i (take_op S) \<Longrightarrow> has_bridge i S \<or> i = last_id (take_op S)"
proof (cases "px_ops S")
  case (Cons op ops)
  assume "has_bridge i (take_op S)"
  then show ?thesis using Cons has_bridge_simps(1) [of i "Op op" "S\<lparr>px_ops := ops\<rparr>"]
    by (cases op) (auto simp: take_op_def Let_def last_id_def has_bridge_def split: if_splits)
qed (simp add: take_op_def)

lemma system_step_bridges:
  assumes "has_bridge i (system_step k S e)"
  shows "has_bridge i S \<or> i = last_id (system_step k S e)"
proof (cases "e = TakeOp")
  case False
  then have "has_bridge i (system_step k S e) = has_bridge i S"
    by (cases e) (auto simp: read_client_def client_leaves_def client_broken_def write_client_def read_adapter_def
        stop_writing_def say_goodbye_def write_adapter_def take_value_def Let_def
        split: option.split sum.split prod.split list.split)
  then show ?thesis using assms by simp
qed (use assms has_bridge_take_op in simp)

lemma seated_step:
  assumes "seated S" and "ids_left S"
  shows "seated (system_step k S e)"
  using assms system_step_bridges [of _ k S e] system_step_moved [OF assms(2), of _ k e]
  by (force simp: seated_def moved_def)

section \<open>From the last message to the end\<close>

lemma system_step_ops: "e \<noteq> TakeOp \<Longrightarrow> \<exists>ops. px_ops (system_step k S e) = px_ops S @ ops"
  by (cases e) (auto simp: read_client_def client_leaves_def client_broken_def write_client_def read_adapter_def
      stop_writing_def say_goodbye_def write_adapter_def take_value_def Let_def
      split: option.splits sum.splits prod.splits list.splits)

text \<open>A client that has stopped reading, with its detach on the way to the loop or already done.\<close>

definition stopped_reading :: "int \<Rightarrow> proxy_system \<Rightarrow> bool" where
  "stopped_reading i S \<longleftrightarrow> i \<le> last_id S \<and> (\<exists>p. hm_get (px_clients S) i = Some p \<and> \<not> pt_reading p)"

definition leaving :: "int \<Rightarrow> proxy_system \<Rightarrow> bool" where
  "leaving i S \<longleftrightarrow> stopped_reading i S \<and> Detach i \<in> set (px_ops S)"

definition released_client :: "int \<Rightarrow> proxy_system \<Rightarrow> bool" where
  "released_client i S \<longleftrightarrow> stopped_reading i S \<and> let_go i S"

definition ops_before :: "int \<Rightarrow> proxy_system \<Rightarrow> nat" where
  "ops_before i S = length (takeWhile (\<lambda>op. op \<noteq> Detach i) (px_ops S))"

definition unwritten :: "int \<Rightarrow> proxy_system \<Rightarrow> nat" where
  "unwritten i S = (case hm_get (px_clients S) i of Some p \<Rightarrow> length (pt_inbox p) - pt_taken p | None \<Rightarrow> 0)"

lemma stopped_reading_step:
  assumes "stopped_reading i S" and "ids_left S"
  shows "stopped_reading i (system_step k S e)"
proof -
  have "i \<le> last_id S" using assms(1) by (simp add: stopped_reading_def)
  then show ?thesis using system_step_moved [OF assms(2), of i k e] assms(1) by (fastforce simp: stopped_reading_def moved_def)
qed

lemma take_op_running:
  assumes "px_ops S = op # ops" and "loop_running S"
  shows "px_ops (take_op S) = ops" and "op = Detach i \<Longrightarrow> let_go i (take_op S)"
proof -
  show "px_ops (take_op S) = ops" using assms by (cases op) (simp_all add: take_op_def Let_def)
  show "let_go i (take_op S)" if "op = Detach i"
    using assms that by (cases "px_loop S")
      (simp_all add: take_op_def let_go_def loop_running_def mux_session_def detach_def loop_result_def)
qed

lemma leaving_step:
  assumes way: "leaving i S" and ids: "ids_left S"
  shows "released_client i (system_step k S e) \<or>
    leaving i (system_step k S e) \<and> ops_before i (system_step k S e) + (if e = TakeOp then 1 else 0) \<le> ops_before i S"
proof -
  let ?T = "system_step k S e"
  have read: "stopped_reading i ?T" using way ids by (simp add: leaving_def stopped_reading_step)
  show ?thesis
  proof (cases "let_go i ?T")
    case stays: False
    have running: "loop_running S"
      using stays system_step_moved [OF ids, of i k e] way
      by (auto simp: moved_def let_go_def leaving_def stopped_reading_def)
    have mem: "Detach i \<in> set (px_ops S)" using way by (simp add: leaving_def)
    show ?thesis
    proof (cases "e = TakeOp")
      case True
      obtain op ops where ops: "px_ops S = op # ops" using mem by (cases "px_ops S") auto
      then have "op \<noteq> Detach i" "px_ops ?T = ops"
        using take_op_running [OF ops running] stays True by auto
      then show ?thesis using ops mem read True by (auto simp: leaving_def ops_before_def)
    next
      case False
      then obtain ops where "px_ops ?T = px_ops S @ ops" using system_step_ops by blast
      then show ?thesis using mem read False by (auto simp: leaving_def ops_before_def takeWhile_append1)
    qed
  qed (use read in \<open>simp add: released_client_def\<close>)
qed

interpretation leave: fair_progress "system_step k" ids_left "\<lambda>e. e = TakeOp" "leaving i" "released_client i" "ops_before i" for k i
proof (unfold_locales, goal_cases)
  case (1 s e)
  then show ?case using leaving_step [of i s k e] by auto
next
  case (2 s e)
  then show ?case using leaving_step [of i s k e] by auto
qed

lemma released_step:
  assumes "released_client i S" and "ids_left S"
  shows "released_client i (system_step k S e)" and "unwritten i (system_step k S e) \<le> unwritten i S"
proof -
  have i: "i \<le> last_id S" using assms(1) by (simp add: released_client_def stopped_reading_def)
  then show "released_client i (system_step k S e)"
    using assms stopped_reading_step system_step_moved [OF assms(2), of i k e] by (simp add: released_client_def moved_def)
  show "unwritten i (system_step k S e) \<le> unwritten i S"
    using assms system_step_moved [OF assms(2) i, of k e]
    by (fastforce simp: unwritten_def moved_def released_client_def stopped_reading_def)
qed

lemma released_write:
  assumes "released_client i S"
  shows "bridge_done i (write_client i S) \<or> unwritten i (write_client i S) < unwritten i S"
proof -
  obtain p where p: "hm_get (px_clients S) i = Some p" "\<not> pt_reading p" "let_go i S"
    using assms by (auto simp: released_client_def stopped_reading_def)
  show ?thesis
  proof (cases "\<not> pt_writing p \<or> length (pt_inbox p) \<le> pt_taken p")
    case True
    then show ?thesis using p by (simp add: write_client_def bridge_done_def)
  next
    case False
    then show ?thesis using p
      by (cases "bridge_egress_value (pt_inbox p ! pt_taken p)")
         (auto simp: write_client_def bridge_done_def unwritten_def on_port_def client_broken_def take_input_def Let_def
           hm_get_map_keyed fill_inbox_def split: option.splits)
  qed
qed

interpretation drain: fair_progress "system_step k" ids_left "\<lambda>e. e = WriteClient i" "released_client i" "bridge_done i" "unwritten i" for k i
proof (unfold_locales, goal_cases)
  case (1 s e)
  then show ?case using released_step [of i s k e] by blast
next
  case (2 s e)
  then show ?case using released_write [of i s] by auto
qed

lemma bridge_done_step:
  assumes "bridge_done i S" and "ids_left S" and "i \<le> last_id S"
  shows "bridge_done i (system_step k S e)"
  using assms(1) system_step_moved [OF assms(2,3), of k e]
  by (fastforce simp: bridge_done_def moved_def split: option.splits)

section \<open>The property\<close>

text \<open>The system after the first events of an endless schedule.\<close>

definition after_turns :: "proxy_config \<Rightarrow> (nat \<Rightarrow> system_event) \<Rightarrow> nat \<Rightarrow> proxy_system" where
  "after_turns k f n = run_proxy k (map f [0..<n])"

lemma after_turns_simps [simp]:
  "after_turns k f 0 = proxy_start" "after_turns k f (Suc n) = system_step k (after_turns k f n) (f n)"
  by (simp_all add: after_turns_def run_proxy_def)

lemma proxy_start_seated: "ids_left proxy_start \<and> seated proxy_start"
  by (simp add: ids_left_def seated_def last_id_def mux_session_def proxy_start_def boxes_ok_def session_new_def has_bridge_def)

lemma after_turns_seated:
  assumes "\<And>n. last_id (after_turns k f n) < 2 ^ 64 - 1"
  shows "ids_left (after_turns k f n) \<and> seated (after_turns k f n)"
proof (induction n)
  case (Suc n)
  then have "seated (after_turns k f (Suc n))" using seated_step by simp
  moreover have "boxes_ok (after_turns k f (Suc n))"
    using Suc system_step_boxes_ok by (simp add: ids_left_def)
  ultimately show ?case using assms [of "Suc n"] by (simp add: ids_left_def seated_def)
qed (simp add: proxy_start_seated)

lemma leaves_leaving:
  assumes "hm_get (px_clients S) i = Some p" and "i \<le> last_id S"
  shows "leaving i (client_leaves i S)"
  using assms by (simp add: leaving_def stopped_reading_def client_leaves_def on_port_def last_id_def mux_session_def)

text \<open>C10: When a client leaves the proxy, its bridge comes to an end, whatever the other clients and the
  adapter do: in every schedule in which the loop and the writer of the bridge keep getting turns, from
  some moment on the reader has ended, the loop has let the client go, and every message the loop had
  for the client has been written to it, unless its connection broke.\<close>

theorem client_bridge_ends:
  assumes ids: "\<And>n. last_id (after_turns k f n) < 2 ^ 64 - 1"
    and loop_turns: "\<And>n. \<exists>m. n \<le> m \<and> f m = TakeOp"
    and writer_turns: "\<And>n. \<exists>m. n \<le> m \<and> f m = WriteClient i"
    and leaves: "hm_get (px_clients (after_turns k f n0)) i = Some p" "f n0 = ClientLeaves i"
  shows "\<exists>n1. \<forall>n. n1 \<le> n \<longrightarrow> bridge_done i (after_turns k f n)"
proof -
  note ok = after_turns_seated [OF ids]
  have id: "i \<le> last_id (after_turns k f n0)" using ok [of n0] leaves(1) by (auto simp: seated_def has_bridge_def)
  have run: "\<And>n. after_turns k f (Suc n) = system_step k (after_turns k f n) (f n)" by simp
  have "leaving i (after_turns k f (Suc n0))" using leaves_leaving [OF leaves(1) id] leaves(2) by simp
  then obtain n2 where n2: "released_client i (after_turns k f n2)"
    using leave.eventually_goal [where s = "after_turns k f", OF run] ok loop_turns by blast
  then obtain n1 where n1: "n2 < n1" "bridge_done i (after_turns k f n1)"
    using drain.eventually_goal [where s = "after_turns k f", OF run] ok writer_turns by blast
  have later: "released_client i (after_turns k f (n2 + d))" for d
    by (induction d) (use n2 released_step(1) ok in auto)
  have "bridge_done i (after_turns k f (n1 + d))" for d
  proof (induction d)
    case (Suc d)
    have "i \<le> last_id (after_turns k f (n1 + d))"
      using later [of "n1 + d - n2"] n1(1) by (simp add: released_client_def stopped_reading_def)
    then show ?case using Suc bridge_done_step [of i "after_turns k f (n1 + d)"] ok by simp
  qed (use n1 in simp)
  then show ?thesis by (metis le_Suc_ex)
qed

text \<open>A control client attaches and leaves, and then its tasks take turns for ever.\<close>

definition demo_exit :: "nat \<Rightarrow> system_event" where
  "demo_exit n = (if n = 0 then Connects Control else if n = 2 then ClientLeaves 1
     else if odd n then TakeOp else WriteClient 1)"

lemma quiet_take_input:
  assumes "0 \<le> last_id S" "last_id S < 2 ^ 64 - 1" and "\<And>role. x \<noteq> Op (Attach role)"
  shows "last_id (take_input x S) = last_id S"
  using loop_step_next [of "px_loop S" x] assms by (simp add: last_id_def mux_session_def)

lemma last_id_on_port [simp]: "last_id (on_port i f S) = last_id S"
  by (simp add: last_id_def)

definition quiet :: "proxy_system \<Rightarrow> bool" where
  "quiet S \<longleftrightarrow> (\<forall>role. Attach role \<notin> set (px_ops S)) \<and> last_id S = 1"

lemma quiet_step:
  assumes "quiet S" and "e = TakeOp \<or> e = WriteClient i"
  shows "quiet (system_step k S e)"
proof (cases "e = TakeOp")
  case True
  show ?thesis
  proof (cases "px_ops S")
    case (Cons op ops)
    then have "\<And>role. op \<noteq> Attach role" using assms(1) by (auto simp: quiet_def)
    then show ?thesis
      using True Cons assms(1) quiet_take_input [of "S\<lparr>px_ops := ops\<rparr>" "Op op"]
      by (cases op) (auto simp: quiet_def take_op_def Let_def)
  qed (use True assms(1) in \<open>simp add: take_op_def\<close>)
next
  case False
  then show ?thesis using assms
    by (auto simp: quiet_def write_client_def client_broken_def quiet_take_input split: option.split)
qed

lemma demo_exit_start:
  "after_turns demo_proxy demo_exit 3 = run_proxy demo_proxy [Connects Control, TakeOp, ClientLeaves 1]"
  by (simp add: after_turns_def demo_exit_def upt_rec numeral_3_eq_3)

lemma demo_exit_ids: "last_id (after_turns demo_proxy demo_exit n) \<le> 1"
proof -
  have late: "quiet (after_turns demo_proxy demo_exit (3 + d))" for d
  proof (induction d)
    case 0
    have "px_ops (run_proxy demo_proxy [Connects Control, TakeOp, ClientLeaves 1]) = [Detach 1]"
      "last_id (run_proxy demo_proxy [Connects Control, TakeOp, ClientLeaves 1]) = 1" by code_simp+
    then show ?case by (simp add: demo_exit_start quiet_def)
  next
    case (Suc d)
    have "demo_exit (3 + d) = TakeOp \<or> demo_exit (3 + d) = WriteClient 1" by (simp add: demo_exit_def)
    from quiet_step [OF Suc.IH this, of demo_proxy] show ?case by (simp only: after_turns_simps add_Suc_right)
  qed
  have early: "last_id (run_proxy demo_proxy []) = 0" "last_id (run_proxy demo_proxy [Connects Control]) = 0"
    "last_id (run_proxy demo_proxy [Connects Control, TakeOp]) = 1" by code_simp+
  consider "n = 0" | "n = 1" | "n = 2" | d where "n = 3 + d"
    by (metis One_nat_def add_2_eq_Suc' le_Suc_ex less_2_cases not_less_eq_eq numeral_3_eq_3 one_add_one plus_1_eq_Suc linorder_not_le less_Suc_eq)
  then show ?thesis using early late by cases (simp_all add: after_turns_def demo_exit_def quiet_def upt_rec)
qed

theorem client_bridge_ends_witness:
  "\<exists>n1. \<forall>n. bridge_done 1 (after_turns demo_proxy demo_exit (n1 + n))"
proof -
  have "last_id (after_turns demo_proxy demo_exit n) < 2 ^ 64 - 1" for n
    using demo_exit_ids [of n] by simp
  moreover have "\<exists>m. n \<le> m \<and> demo_exit m = TakeOp" "\<exists>m. n \<le> m \<and> demo_exit m = WriteClient 1" for n
    by (rule exI [of _ "2 * n + 3"], simp add: demo_exit_def) (rule exI [of _ "2 * n + 4"], simp add: demo_exit_def)
  moreover obtain p where "hm_get (px_clients (after_turns demo_proxy demo_exit 2)) 1 = Some p"
  proof -
    have "has_bridge 1 (run_proxy demo_proxy [Connects Control, TakeOp])" by code_simp
    then show ?thesis using that by (auto simp: has_bridge_def after_turns_def demo_exit_def upt_rec)
  qed
  ultimately show ?thesis
    using client_bridge_ends [of demo_proxy demo_exit 1 2] by (simp add: demo_exit_def) (metis le_add1)
qed

end
