(* ===== verification/ProxyLife.thy ===== *)
theory ProxyLife imports ProxyBackend CoreInit begin

text \<open>
  The life of one \<open>dap-proxy\<close> process from its command line to its exit (\<open>dap-proxy/src/main.rs\<close>):
  which processes it starts and which of them still run when it ends, and the session file it leaves
  for others. The processes are those of \<open>dap-core/src/proxy.rs\<close> (the adapter), \<open>rsp_target.rs\<close> (the
  target) and \<open>child_supervisor.rs\<close> (child proxies), and their owners are \<open>adapter_guard.rs\<close>,
  \<open>target_guard.rs\<close> and the supervisor. What the system answers to each call is a parameter; a process
  is named by its number in the order of the starts.
\<close>

section \<open>Processes\<close>

record life =
  lf_started :: nat
  lf_running :: "nat list"
  lf_files :: store
  lf_ready :: "(nat \<times> string) list"

text \<open>What the system answers: starting a process, connecting, polling an endpoint, and the rest of the run.\<close>

datatype run_end =
    BridgeEnded "string option"
  | BridgeFailed string
  | ParentGone
  | Interrupted
  | Terminated
  | NoSignals string

record life_env =
  le_host :: host
  le_exec :: "nat \<Rightarrow> string \<Rightarrow> string list \<Rightarrow> string option"
  le_connects :: "string \<Rightarrow> nat \<Rightarrow> bool"
  le_polls :: "string \<Rightarrow> nat \<Rightarrow> bool list"
  le_exe :: string
  le_lines :: "nat \<Rightarrow> string option list"
  le_parse :: "string \<Rightarrow> json option"
  le_print :: "json \<Rightarrow> string"
  le_load_profile :: "cli \<Rightarrow> string + child_profile"
  le_uuid :: string
  le_now :: int
  le_pid :: nat
  le_bind :: "nat \<Rightarrow> string + nat"
  le_loop_alive :: bool
  le_dial :: "nat \<Rightarrow> arrival list option"
  le_store :: "string option"
  le_io :: io
  le_world :: world
  le_encode :: "session_record \<Rightarrow> string"
  le_decode :: "string \<Rightarrow> session_record option"
  le_early :: "child_spawn_plan list"
  le_late :: "child_spawn_plan list"
  le_end :: run_end

definition start_process :: "life_env \<Rightarrow> string \<Rightarrow> string list \<Rightarrow> life \<Rightarrow> (string + nat) \<times> life" where
  "start_process env exe args L =
     (case le_exec env (lf_started L) exe args of
        Some e \<Rightarrow> (Inl e, L)
      | None \<Rightarrow> (Inr (lf_started L),
          L\<lparr>lf_started := lf_started L + 1, lf_running := lf_running L @ [lf_started L]\<rparr>))"

definition kill_adapter_process :: "nat option \<Rightarrow> life \<Rightarrow> life" where
  "kill_adapter_process p L =
     (case p of Some n \<Rightarrow> L\<lparr>lf_running := filter (\<lambda>m. m \<noteq> n) (lf_running L)\<rparr> | None \<Rightarrow> L)"

text \<open>
  The two guards hold a process until their shutdown kills it. Dropping the adapter's guard leaves the
  process alone, so it appears nowhere; the target's process was started with \<open>kill_on_drop\<close>, so the drop kills it too.
\<close>

record process_guard =
  pg_process :: "nat option"

definition guard_shutdown :: "process_guard \<Rightarrow> life \<Rightarrow> process_guard \<times> life" where
  "guard_shutdown g L = (\<lparr>pg_process = None\<rparr>, kill_adapter_process (pg_process g) L)"

definition drop_target_guard :: "process_guard \<Rightarrow> life \<Rightarrow> life" where
  "drop_target_guard g L = kill_adapter_process (pg_process g) L"

section \<open>The adapter\<close>

definition spawn_stdio :: "life_env \<Rightarrow> string \<Rightarrow> string list \<Rightarrow> life \<Rightarrow> (string + nat option) \<times> life" where
  "spawn_stdio env cmd args L =
     (case start_process env cmd args L of
        (Inl e, L) \<Rightarrow> (Inl (''failed to spawn adapter: '' @ cmd), L)
      | (Inr pid, L) \<Rightarrow> (Inr (Some pid), L))"

definition spawn_tcp :: "life_env \<Rightarrow> string \<Rightarrow> nat \<Rightarrow> string + nat option" where
  "spawn_tcp env h port =
     (if le_connects env h port then Inr None
      else Inl (''failed to connect tcp adapter at '' @ h @ '':'' @ show_nat port))"

text \<open>A backend is its channel and the process behind it, if there is one.\<close>

definition open_backend :: "life_env \<Rightarrow> adapter_spawn \<Rightarrow> life \<Rightarrow> (string + nat option) \<times> life" where
  "open_backend env a L =
     (case backend_spawn a of
        Inl e \<Rightarrow> (Inl e, L)
      | Inr (StartStdio cmd args new_session) \<Rightarrow> spawn_stdio env cmd args L
      | Inr (ConnectTcp h port) \<Rightarrow> (spawn_tcp env h port, L)
      | Inr StartGdbRemote \<Rightarrow> (Inr None, L))"

section \<open>The target\<close>

text \<open>The attempts to connect before the deadline, in order.\<close>

fun wait_for_tcp :: "bool list \<Rightarrow> bool" where
  "wait_for_tcp [] = False"
| "wait_for_tcp (ok # attempts) = (ok \<or> wait_for_tcp attempts)"

definition spawn_rsp_target :: "life_env \<Rightarrow> target_spawn \<Rightarrow> string \<Rightarrow> nat \<Rightarrow> life \<Rightarrow> (string + nat) \<times> life" where
  "spawn_rsp_target env s h port L =
     (case start_process env (ts_command s) (ts_args s) L of
        (Inl e, L) \<Rightarrow> (Inl (''spawn RSP target `'' @ ts_command s @ ''`''), L)
      | (Inr pid, L) \<Rightarrow>
          if wait_for_tcp (le_polls env h port) then (Inr pid, L)
          else (Inl (''wait for RSP endpoint at '' @ h @ '':'' @ show_nat port), kill_adapter_process (Some pid) L))"

text \<open>\<open>prepare_rsp_target\<close> with the process it starts.\<close>

definition open_target ::
    "life_env \<Rightarrow> engine \<Rightarrow> string \<Rightarrow> string \<Rightarrow> life \<Rightarrow> (proxy_error + nat option \<times> json) \<times> life" where
  "open_target env en target program L =
     (case target_get (en_targets en) target of
        None \<Rightarrow> (Inl (ProxyOption (''unknown RSP target `'' @ target @ ''`'')), L)
      | Some manifest \<Rightarrow>
          (case resolve_target (le_host env) manifest program of
             Inl e \<Rightarrow> (Inl (ProxyEngine (Plugins e)), L)
           | Inr profile \<Rightarrow>
               (case rt_spawn profile of
                  None \<Rightarrow> (Inr (None, attach_arguments profile), L)
                | Some s \<Rightarrow>
                    (case spawn_rsp_target env s (rt_host profile) (rt_port profile) L of
                       (Inl msg, L) \<Rightarrow> (Inl (ProxyOption msg), L)
                     | (Inr pid, L) \<Rightarrow> (Inr (Some pid, attach_arguments profile), L)))))"

text \<open>The target the command line names, in the guard of the run.\<close>

definition target_of :: "life_env \<Rightarrow> cli \<Rightarrow> engine \<Rightarrow> launch_options \<Rightarrow> life
    \<Rightarrow> (proxy_error + process_guard \<times> json option) \<times> life" where
  "target_of env c en launch L =
     (case cli_target c of
        None \<Rightarrow> (Inr (\<lparr>pg_process = None\<rparr>, None), L)
      | Some t \<Rightarrow>
          (case lo_program launch of
             None \<Rightarrow> (Inl (ProxyOption ''--target requires --program''), L)
           | Some program \<Rightarrow>
               (case open_target env en t program L of
                  (Inl e, L) \<Rightarrow> (Inl e, L)
                | (Inr (p, attach), L) \<Rightarrow> (Inr (\<lparr>pg_process = p\<rparr>, Some attach), L))))"

section \<open>The session\<close>

record opened =
  od_session :: session_handle
  od_options :: mux_options
  od_children :: "(child_bridge \<times> supervisor) option"
  od_adapter :: process_guard

text \<open>
  From the resolved launch to the session of the engine, with the adapter started on the way. An error
  after the start drops the backend, which leaves its process running.
\<close>

definition open_session ::
    "life_env \<Rightarrow> cli \<Rightarrow> json option \<Rightarrow> launch_options \<Rightarrow> engine \<Rightarrow> life \<Rightarrow> (proxy_error + opened) \<times> engine \<times> life" where
  "open_session env c defaults launch en L =
     (case resolve_backend_spawn c en launch of
        Inl e \<Rightarrow> (Inl e, en, L)
      | Inr a \<Rightarrow>
     (case open_backend env a L of
        (Inl msg, L) \<Rightarrow> (Inl (ProxyOption msg), en, L)
      | (Inr p, L) \<Rightarrow>
     (case prepare_session (le_uuid env) (le_now env) launch en of
        (Inl e, en) \<Rightarrow> (Inl (ProxyEngine e), en, L)
      | (Inr sh, en) \<Rightarrow>
     (case mark_running (le_pid env) sh en of
        (Inl e, en) \<Rightarrow> (Inl (ProxyEngine e), en, L)
      | (Inr _, en) \<Rightarrow>
     (case build_child_session_bridge (le_load_profile env) c (sh_instance_id sh)
             (adapter_cmd_from_spawn a (cli_adapter_cmd c)) of
        Inl msg \<Rightarrow> (Inl (ProxyOption msg), en, L)
      | Inr children \<Rightarrow> (Inr
          \<lparr>od_session = sh,
           od_options = (build_mux_options c)
             \<lparr>mo_plugin_context := plugin_get (en_registry en) (sh_adapter_id sh), mo_attach_defaults := defaults\<rparr>,
           od_children = children, od_adapter = \<lparr>pg_process = p\<rparr>\<rparr>, en, L))))))"

section \<open>The control port and child proxies\<close>

definition serve_control_attach :: "life_env \<Rightarrow> nat \<Rightarrow> string + nat" where
  "serve_control_attach env port =
     (case le_bind env port of
        Inl e \<Rightarrow> Inl (''bind control attach port '' @ show_nat port)
      | Inr bound \<Rightarrow> Inr bound)"

definition control_listener :: "life_env \<Rightarrow> mux_options \<Rightarrow> string + nat option" where
  "control_listener env o1 =
     (case mo_control_port o1 of
        None \<Rightarrow> Inr None
      | Some port \<Rightarrow> map_sum id Some (serve_control_attach env port))"

text \<open>The listener first, then the attach of the editor, which needs the loop.\<close>

definition start_multiplexed_proxy :: "life_env \<Rightarrow> mux_options \<Rightarrow> string + nat option" where
  "start_multiplexed_proxy env o1 =
     (case control_listener env o1 of
        Inl e \<Rightarrow> Inl e
      | Inr port \<Rightarrow> if le_loop_alive env then Inr port else Inl ''session loop stopped'')"

definition start_headless_multiplexed_proxy :: "life_env \<Rightarrow> mux_options \<Rightarrow> string + nat option" where
  "start_headless_multiplexed_proxy env o1 = control_listener env o1"

definition spawn_child :: "life_env \<Rightarrow> supervisor \<Rightarrow> child_spawn_plan \<Rightarrow> nat list \<times> life \<Rightarrow> nat list \<times> life" where
  "spawn_child env sv p st =
     (case st of (children, L) \<Rightarrow>
       (case start_process env (le_exe env) (child_command_line (le_print env) sv p) L of
          (Inl e, L) \<Rightarrow> (children, L)
        | (Inr pid, L) \<Rightarrow>
            (snd (supervised_spawn (le_parse env) (le_print env) (\<lambda>_. Inr pid) (le_lines env) sv p children), L)))"

text \<open>The child requests of the adapter that lead to a plan, one after the other.\<close>

definition serve_child_plans ::
    "life_env \<Rightarrow> supervisor option \<Rightarrow> child_spawn_plan list \<Rightarrow> nat list \<times> life \<Rightarrow> nat list \<times> life" where
  "serve_child_plans env sv plans st =
     (case sv of None \<Rightarrow> st | Some sv \<Rightarrow> foldl (\<lambda>st p. spawn_child env sv p st) st plans)"

section \<open>The session file and the end\<close>

definition open_cleanup :: "life_env \<Rightarrow> life \<Rightarrow> cleanup_guard \<times> life" where
  "open_cleanup env L =
     (case guard_new (le_decode env) (le_world env) (le_io env) (lf_files L) of (g, d) \<Rightarrow> (g, L\<lparr>lf_files := d\<rparr>))"

text \<open>The ready line, the record, and only then the guard is armed.\<close>

definition leave_file ::
    "life_env \<Rightarrow> cli \<Rightarrow> session_handle \<Rightarrow> nat \<Rightarrow> cleanup_guard \<Rightarrow> life \<Rightarrow> (proxy_error + cleanup_guard) \<times> life" where
  "leave_file env c sh port g L =
     (let L = L\<lparr>lf_ready := lf_ready L @ [(port, sh_instance_id sh)]\<rparr>
      in case guard_save (le_encode env) (le_io env) (session_file c (le_pid env) (le_now env) sh port) (lf_files L) of
           (Inl e, d) \<Rightarrow> (Inl (ProxyEngine (Instances e)), L\<lparr>lf_files := d\<rparr>)
         | (Inr _, d) \<Rightarrow> (Inr (guard_arm (sh_instance_id sh) g), L\<lparr>lf_files := d\<rparr>))"

text \<open>The first of the events the run waits for; a signal or the loss of the parent is a normal end.\<close>

fun run_until_shutdown :: "run_end \<Rightarrow> string + (string + unit)" where
  "run_until_shutdown (NoSignals e) = Inl e"
| "run_until_shutdown (BridgeFailed e) = Inl e"
| "run_until_shutdown (BridgeEnded (Some e)) = Inr (Inl e)"
| "run_until_shutdown (BridgeEnded None) = Inr (Inr ())"
| "run_until_shutdown ParentGone = Inr (Inr ())"
| "run_until_shutdown Interrupted = Inr (Inr ())"
| "run_until_shutdown Terminated = Inr (Inr ())"

definition kill_children :: "nat list \<Rightarrow> life \<Rightarrow> life" where
  "kill_children children L = L\<lparr>lf_running := filter (\<lambda>m. m \<notin> set (fst (teardown children))) (lf_running L)\<rparr>"

text \<open>
  The run and what follows it: the children are torn down, an error of the run is returned before the
  adapter's guard is shut down, and the guard of the session file is dropped in any case.
\<close>

definition finish_session ::
    "life_env \<Rightarrow> opened \<Rightarrow> cleanup_guard \<Rightarrow> nat list \<times> life \<Rightarrow> (proxy_error + unit) \<times> life" where
  "finish_session env od g st =
     (case serve_child_plans env (map_option snd (od_children od)) (le_late env) st of (children, L) \<Rightarrow>
       (let L = kill_children children L;
            L = L\<lparr>lf_files := guard_drop (le_io env) g (lf_files L)\<rparr>
        in case run_until_shutdown (le_end env) of
             Inl e \<Rightarrow> (Inl (ProxyOption e), L)
           | Inr (Inl e) \<Rightarrow> (Inl (ProxyOption e), L)
           | Inr (Inr _) \<Rightarrow> (Inr (), snd (guard_shutdown (od_adapter od) L))))"

section \<open>The two modes\<close>

text \<open>What is left to the end of the function when the session is open: with an editor.\<close>

definition editor_session :: "life_env \<Rightarrow> cli \<Rightarrow> engine \<Rightarrow> opened \<Rightarrow> life \<Rightarrow> (proxy_error + unit) \<times> life" where
  "editor_session env c en od L =
     (case start_multiplexed_proxy env (od_options od) of
        Inl e \<Rightarrow> (Inl (ProxyOption e), L)
      | Inr port \<Rightarrow>
     (case serve_child_plans env (map_option snd (od_children od)) (le_early env) ([], L) of (children, L) \<Rightarrow>
     (case le_store env of
        Some e \<Rightarrow> (Inl (ProxyEngine (Instances (InstOther (''create sessions dir: '' @ e)))), L)
      | None \<Rightarrow>
     (case open_cleanup env L of (g, L) \<Rightarrow>
     (case port of
        None \<Rightarrow> finish_session env od g (children, L)
      | Some n \<Rightarrow>
          (case engine_set_control_port (od_session od) n en of
             (Inl e, en) \<Rightarrow> (Inl (ProxyEngine e), L)
           | (Inr _, en) \<Rightarrow>
               (case leave_file env c (od_session od) n g L of
                  (Inl e, L) \<Rightarrow> (Inl e, L)
                | (Inr g, L) \<Rightarrow> finish_session env od g (children, L))))))))"

definition headless_config :: "cli \<Rightarrow> engine \<Rightarrow> session_handle \<Rightarrow> init_config" where
  "headless_config c en sh =
     (let config = with_adapter_id (sh_adapter_id sh) (init_config_new (unwrap_or (cli_program c) ''child''))
      in case plugin_get (en_registry en) (sh_adapter_id sh) of Some m \<Rightarrow> with_manifest m config | None \<Rightarrow> config)"

text \<open>Without an editor the proxy drives the adapter through a control client of its own first.\<close>

definition headless_session ::
    "life_env \<Rightarrow> cli \<Rightarrow> string \<Rightarrow> json \<Rightarrow> engine \<Rightarrow> opened \<Rightarrow> life \<Rightarrow> (proxy_error + unit) \<times> life" where
  "headless_session env c request args en od L =
     (case start_headless_multiplexed_proxy env (od_options od) of
        Inl e \<Rightarrow> (Inl (ProxyOption e), L)
      | Inr None \<Rightarrow> (Inl (ProxyOption ''headless proxy requires a control port''), L)
      | Inr (Some port) \<Rightarrow>
     (case serve_child_plans env (map_option snd (od_children od)) (le_early env) ([], L) of (children, L) \<Rightarrow>
     (case map_option client_connect (le_dial env port) of
        Some (Inr client) \<Rightarrow>
     (case run_debug_request (le_host env) (headless_config c en (od_session od)) request args client of
        (Inl e, _) \<Rightarrow> (Inl (ProxyOption ''headless debug request''), L)
      | (Inr _, _) \<Rightarrow>
     (case le_store env of
        Some e \<Rightarrow> (Inl (ProxyEngine (Instances (InstOther (''create sessions dir: '' @ e)))), L)
      | None \<Rightarrow>
     (case open_cleanup env L of (g, L) \<Rightarrow>
     (case leave_file env c (od_session od) port g L of
        (Inl e, L) \<Rightarrow> (Inl e, L)
      | (Inr g, L) \<Rightarrow> finish_session env od g (children, L)))))
      | _ \<Rightarrow> (Inl (ProxyOption ''connect headless control client''), L))))"

text \<open>The target's guard outlives everything else of the run.\<close>

definition close_target :: "process_guard \<Rightarrow> (proxy_error + unit) \<times> life \<Rightarrow> (proxy_error + unit) \<times> life" where
  "close_target g r =
     (case r of
        (Inr _, L) \<Rightarrow> (Inr (), snd (guard_shutdown g L))
      | (Inl e, L) \<Rightarrow> (Inl e, drop_target_guard g L))"

definition run_editor_proxy :: "life_env \<Rightarrow> engine_error + engine \<Rightarrow> cli \<Rightarrow> life \<Rightarrow> (proxy_error + unit) \<times> life" where
  "run_editor_proxy env loaded c L =
     (case loaded of
        Inl e \<Rightarrow> (Inl (ProxyEngine e), L)
      | Inr en \<Rightarrow>
     (case build_launch_options c of
        Inl msg \<Rightarrow> (Inl (ProxyOption msg), L)
      | Inr launch \<Rightarrow>
     (case target_of env c en launch L of
        (Inl e, L) \<Rightarrow> (Inl e, L)
      | (Inr (target, defaults), L) \<Rightarrow> close_target target
          (case open_session env c defaults launch en L of
             (Inl e, en, L) \<Rightarrow> (Inl e, L)
           | (Inr od, en, L) \<Rightarrow> editor_session env c en od L))))"

definition run_headless :: "life_env \<Rightarrow> engine_error + engine \<Rightarrow> cli \<Rightarrow> life \<Rightarrow> (proxy_error + unit) \<times> life" where
  "run_headless env loaded c L =
     (case cli_debug_request c of
        None \<Rightarrow> (Inl (ProxyOption ''--headless requires --debug-request''), L)
      | Some request \<Rightarrow>
     (case le_parse env (cli_debug_args c) of
        None \<Rightarrow> (Inl (ProxyOption ''parse --debug-args as JSON''), L)
      | Some args \<Rightarrow>
     (case loaded of
        Inl e \<Rightarrow> (Inl (ProxyEngine e), L)
      | Inr en \<Rightarrow>
     (case build_launch_options c of
        Inl msg \<Rightarrow> (Inl (ProxyOption msg), L)
      | Inr launch \<Rightarrow>
     (case target_of env c en launch L of
        (Inl e, L) \<Rightarrow> (Inl e, L)
      | (Inr (target, defaults), L) \<Rightarrow>
          (let debug_args = (case defaults of Some d \<Rightarrow> merge_default_attach_arguments args d | None \<Rightarrow> args);
               launch = \<lparr>lo_request = request, lo_program = lo_program launch, lo_adapter = lo_adapter launch,
                         lo_extra = debug_args\<rparr>
           in close_target target
                (case open_session env c defaults launch en L of
                   (Inl e, en, L) \<Rightarrow> (Inl e, L)
                 | (Inr od, en, L) \<Rightarrow> headless_session env c request debug_args en od L)))))))"

definition proxy_main :: "life_env \<Rightarrow> engine_error + engine \<Rightarrow> cli \<Rightarrow> life \<Rightarrow> (proxy_error + unit) \<times> life" where
  "proxy_main env loaded c L =
     (case proxy_mode c of
        Inl msg \<Rightarrow> (Inl (ProxyOption msg), L)
      | Inr HeadlessMode \<Rightarrow> run_headless env loaded c L
      | Inr EditorMode \<Rightarrow> run_editor_proxy env loaded c L)"

section \<open>What an exit leaves behind\<close>

text \<open>A child process whose ready line comes is in the supervisor's list.\<close>

definition reports :: "life_env \<Rightarrow> nat \<Rightarrow> bool" where
  "reports env n \<longleftrightarrow> (case read_child_ready (le_parse env) (le_lines env n) of Inr _ \<Rightarrow> True | Inl _ \<Rightarrow> False)"

text \<open>Every running process is one of the owners' or a child, listed or never reported.\<close>

definition accounted :: "life_env \<Rightarrow> nat set \<Rightarrow> nat list \<times> life \<Rightarrow> bool" where
  "accounted env owned st \<longleftrightarrow>
     (\<forall>n \<in> set (lf_running (snd st)). n \<in> owned \<or> n \<in> set (fst st) \<or> \<not> reports env n)"

lemma start_process_cases:
  obtains e where "start_process env exe args L = (Inl e, L)"
  | L' where "start_process env exe args L = (Inr (lf_started L), L')"
      "lf_running L' = lf_running L @ [lf_started L]" "lf_files L' = lf_files L" "lf_started L' = lf_started L + 1"
  by (cases "le_exec env (lf_started L) exe args") (auto simp: start_process_def)

lemma spawn_child_accounted:
  assumes "accounted env owned st"
  shows "accounted env owned (spawn_child env sv p st)" and "lf_files (snd (spawn_child env sv p st)) = lf_files (snd st)"
proof -
  obtain children L where st: "st = (children, L)" by (cases st)
  show "accounted env owned (spawn_child env sv p st)"
  proof (cases rule: start_process_cases [of env "le_exe env" "child_command_line (le_print env) sv p" L])
    case (2 L')
    then show ?thesis using assms
      by (cases "read_child_ready (le_parse env) (le_lines env (lf_started L))")
         (auto simp: st spawn_child_def accounted_def supervised_spawn_def reports_def)
  qed (use assms in \<open>simp add: st spawn_child_def\<close>)
  show "lf_files (snd (spawn_child env sv p st)) = lf_files (snd st)"
    by (cases rule: start_process_cases [of env "le_exe env" "child_command_line (le_print env) sv p" L])
       (simp_all add: st spawn_child_def)
qed

lemma serve_child_plans_accounted:
  assumes "accounted env owned st"
  shows "accounted env owned (serve_child_plans env sv plans st) \<and>
    lf_files (snd (serve_child_plans env sv plans st)) = lf_files (snd st)"
proof (cases sv)
  case (Some s)
  have "accounted env owned (foldl (\<lambda>st p. spawn_child env s p st) st plans) \<and>
      lf_files (snd (foldl (\<lambda>st p. spawn_child env s p st) st plans)) = lf_files (snd st)"
    using assms by (induction plans arbitrary: st) (simp_all add: spawn_child_accounted)
  then show ?thesis by (simp add: serve_child_plans_def Some)
qed (simp add: serve_child_plans_def assms)

lemma kill_adapter_running: "set (lf_running (kill_adapter_process p L)) = set (lf_running L) - set_option p"
  by (auto simp: kill_adapter_process_def split: option.split)

lemma kill_adapter_files [simp]: "lf_files (kill_adapter_process p L) = lf_files L"
  by (simp add: kill_adapter_process_def split: option.split)

text \<open>The only difference between two states is the process \<open>p\<close> that was started.\<close>

definition adds_process :: "nat option \<Rightarrow> life \<Rightarrow> life \<Rightarrow> bool" where
  "adds_process p L L' \<longleftrightarrow> set (lf_running L') = set (lf_running L) \<union> set_option p \<and> lf_files L' = lf_files L"

lemma adds_none [simp]: "adds_process None L L"
  by (simp add: adds_process_def)

lemma spawn_stdio_adds:
  "spawn_stdio env cmd args L = (Inr p, L') \<Longrightarrow> adds_process p L L'"
  "spawn_stdio env cmd args L = (Inl e, L') \<Longrightarrow> L' = L"
  by (cases rule: start_process_cases [of env cmd args L]; auto simp: spawn_stdio_def adds_process_def)+

lemma open_backend_adds:
  "open_backend env a L = (Inr p, L') \<Longrightarrow> adds_process p L L'"
  "open_backend env a L = (Inl e, L') \<Longrightarrow> L' = L"
  using spawn_stdio_adds [of env _ _ L]
  by (fastforce simp: open_backend_def spawn_tcp_def split: sum.splits backend_start.splits if_splits)+

lemma prepared_id: "prepare_session uuid now launch en = (Inr sh, en') \<Longrightarrow> sh_instance_id sh = uuid"
  by (auto simp: prepare_session_def register_instance_def split: option.splits sum.splits prod.splits if_splits)

lemma open_session_adds:
  assumes "open_session env c d launch en L = (Inr od, en', L')"
  shows "adds_process (pg_process (od_adapter od)) L L'" and "sh_instance_id (od_session od) = le_uuid env"
  using assms
  by (auto simp: open_session_def dest: prepared_id open_backend_adds(1) split: sum.splits prod.splits)

lemma open_session_error_files:
  assumes "open_session env c d launch en L = (Inl e, en', L')"
  shows "lf_files L' = lf_files L"
  using assms open_backend_adds [of env _ L]
  by (fastforce simp: open_session_def adds_process_def split: sum.splits prod.splits)

lemma spawn_rsp_target_adds:
  "spawn_rsp_target env s h port L = (Inr n, L') \<Longrightarrow> adds_process (Some n) L L'"
  "spawn_rsp_target env s h port L = (Inl e, L') \<Longrightarrow> lf_files L' = lf_files L"
  by (cases rule: start_process_cases [of env "ts_command s" "ts_args s" L];
      auto simp: spawn_rsp_target_def adds_process_def split: if_splits)+

lemma target_of_adds:
  "target_of env c en launch L = (Inr (g, d), L') \<Longrightarrow> adds_process (pg_process g) L L'"
  "target_of env c en launch L = (Inl e, L') \<Longrightarrow> lf_files L' = lf_files L"
  by (auto simp: target_of_def open_target_def dest: spawn_rsp_target_adds split: option.splits sum.splits prod.splits)

section \<open>The session file\<close>

lemma try_remove_absent: "hm_get d k = None \<Longrightarrow> hm_get (try_remove io n d) k = None"
  by (simp add: try_remove_def)

lemma read_record_absent:
  assumes "hm_get d k = None" and "read_record decode io n d = (r, d')"
  shows "hm_get d' k = None"
proof -
  have "d' = d \<or> d' = try_remove io n d"
    using assms(2) by (auto simp: read_record_def split: option.splits)
  then show ?thesis using assms(1) try_remove_absent by metis
qed

lemma scan_records_absent:
  "hm_get d k = None \<Longrightarrow> hm_get (snd (scan_records decode w io ns d)) k = None"
proof (induction ns arbitrary: d)
  case (Cons n ns)
  obtain r d' where rd: "read_record decode io n d = (r, d')" by (cases "read_record decode io n d")
  then have d': "hm_get d' k = None" using Cons.prems read_record_absent by metis
  then show ?case
    using Cons.IH [OF Cons.prems] Cons.IH [OF d'] Cons.IH [OF try_remove_absent [OF d']]
    by (cases r) (simp_all add: scan_records.simps(2) rd)
qed simp

lemma open_cleanup_file:
  assumes "open_cleanup env L = (g, L')" and "hm_get (lf_files L) k = None"
  shows "hm_get (lf_files L') k = None \<and> cg_instance_id g = None \<and> lf_running L' = lf_running L"
proof -
  have "hm_get (snd (store_list_active (le_decode env) (le_world env) (le_io env) (lf_files L))) k = None"
    using scan_records_absent [OF assms(2)] assms(2)
    by (simp add: store_list_active_def case_prod_unfold split: option.split)
  then show ?thesis using assms(1) by (auto simp: open_cleanup_def guard_new_def)
qed

lemma leave_file_cases:
  assumes "leave_file env c sh port g L = (r, L')" and "hm_get (lf_files L) (record_path (sh_instance_id sh)) = None"
  shows "lf_running L' = lf_running L \<and>
    (case r of Inl e \<Rightarrow> hm_get (lf_files L') (record_path (sh_instance_id sh)) = None
     | Inr g' \<Rightarrow> cg_instance_id g' = Some (sh_instance_id sh))"
  using assms
  by (auto simp: leave_file_def guard_save_def store_save_def session_file_def guard_arm_def Let_def split: option.splits)

lemma guard_drop_file:
  assumes "le_io env (RemoveFile (record_path i)) = None"
    and "cg_instance_id g = Some i \<or> cg_instance_id g = None \<and> hm_get d (record_path i) = None"
  shows "hm_get (guard_drop (le_io env) g d) (record_path i) = None"
  using assms by (auto simp: guard_drop_def store_delete_def)

section \<open>The ends of a run\<close>

text \<open>
  A good end of the session \<open>i\<close>: its file is gone, and after a normal end nothing runs but the processes
  in \<open>kept\<close> and children that never reported.
\<close>

definition clean_end :: "life_env \<Rightarrow> nat set \<Rightarrow> (proxy_error + unit) \<times> life \<Rightarrow> bool" where
  "clean_end env kept r \<longleftrightarrow> hm_get (lf_files (snd r)) (record_path (le_uuid env)) = None \<and>
     (fst r = Inr () \<longrightarrow> (\<forall>n \<in> set (lf_running (snd r)). n \<in> kept \<or> \<not> reports env n))"

lemma clean_end_error [simp]:
  "clean_end env kept (Inl e, L) \<longleftrightarrow> hm_get (lf_files L) (record_path (le_uuid env)) = None"
  by (simp add: clean_end_def)

lemma finish_session_clean:
  assumes acc: "accounted env (kept \<union> set_option (pg_process (od_adapter od))) st"
    and removable: "le_io env (RemoveFile (record_path (le_uuid env))) = None"
    and g: "cg_instance_id g = Some (le_uuid env) \<or>
      cg_instance_id g = None \<and> hm_get (lf_files (snd st)) (record_path (le_uuid env)) = None"
  shows "clean_end env kept (finish_session env od g st)"
proof -
  obtain children L where ch: "serve_child_plans env (map_option snd (od_children od)) (le_late env) st = (children, L)"
    by fastforce
  have acc': "accounted env (kept \<union> set_option (pg_process (od_adapter od))) (children, L)" "lf_files L = lf_files (snd st)"
    using serve_child_plans_accounted [OF acc, of "map_option snd (od_children od)" "le_late env"] by (simp_all add: ch)
  have absent: "hm_get (guard_drop (le_io env) g (lf_files L)) (record_path (le_uuid env)) = None"
    using guard_drop_file [OF removable] g acc'(2) by simp
  show ?thesis
    using acc'(1) absent
    by (cases "le_end env" rule: run_until_shutdown.cases)
       (auto simp: finish_session_def ch Let_def clean_end_def kill_children_def teardown_def guard_shutdown_def
         kill_adapter_running accounted_def)
qed

text \<open>What both modes do once the control client or the editor is there and the store is open.\<close>

lemma leave_and_finish_clean:
  assumes acc: "accounted env (kept \<union> set_option (pg_process (od_adapter od))) (children, L)"
    and absent: "hm_get (lf_files L) (record_path (le_uuid env)) = None"
    and id: "sh_instance_id (od_session od) = le_uuid env"
    and removable: "le_io env (RemoveFile (record_path (le_uuid env))) = None"
    and g: "open_cleanup env L = (g, L')"
  shows "clean_end env kept (finish_session env od g (children, L'))"
    and "clean_end env kept (case leave_file env c (od_session od) n g L' of
      (Inl e, L) \<Rightarrow> (Inl e, L) | (Inr g, L) \<Rightarrow> finish_session env od g (children, L))"
    and "hm_get (lf_files L') (record_path (le_uuid env)) = None"
proof -
  have L': "hm_get (lf_files L') (record_path (le_uuid env)) = None" "cg_instance_id g = None" "lf_running L' = lf_running L"
    using open_cleanup_file [OF g absent] by simp_all
  have same: "accounted env (kept \<union> set_option (pg_process (od_adapter od))) (children, L3)"
    if "lf_running L3 = lf_running L'" for L3
    using acc that L'(3) by (simp add: accounted_def)
  obtain r L3 where r: "leave_file env c (od_session od) n g L' = (r, L3)" by fastforce
  from leave_file_cases [OF r] L'(1) id
  show "clean_end env kept (case leave_file env c (od_session od) n g L' of
      (Inl e, L) \<Rightarrow> (Inl e, L) | (Inr g, L) \<Rightarrow> finish_session env od g (children, L))"
    by (cases r) (auto simp: r intro!: finish_session_clean same removable)
  show "clean_end env kept (finish_session env od g (children, L'))"
    using L' by (intro finish_session_clean same removable) simp_all
  show "hm_get (lf_files L') (record_path (le_uuid env)) = None" by (rule L'(1))
qed

lemma early_children:
  assumes "set (lf_running L) = kept \<union> a"
    and "serve_child_plans env sv plans ([], L) = (children, L')"
  shows "accounted env (kept \<union> a) (children, L') \<and> lf_files L' = lf_files L"
  using serve_child_plans_accounted [of env "kept \<union> a" "([], L)" sv plans] assms by (simp add: accounted_def)

lemma editor_session_clean:
  assumes L: "set (lf_running L) = kept \<union> set_option (pg_process (od_adapter od))"
    and absent: "hm_get (lf_files L) (record_path (le_uuid env)) = None"
    and id: "sh_instance_id (od_session od) = le_uuid env"
    and removable: "le_io env (RemoveFile (record_path (le_uuid env))) = None"
  shows "clean_end env kept (editor_session env c en od L)"
proof (cases "start_multiplexed_proxy env (od_options od)")
  case (Inr port)
  obtain children L1 where ch: "serve_child_plans env (map_option snd (od_children od)) (le_early env) ([], L) = (children, L1)"
    by fastforce
  note L1 = early_children [OF L ch]
  obtain g L2 where g: "open_cleanup env L1 = (g, L2)" by fastforce
  note tail = leave_and_finish_clean [OF conjunct1 [OF L1] _ id removable g]
  show ?thesis
    using L1 absent tail by (simp add: editor_session_def Inr ch g split: option.split sum.split prod.split)
qed (use absent in \<open>simp add: editor_session_def\<close>)

lemma headless_session_clean:
  assumes L: "set (lf_running L) = kept \<union> set_option (pg_process (od_adapter od))"
    and absent: "hm_get (lf_files L) (record_path (le_uuid env)) = None"
    and id: "sh_instance_id (od_session od) = le_uuid env"
    and removable: "le_io env (RemoveFile (record_path (le_uuid env))) = None"
  shows "clean_end env kept (headless_session env c request args en od L)"
proof (cases "\<exists>port. start_headless_multiplexed_proxy env (od_options od) = Inr (Some port)")
  case True
  then obtain port where port: "start_headless_multiplexed_proxy env (od_options od) = Inr (Some port)" by blast
  obtain children L1 where ch: "serve_child_plans env (map_option snd (od_children od)) (le_early env) ([], L) = (children, L1)"
    by fastforce
  note L1 = early_children [OF L ch]
  obtain g L2 where g: "open_cleanup env L1 = (g, L2)" by fastforce
  note tail = leave_and_finish_clean [OF conjunct1 [OF L1] _ id removable g]
  obtain r L3 where r: "leave_file env c (od_session od) port g L2 = (r, L3)" by fastforce
  show ?thesis
    using L1 absent tail(1,3) tail(2) [of c port]
    by (cases r) (simp_all add: headless_session_def port ch g r split: option.split sum.split prod.split)
qed (use absent in \<open>auto simp: headless_session_def split: sum.split option.split\<close>)

text \<open>The target is killed whatever happens.\<close>

lemma close_target_clean:
  assumes "clean_end env (kept \<union> set_option (pg_process g)) r"
  shows "clean_end env kept (close_target g r)"
  using assms
  by (auto simp: clean_end_def close_target_def guard_shutdown_def drop_target_guard_def kill_adapter_running
      split: prod.split sum.split)

lemma close_target_kills: "pg_process g = Some n \<Longrightarrow> n \<notin> set (lf_running (snd (close_target g r)))"
  by (auto simp: close_target_def guard_shutdown_def drop_target_guard_def kill_adapter_running
      split: prod.split sum.split)

lemma opened_session_clean:
  assumes "adds_process t L0 L" and "lf_running L0 = []"
    and "hm_get (lf_files L0) (record_path (le_uuid env)) = None"
    and "le_io env (RemoveFile (record_path (le_uuid env))) = None"
    and run: "\<And>en od L. set (lf_running L) = set_option t \<union> set_option (pg_process (od_adapter od)) \<Longrightarrow>
      hm_get (lf_files L) (record_path (le_uuid env)) = None \<Longrightarrow> sh_instance_id (od_session od) = le_uuid env \<Longrightarrow>
      clean_end env (set_option t) (f en od L)"
  shows "clean_end env (set_option t) (case open_session env c d launch en L of
      (Inl e, en, L) \<Rightarrow> (Inl e, L) | (Inr od, en, L) \<Rightarrow> f en od L)"
proof -
  obtain r en' L' where r: "open_session env c d launch en L = (r, en', L')" by (metis prod_cases3)
  show ?thesis
  proof (cases r)
    case (Inl e)
    then show ?thesis using open_session_error_files assms(1,3) r by (simp add: adds_process_def)
  next
    case (Inr od)
    then show ?thesis
      using open_session_adds [of env c d launch en L od en' L'] assms(1,2,3) r
      by (auto simp: adds_process_def intro!: run)
  qed
qed

section \<open>The two modes from their start\<close>

text \<open>The process of the target the run starts, if it starts one.\<close>

definition target_process :: "life_env \<Rightarrow> engine_error + engine \<Rightarrow> cli \<Rightarrow> life \<Rightarrow> nat option" where
  "target_process env loaded c L =
     (case (loaded, build_launch_options c) of
        (Inr en, Inr launch) \<Rightarrow>
          (case target_of env c en launch L of (Inr (g, d), L) \<Rightarrow> pg_process g | _ \<Rightarrow> None)
      | _ \<Rightarrow> None)"

lemma run_editor_clean:
  assumes start: "lf_running L = []" "hm_get (lf_files L) (record_path (le_uuid env)) = None"
    and removable: "le_io env (RemoveFile (record_path (le_uuid env))) = None"
  shows "clean_end env {} (run_editor_proxy env loaded c L) \<and>
    (\<forall>n. target_process env loaded c L = Some n \<longrightarrow> n \<notin> set (lf_running (snd (run_editor_proxy env loaded c L))))"
proof (cases "\<exists>en launch. loaded = Inr en \<and> build_launch_options c = Inr launch")
  case True
  then obtain en launch where l: "loaded = Inr en" "build_launch_options c = Inr launch" by blast
  show ?thesis
  proof (cases "target_of env c en launch L")
    case (Pair r L1)
    show ?thesis
    proof (cases r)
      case (Inl e)
      then show ?thesis using target_of_adds(2) [of env c en launch L e L1] Pair l start(2)
        by (simp add: run_editor_proxy_def target_process_def)
    next
      case (Inr gd)
      obtain g d where gd: "gd = (g, d)" by (cases gd)
      have t: "target_of env c en launch L = (Inr (g, d), L1)" using Pair Inr gd by simp
      have body: "clean_end env (set_option (pg_process g)) (case open_session env c d launch en L1 of
          (Inl e, en, L) \<Rightarrow> (Inl e, L) | (Inr od, en, L) \<Rightarrow> editor_session env c en od L)"
        using target_of_adds(1) [OF t] start removable by (rule opened_session_clean) (rule editor_session_clean, simp_all add: removable)
      show ?thesis
        using close_target_clean [of env "{}" g] close_target_kills [of g] body l t
        by (simp add: run_editor_proxy_def target_process_def)
    qed
  qed
qed (use start in \<open>auto simp: run_editor_proxy_def target_process_def split: sum.split\<close>)

lemma run_headless_clean:
  assumes start: "lf_running L = []" "hm_get (lf_files L) (record_path (le_uuid env)) = None"
    and removable: "le_io env (RemoveFile (record_path (le_uuid env))) = None"
  shows "clean_end env {} (run_headless env loaded c L) \<and>
    (\<forall>n. target_process env loaded c L = Some n \<longrightarrow> n \<notin> set (lf_running (snd (run_headless env loaded c L))))"
proof (cases "\<exists>request args en launch. cli_debug_request c = Some request \<and> le_parse env (cli_debug_args c) = Some args \<and>
    loaded = Inr en \<and> build_launch_options c = Inr launch")
  case True
  then obtain request args en launch where l: "cli_debug_request c = Some request"
      "le_parse env (cli_debug_args c) = Some args" "loaded = Inr en" "build_launch_options c = Inr launch" by blast
  show ?thesis
  proof (cases "target_of env c en launch L")
    case (Pair r L1)
    show ?thesis
    proof (cases r)
      case (Inl e)
      then show ?thesis using target_of_adds(2) [of env c en launch L e L1] Pair l start(2)
        by (simp add: run_headless_def target_process_def)
    next
      case (Inr gd)
      obtain g d where gd: "gd = (g, d)" by (cases gd)
      have t: "target_of env c en launch L = (Inr (g, d), L1)" using Pair Inr gd by simp
      have body: "clean_end env (set_option (pg_process g)) (case open_session env c d launch' en L1 of
          (Inl e, en, L) \<Rightarrow> (Inl e, L) | (Inr od, en, L) \<Rightarrow> headless_session env c request a en od L)" for launch' a
        using target_of_adds(1) [OF t] start removable by (rule opened_session_clean) (rule headless_session_clean, simp_all add: removable)
      show ?thesis
        using close_target_clean [of env "{}" g] close_target_kills [of g] body l t
        by (simp add: run_headless_def target_process_def Let_def)
    qed
  qed
qed (use start in \<open>auto simp: run_headless_def target_process_def split: sum.split option.split\<close>)

section \<open>The setup alone\<close>

text \<open>
  Without the processes the setup is that of \<open>ProxyMain\<close>: the same error, or the same session, options
  and child sessions.
\<close>

definition setup_env :: "life_env \<Rightarrow> life \<Rightarrow> proxy_env" where
  "setup_env env L =
     \<lparr>pe_host = le_host env, pe_start_target = (\<lambda>s h port. fst (spawn_rsp_target env s h port L)),
      pe_backend = (\<lambda>a. map_sum id (\<lambda>_. ()) (fst (open_backend env a L))), pe_load_profile = le_load_profile env,
      pe_uuid = le_uuid env, pe_now = le_now env, pe_pid = le_pid env\<rparr>"

definition parts_of :: "proxy_parts \<Rightarrow> session_handle \<times> mux_options \<times> (child_bridge \<times> supervisor) option" where
  "parts_of pp = (pp_session pp, pp_options pp, pp_children pp)"

definition opened_of :: "opened \<Rightarrow> session_handle \<times> mux_options \<times> (child_bridge \<times> supervisor) option" where
  "opened_of od = (od_session od, od_options od, od_children od)"

lemma open_session_assembles:
  assumes "open_session env c d launch en L = (r, en', L')"
    and "assemble_proxy (setup_env env L) c d launch en = (r', en'')"
  shows "map_sum id opened_of r = map_sum id parts_of r' \<and> en' = en''"
  using assms
  by (auto simp: open_session_def assemble_proxy_def setup_env_def opened_of_def parts_of_def
      split: sum.splits prod.splits)

lemma target_of_defaults:
  "map_sum id snd (fst (target_of env c en launch L)) = target_defaults (setup_env env L) c en launch"
  by (auto simp: target_of_def open_target_def target_defaults_def prepare_rsp_target_def setup_env_def
      split: option.split sum.split prod.split)

text \<open>
  An error of the run is returned before the adapter's guard is shut down, and the adapter's process
  was not started to die with its handle: it is left running.
\<close>

lemma error_leaves_adapter:
  assumes "pg_process (od_adapter od) = Some n" and "n \<in> set (lf_running L)" and "n \<notin> set children"
    and "od_children od = None" and "run_until_shutdown (le_end env) = Inr (Inl e)"
  shows "n \<in> set (lf_running (snd (finish_session env od g (children, L))))"
  using assms by (simp add: finish_session_def serve_child_plans_def kill_children_def teardown_def Let_def)

end
