(* ===== verification/ProxyTasks.thy ===== *)
theory ProxyTasks imports ProxyExit ProxyLife begin

text \<open>
  The tasks of \<open>dap-core/src/mux_bridge.rs\<close> from their start to their result. \<open>run_client_bridge\<close> reads a
  connection until it ends or has been idle for too long; what arrives, in order, are the events of
  \<open>ProxySystem\<close>. \<open>start_multiplexed_proxy\<close> attaches the editor, and its task shuts the bridge of the
  adapter down when the editor's bridge has ended.
\<close>

section \<open>Reading a client\<close>

datatype client_bridge_mode = EditorBridge | ControlBridge

text \<open>Only the editor's bridge has an idle timeout.\<close>

definition idle_timeout :: "client_bridge_mode \<Rightarrow> nat option \<Rightarrow> nat option" where
  "idle_timeout mode client_idle_timeout =
     (case mode of EditorBridge \<Rightarrow> client_idle_timeout | ControlBridge \<Rightarrow> None)"

text \<open>
  \<open>ingest\<close>: the turns of the reader for what arrives, with an elapsed timeout as an arrival of its own,
  and how it ended. It is still waiting when the list is at its end.
\<close>

datatype task_end = Waiting | TaskOk | TaskError string

fun ingest :: "nat option \<Rightarrow> int \<Rightarrow> arrival list \<Rightarrow> system_event list \<times> task_end" where
  "ingest timeout i [] = ([], Waiting)"
| "ingest timeout i (Arrives m # w) = apfst ((#) (ClientSays i m)) (ingest timeout i w)"
| "ingest timeout i (Closed # w) = ([ClientLeaves i], TaskOk)"
| "ingest timeout i (Broken e # w) = ([ClientLeaves i], TaskError e)"
| "ingest timeout i (Elapsed # w) = (if timeout \<noteq> None then ([ClientLeaves i], TaskOk) else ingest timeout i w)"

text \<open>The result of the bridge once both tasks have ended: an error of the reader first.\<close>

fun client_bridge_result :: "task_end \<Rightarrow> task_end \<Rightarrow> (string + unit) option" where
  "client_bridge_result (TaskError e) TaskOk = Some (Inl e)"
| "client_bridge_result (TaskError e) (TaskError e') = Some (Inl e)"
| "client_bridge_result TaskOk (TaskError e) = Some (Inl e)"
| "client_bridge_result TaskOk TaskOk = Some (Inr ())"
| "client_bridge_result _ _ = None"

text \<open>What a client says is read in order, and its bridge stops reading exactly when the reader has ended.\<close>

definition said_by :: "int \<Rightarrow> system_event list \<Rightarrow> message list" where
  "said_by i es = List.map_filter (\<lambda>e. case e of ClientSays j m \<Rightarrow> if j = i then Some m else None | _ \<Rightarrow> None) es"

fun until_end :: "nat option \<Rightarrow> arrival list \<Rightarrow> message list" where
  "until_end timeout [] = []"
| "until_end timeout (Arrives m # w) = m # until_end timeout w"
| "until_end timeout (Elapsed # w) = (if timeout \<noteq> None then [] else until_end timeout w)"
| "until_end timeout (_ # w) = []"

lemma ingest_said: "said_by i (fst (ingest timeout i w)) = until_end timeout w"
  by (induction timeout i w rule: ingest.induct) (simp_all add: said_by_def List.map_filter_def)

lemma ingest_leaves:
  "ClientLeaves i \<in> set (fst (ingest timeout i w)) \<longleftrightarrow> snd (ingest timeout i w) \<noteq> Waiting"
  by (induction timeout i w rule: ingest.induct) auto

text \<open>Without a timeout silence never ends a bridge, so a control client may be idle for ever.\<close>

lemma ingest_idle:
  "\<forall>a \<in> set w. a = Elapsed \<or> (\<exists>m. a = Arrives m) \<Longrightarrow> snd (ingest (idle_timeout ControlBridge t) i w) = Waiting"
  by (induction w) (auto simp: idle_timeout_def)

section \<open>Attaching\<close>

text \<open>
  \<open>MultiplexSession::attach\<close>: the request is queued behind what the clients have sent, and the reply
  comes when the loop has taken it, if the loop gets that far.
\<close>

definition take_ops :: "proxy_system \<Rightarrow> proxy_system" where
  "take_ops S = (take_op ^^ length (px_ops S)) S"

definition session_attach :: "client_role \<Rightarrow> proxy_system \<Rightarrow> (string + int) \<times> proxy_system" where
  "session_attach role S =
     (if \<not> loop_running S then (Inl ''session loop stopped'', S)
      else let T = take_ops (S\<lparr>px_ops := px_ops S @ [Attach role]\<rparr>)
        in (if loop_running T then Inr (last_id T) else Inl ''session loop stopped'', T))"

text \<open>\<open>MultiplexSession::send\<close> and \<open>detach\<close> only need the loop's end of the queue.\<close>

definition session_send :: "session_op \<Rightarrow> proxy_system \<Rightarrow> (mux_error + unit) \<times> proxy_system" where
  "session_send op S =
     (if loop_running S then (Inr (), S\<lparr>px_ops := px_ops S @ [op]\<rparr>) else (Inl ClientNotFound, S))"

section \<open>The proxy with an editor\<close>

text \<open>
  The listener, then the editor's attach, after whatever the tasks have done by then; and the shutdown
  once the editor's bridge has ended: the bridge of the adapter is told, and after at most three seconds,
  in which the other tasks go on with the events of \<open>window\<close>, the loop is aborted.
\<close>

definition start_editor_system ::
    "(nat \<Rightarrow> string + nat) \<Rightarrow> mux_options \<Rightarrow> proxy_config \<Rightarrow> system_event list \<Rightarrow> string + nat option \<times> int \<times> proxy_system" where
  "start_editor_system bind o1 k es =
     (case (case mo_control_port o1 of None \<Rightarrow> Inr None | Some port \<Rightarrow> map_sum id Some (bind port)) of
        Inl e \<Rightarrow> Inl e
      | Inr port \<Rightarrow>
          (case session_attach Editor (run_proxy k es) of
             (Inl e, S) \<Rightarrow> Inl e
           | (Inr i, S) \<Rightarrow> Inr (port, i, S)))"

definition abort_loop :: "proxy_system \<Rightarrow> proxy_system" where
  "abort_loop S = (if loop_running S then S\<lparr>px_loop := Ended (mux_session S) None\<rparr> else S)"

definition backend_shutdown :: "proxy_config \<Rightarrow> system_event list \<Rightarrow> proxy_system \<Rightarrow> proxy_system" where
  "backend_shutdown k window S = foldl (system_step k) (system_step k S Shutdown) window"

definition close_editor_system :: "proxy_config \<Rightarrow> system_event list \<Rightarrow> proxy_system \<Rightarrow> proxy_system" where
  "close_editor_system k window S = abort_loop (backend_shutdown k window S)"

section \<open>After the attach\<close>

lemma take_op_ended: "\<not> loop_running S \<Longrightarrow> take_op S = S"
  by (simp add: take_op_def split: list.split)

lemma take_ops_ended: "\<not> loop_running S \<Longrightarrow> (take_op ^^ n) S = S"
  by (induction n) (simp_all add: take_op_ended)

lemma take_ops_running:
  assumes "loop_running ((take_op ^^ n) S)" and "n \<le> length (px_ops S)"
  shows "px_ops ((take_op ^^ n) S) = drop n (px_ops S)"
  using assms
proof (induction n)
  case (Suc n)
  let ?T = "(take_op ^^ n) S"
  have running: "loop_running ?T" using Suc.prems(1) take_op_ended [of ?T] by (cases "loop_running ?T") simp_all
  then have ops: "px_ops ?T = drop n (px_ops S)" using Suc by simp
  then obtain op ops where "px_ops ?T = op # ops" "ops = drop (Suc n) (px_ops S)"
    using Suc.prems(2) by (metis Cons_nth_drop_Suc Suc_le_lessD)
  then show ?case using take_op_running(1) [OF _ running] by simp
qed simp

text \<open>An attach that is answered gives the client a bridge that is fresh, and that is the last one given.\<close>

lemma session_attached:
  assumes "session_attach role S = (Inr i, T)"
  shows "i = last_id T \<and> px_ops T = [] \<and> hm_get (px_clients T) i = Some (new_port role (mux_session T) i)"
proof -
  let ?S = "S\<lparr>px_ops := px_ops S @ [Attach role]\<rparr>" and ?n = "length (px_ops S)"
  have T: "T = take_op ((take_op ^^ ?n) ?S)" "loop_running T" "i = last_id T"
    using assms by (auto simp: session_attach_def take_ops_def Let_def split: if_splits)
  let ?U = "(take_op ^^ ?n) ?S"
  have running: "loop_running ?U" using T(1,2) take_op_ended [of ?U] by (cases "loop_running ?U") simp_all
  then have ops: "px_ops ?U = [Attach role]" using take_ops_running [of ?n ?S] by simp
  let ?V = "take_input (Op (Attach role)) (?U\<lparr>px_ops := []\<rparr>)"
  have "T = ?V\<lparr>px_clients := hm_insert (ss_next_client (mux_session ?V))
      (new_port role (mux_session ?V) (ss_next_client (mux_session ?V))) (px_clients ?V)\<rparr>"
    using T(1) ops running by (simp add: take_op_def Let_def)
  then show ?thesis using T(3) by (simp add: last_id_def)
qed

section \<open>After the editor\<close>

text \<open>The requests the adapter has got, and that they stay as they are once its writer has stopped.\<close>

definition requests_sent :: "proxy_system \<Rightarrow> message list" where
  "requests_sent S = filter is_request (px_wire S)"

lemma stopped_step:
  assumes "\<not> px_writing S"
  shows "\<not> px_writing (system_step k S e) \<and> requests_sent (system_step k S e) = requests_sent S"
proof (cases e)
  case (AdapterSays m spawn run)
  have "\<not> is_request reply" if "bridge_backend_message env m n = (Inl reply, n')" for env n n' reply
    using bridge_backend_reply [OF that] is_response_reply by blast
  then show ?thesis using AdapterSays assms
    by (auto simp: read_adapter_def requests_sent_def split: prod.split sum.split)
qed (use assms in \<open>auto simp: requests_sent_def read_client_def client_leaves_def client_broken_def write_client_def
    write_adapter_def take_op_def take_value_def Let_def split: option.split sum.split list.split session_op.split\<close>)

lemma stopped_run:
  "\<not> px_writing S \<Longrightarrow> requests_sent (foldl (system_step k) S es) = requests_sent S"
proof (induction es arbitrary: S)
  case (Cons e es)
  then show ?case using stopped_step [OF Cons.prems, of k e] by simp
qed simp

lemma loop_running_simps [simp]:
  "loop_running (on_port i f S) = loop_running S"
  "loop_running (S\<lparr>px_ops := a\<rparr>) = loop_running S" "loop_running (S\<lparr>px_values := b\<rparr>) = loop_running S"
  "loop_running (S\<lparr>px_reading := c\<rparr>) = loop_running S" "loop_running (S\<lparr>px_heard := d\<rparr>) = loop_running S"
  "loop_running (S\<lparr>px_children := n\<rparr>) = loop_running S" "loop_running (S\<lparr>px_writing := w\<rparr>) = loop_running S"
  "loop_running (S\<lparr>px_taken := t\<rparr>) = loop_running S" "loop_running (S\<lparr>px_wire := m\<rparr>) = loop_running S"
  "loop_running (S\<lparr>px_clients := cs\<rparr>) = loop_running S"
  by (simp_all add: loop_running_def)

lemma ended_take_input [simp]: "\<not> loop_running S \<Longrightarrow> \<not> loop_running (take_input x S)"
  by (cases "px_loop S") (simp_all add: loop_running_def)

lemma ended_step: "\<not> loop_running S \<Longrightarrow> \<not> loop_running (system_step k S e)"
  by (cases e) (auto simp: take_op_ended read_client_def client_leaves_def client_broken_def write_client_def
      read_adapter_def stop_writing_def say_goodbye_def write_adapter_def take_value_def Let_def
      split: option.split sum.split prod.split list.split)

lemma stopped_stays:
  "\<not> px_writing S \<Longrightarrow> \<not> px_writing (foldl (system_step k) S es)"
proof (induction es arbitrary: S)
  case (Cons e es)
  then show ?case using stopped_step [OF Cons.prems, of k e] by simp
qed simp

lemma shut_down:
  "\<not> px_writing (system_step k S Shutdown) \<and>
   requests_sent (system_step k S Shutdown) = requests_sent S @ (if px_writing S then [request_adapter_disconnect] else [])"
  by (simp add: requests_sent_def say_goodbye_def stop_writing_def request_adapter_disconnect_def)

lemma closed_system:
  "\<not> px_writing (close_editor_system k window S) \<and> \<not> loop_running (close_editor_system k window S) \<and>
   requests_sent (close_editor_system k window S) = requests_sent S @ (if px_writing S then [request_adapter_disconnect] else [])"
  using stopped_stays [of "system_step k S Shutdown" k window] stopped_run [of "system_step k S Shutdown" k window] shut_down [of k S]
  by (simp add: close_editor_system_def backend_shutdown_def abort_loop_def requests_sent_def loop_running_def)


end
