(* ===== verification/ProxyServe.thy ===== *)
theory ProxyServe imports ProxyTasks begin

text \<open>
  The outer functions of \<open>dap-core/src/mux_bridge.rs\<close>: running a proxy with an editor from its start to
  its result, the connections of the control listener, and the plain request over a connection that
  tests and tools use.
\<close>

section \<open>Options\<close>

definition mux_options_default :: mux_options where
  "mux_options_default =
     \<lparr>mo_control_port = Some 0, mo_client_idle_timeout = None, mo_plugin_context = None, mo_attach_defaults = None\<rparr>"

section \<open>Running a proxy with an editor\<close>

text \<open>
  One course of the proxy: the events before the editor is attached, those until its bridge has ended
  and those of the shutdown, and how the two tasks of its bridge end.
\<close>

record editor_course =
  ec_before :: "system_event list"
  ec_during :: "system_event list"
  ec_window :: "system_event list"
  ec_reader :: task_end
  ec_writer :: task_end

text \<open>The task that is joined: the bridge, then the shutdown, and the result of the bridge.\<close>

definition editor_task :: "proxy_config \<Rightarrow> editor_course \<Rightarrow> proxy_system \<Rightarrow> (string + unit) option \<times> proxy_system" where
  "editor_task k c S =
     (let T = foldl (system_step k) S (ec_during c)
      in case client_bridge_result (ec_reader c) (ec_writer c) of
           None \<Rightarrow> (None, T)
         | Some r \<Rightarrow> (Some r, close_editor_system k (ec_window c) T))"

definition run_multiplexed_proxy ::
    "(nat \<Rightarrow> string + nat) \<Rightarrow> mux_options \<Rightarrow> proxy_config \<Rightarrow> editor_course \<Rightarrow> (string + nat option) option \<times> proxy_system" where
  "run_multiplexed_proxy bind o1 k c =
     (case start_editor_system bind o1 k (ec_before c) of
        Inl e \<Rightarrow> (Some (Inl e), run_proxy k (ec_before c))
      | Inr (port, i, S) \<Rightarrow> apfst (map_option (map_sum id (\<lambda>_. port))) (editor_task k c S))"

section \<open>Control connections\<close>

text \<open>
  The accept loop ends at the first error of \<open>accept\<close>; each connection before that gets a task of its
  own. The task attaches a control client, runs its bridge without an idle timeout, and detaches once more
  when the bridge has ended; without an attach the connection is dropped.
\<close>

fun accept_loop :: "(string + 'stream) list \<Rightarrow> 'stream list" where
  "accept_loop [] = []"
| "accept_loop (Inr stream # later) = stream # accept_loop later"
| "accept_loop (Inl e # later) = []"

definition serve_connection :: "arrival list \<Rightarrow> string + int \<Rightarrow> system_event list" where
  "serve_connection stream attached =
     (case attached of
        Inl e \<Rightarrow> []
      | Inr i \<Rightarrow>
          (let (es, end) = ingest (idle_timeout ControlBridge None) i stream
           in if end = Waiting then es else es @ [ClientLeaves i]))"

text \<open>The second detach of a connection finds no client and changes nothing in the session.\<close>

lemma detach_twice: "detach i (detach i s) = detach i s"
  by (simp add: detach_def AList.delete_eq filter_filter)

lemma serve_connection_said: "said_by i (serve_connection stream (Inr i)) = until_end None stream"
proof -
  have leaves: "said_by i (es @ [ClientLeaves i]) = said_by i es" for es
    by (simp add: said_by_def List.map_filter_def)
  show ?thesis using ingest_said [of i None stream]
    by (auto simp: serve_connection_def idle_timeout_def leaves split: prod.split)
qed

lemma accept_loop_prefix: "accept_loop as = map projr (takeWhile (\<lambda>a. \<not> isl a) as)"
  by (induction as rule: accept_loop.induct) auto

section \<open>A plain request\<close>

definition connect_control_client :: "(nat \<Rightarrow> string + arrival list) \<Rightarrow> nat \<Rightarrow> string + arrival list" where
  "connect_control_client connect port =
     (case connect port of
        Inl e \<Rightarrow> Inl (''connect control attach port '' @ show_nat port)
      | Inr stream \<Rightarrow> Inr stream)"

text \<open>The wait has no deadline and keeps nothing of what it passes over.\<close>

definition roundtrip_request ::
    "int \<Rightarrow> string \<Rightarrow> json option \<Rightarrow> string option \<Rightarrow> arrival list \<Rightarrow> (string + message) \<times> message list \<times> arrival list" where
  "roundtrip_request n cmd args write_error w =
     (case write_error of
        Some e \<Rightarrow> (Inl e, [], w)
      | None \<Rightarrow>
          (case await_message False (response_matches_seq n) w of
             (passed, r, w') \<Rightarrow>
               (case r of
                  Found m \<Rightarrow> Inr m
                | StreamError e \<Rightarrow> Inl e
                | _ \<Rightarrow> Inl (''channel closed before response to '' @ cmd),
                [Request \<lparr>rq_seq = n, rq_command = cmd, rq_arguments = args\<rparr>], w')))"

text \<open>
  The reply is the first of its number among what arrives, and what came before it is lost, where the
  client's own request has the same reply and keeps the rest.
\<close>

lemma roundtrip_reply:
  assumes "list_all (\<lambda>m. \<not> response_matches_seq n m) before" and "response_matches_seq n m"
  shows "roundtrip_request n cmd args None (map Arrives before @ Arrives m # w) =
    (Inr m, [Request \<lparr>rq_seq = n, rq_command = cmd, rq_arguments = args\<rparr>], w)"
  using await_first [OF assms, of False w] by (simp add: roundtrip_request_def)

section \<open>After the run\<close>

text \<open>
  However the run of a proxy with an editor ends, once it has a result the bridge to the adapter is closed
  and the loop is over, and the port it reports is the one of its listener.
\<close>

lemma editor_task_over:
  "editor_task k c S = (Some r, T) \<Longrightarrow> \<not> px_writing T \<and> \<not> loop_running T"
  using closed_system by (auto simp: editor_task_def Let_def split: option.splits)

lemma run_multiplexed_over:
  assumes "run_multiplexed_proxy bind o1 k c = (Some (Inr port), T)"
  shows "\<not> px_writing T \<and> \<not> loop_running T \<and>
    (case mo_control_port o1 of None \<Rightarrow> port = None | Some p \<Rightarrow> \<exists>bound. bind p = Inr bound \<and> port = Some bound)"
proof -
  obtain q i S where start: "start_editor_system bind o1 k (ec_before c) = Inr (q, i, S)"
    using assms by (auto simp: run_multiplexed_proxy_def split: sum.splits)
  obtain r U where task: "editor_task k c S = (r, U)" by fastforce
  with assms start have r: "map_option (map_sum id (\<lambda>_. q)) r = Some (Inr port)" "U = T"
    by (simp_all add: run_multiplexed_proxy_def)
  then obtain x where x: "r = Some x" "map_sum id (\<lambda>_. q) x = Inr port" by auto
  then have "port = q" by (cases x) simp_all
  moreover have "case mo_control_port o1 of None \<Rightarrow> q = None | Some p \<Rightarrow> \<exists>bound. bind p = Inr bound \<and> q = Some bound"
  proof (cases "mo_control_port o1")
    case None
    then show ?thesis using start by (auto simp: start_editor_system_def split: sum.splits prod.splits)
  next
    case (Some p)
    then show ?thesis using start by (cases "bind p") (auto simp: start_editor_system_def split: sum.splits prod.splits)
  qed
  ultimately show ?thesis using editor_task_over [of k c S x T] task x(1) r(2) by (cases "mo_control_port o1") simp_all
qed

end
