(* ===== verification/ProxyAnswer.thy ===== *)
theory ProxyAnswer imports ProxyExit begin

text \<open>
  A request of a client on its way through the whole proxy and its answer on the way back
  (\<open>dap-core/src/mux_bridge.rs\<close> and the loop of \<open>protocol-mux\<close>). The way has five stages, each with the
  task whose turns it waits for: the operation waits for the loop, the value the loop sends on waits
  for the bridge of the adapter, the request waits for the adapter, the adapter's response waits for
  the loop, and what the loop delivers waits for the bridge of the client.
\<close>

section \<open>What is supposed of the rest\<close>

text \<open>The tasks a client needs are up: the loop, both tasks of the adapter's bridge, its own writer.\<close>

definition serving :: "int \<Rightarrow> proxy_system \<Rightarrow> bool" where
  "serving i S \<longleftrightarrow> loop_running S \<and> px_reading S \<and> px_writing S \<and>
     (\<exists>c. hm_get (ss_clients (mux_session S)) i = Some c \<and> cs_role c \<noteq> Editor \<and> cs_open c) \<and>
     (\<exists>p. hm_get (px_clients S) i = Some p \<and> pt_writing p)"

definition fit :: "proxy_config \<Rightarrow> proxy_system \<Rightarrow> bool" where
  "fit k S \<longleftrightarrow> ids_left S \<and> seated S \<and> system_ok k S \<and> ss_backend_seq (mux_session S) < i64_max"

lemma fit_parts:
  assumes "fit k S"
  shows "ids_left S" "boxes_ok S" "session_ok (mux_session S)" "ss_backend_seq (mux_session S) < i64_max"
    "hm_get (px_clients S) i = Some p \<Longrightarrow> i \<le> last_id S \<and> pt_taken p \<le> length (pt_inbox p)"
    "px_taken S \<le> length (ss_upstream (mux_session S))"
proof -
  show "i \<le> last_id S \<and> pt_taken p \<le> length (pt_inbox p)" if "hm_get (px_clients S) i = Some p"
    using assms that map_of_SomeD [OF that]
    by (auto simp: fit_def seated_def has_bridge_def system_ok_def list_all_iff port_ok_def)
qed (use assms in \<open>simp_all add: fit_def ids_left_def system_ok_def channels_ok_def mux_session_def\<close>)

section \<open>What one turn gives to the loop\<close>

text \<open>A turn gives the loop at most one input, and the values of the adapter and the operations in their order.\<close>

definition input_of :: "system_event \<Rightarrow> proxy_system \<Rightarrow> session_input \<Rightarrow> bool" where
  "input_of e S x \<longleftrightarrow>
     (case x of
        FromUpstream v \<Rightarrow> e = TakeValue \<and> (\<exists>vs. px_values S = v # vs)
      | Op op \<Rightarrow> e = TakeOp \<and> (\<exists>ops. px_ops S = op # ops)
      | _ \<Rightarrow> True)"

lemma step_loop:
  "px_loop (system_step k S e) = px_loop S \<or>
   (\<exists>x. px_loop (system_step k S e) = loop_step (px_loop S) x \<and> input_of e S x)"
proof -
  have eqI: "(\<exists>x. l = loop_step (px_loop S) x \<and> input_of e S x)" if "l = loop_step (px_loop S) y" "input_of e S y" for l y
    using that by blast
  show ?thesis
  proof (cases e)
    case TakeOp
    then show ?thesis
      by (cases "px_ops S"; cases "hd (px_ops S)")
        (auto simp: take_op_def Let_def input_of_def intro!: eqI)
  next
    case TakeValue
    then show ?thesis
      by (cases "px_values S") (auto simp: take_value_def input_of_def intro: eqI [of _ UpstreamClosed] eqI)
  next
    case (ClientDropsEvents i)
    then show ?thesis by (auto simp: input_of_def intro: eqI [of _ "EventsDropped i"])
  next
    case (ClientBroken i)
    then show ?thesis by (auto simp: client_broken_def input_of_def intro: eqI [of _ "RecvDropped i"])
  next
    case (WriteClient i)
    then show ?thesis
      by (auto simp: write_client_def client_broken_def input_of_def intro: eqI [of _ "RecvDropped i"] split: option.split)
  qed (auto simp: read_client_def client_leaves_def read_adapter_def stop_writing_def say_goodbye_def write_adapter_def
      Let_def input_of_def intro: eqI [of _ UpstreamDropped] split: option.split sum.split prod.split)
qed

section \<open>Waiting for the answer\<close>

definition owned :: "int \<Rightarrow> int \<Rightarrow> int \<Rightarrow> proxy_system \<Rightarrow> bool" where
  "owned i n b S \<longleftrightarrow> owner (mux_session S) b = Some (ToClient i n)"

text \<open>The channel of the client, with at least the first \<open>q\<close> values.\<close>

definition room_at :: "int \<Rightarrow> nat \<Rightarrow> proxy_system \<Rightarrow> bool" where
  "room_at i q S \<longleftrightarrow> (\<exists>p. hm_get (px_clients S) i = Some p \<and> q \<le> length (pt_inbox p))"

text \<open>The request has got the number \<open>b\<close> and was sent on as \<open>u\<close>, and its response is still expected.\<close>

definition awaiting :: "int \<Rightarrow> int \<Rightarrow> nat \<Rightarrow> int \<Rightarrow> json \<Rightarrow> proxy_system \<Rightarrow> bool" where
  "awaiting i n q b u S \<longleftrightarrow> owned i n b S \<and> room_at i q S \<and> u \<in> set (ss_upstream (mux_session S))"

text \<open>The response is on the channel of the client, after the first \<open>q\<close> values and not yet written.\<close>

definition came :: "int \<Rightarrow> int \<Rightarrow> nat \<Rightarrow> int \<Rightarrow> json \<Rightarrow> proxy_system \<Rightarrow> bool" where
  "came i n q b u S \<longleftrightarrow> u \<in> set (ss_upstream (mux_session S)) \<and>
     (\<exists>p j r. hm_get (px_clients S) i = Some p \<and> q \<le> j \<and> pt_taken p \<le> j \<and> j < length (pt_inbox p) \<and>
        pt_inbox p ! j = set_request_seq n r \<and> answers b (FromUpstream r))"

lemma room_step:
  assumes "fit k S" and "room_at i q S"
  shows "room_at i q (system_step k S e)"
proof -
  obtain p where p: "hm_get (px_clients S) i = Some p" "q \<le> length (pt_inbox p)"
    using assms(2) by (auto simp: room_at_def)
  then obtain p' where "hm_get (px_clients (system_step k S e)) i = Some p'" "prefix (pt_inbox p) (pt_inbox p')"
    using system_step_moved [OF fit_parts(1) [OF assms(1)], of i k e] fit_parts(5) [OF assms(1) p(1)]
    by (auto simp: moved_def)
  then show ?thesis using p(2) prefix_length_le by (fastforce simp: room_at_def)
qed

lemma upstream_step:
  "\<exists>us. ss_upstream (mux_session (system_step k S e)) = ss_upstream (mux_session S) @ us"
proof -
  consider "px_loop (system_step k S e) = px_loop S" | x where "px_loop (system_step k S e) = loop_step (px_loop S) x"
    using step_loop by blast
  then show ?thesis
  proof cases
    case (2 x)
    then show ?thesis using loop_step_upstream [of "px_loop S" x] by (auto simp: mux_session_def)
  qed (simp add: mux_session_def)
qed

lemma serving_loop:
  "serving i S \<Longrightarrow> px_loop S = Running (mux_session S)"
  by (cases "px_loop S") (simp_all add: serving_def loop_running_def mux_session_def)

text \<open>The value that answers is delivered, as the client is attached and its channel open.\<close>

lemma answer_delivered:
  assumes fit: "fit k S" and up: "serving i S" and wait: "awaiting i n q b u S"
    and vals: "px_values S = r # vs" and r: "answers b (FromUpstream r)"
  shows "came i n q b u (take_value S)"
proof -
  let ?s = "mux_session S"
  have kind: "message_kind r = KResponse" "request_seq r = Some b" using r by (simp_all add: answers_def)
  obtain c where c: "hm_get (ss_clients ?s) i = Some c" "cs_open c" using up by (auto simp: serving_def)
  obtain p where p: "hm_get (px_clients S) i = Some p" "q \<le> length (pt_inbox p)"
    using wait by (auto simp: awaiting_def room_at_def)
  have box: "pt_inbox p = cs_queue c" using fit_parts(2) [OF fit] c(1) p(1) by (fastforce simp: boxes_ok_def)
  obtain t where t: "session_step ?s (FromUpstream r) = Running t"
      "ss_clients t = hm_insert i (push_queue (set_request_seq n r) c) (ss_clients ?s)"
    using response_to_client_delivered [OF fit_parts(3) [OF fit] _ c kind] wait by (auto simp: awaiting_def owned_def)
  let ?T = "take_input (FromUpstream r) (S\<lparr>px_values := vs\<rparr>)"
  have T: "take_value S = ?T" using up vals by (simp add: take_value_def serving_def)
  have loop: "px_loop ?T = Running t" using serving_loop [OF up] t(1) by simp
  have "hm_get (px_clients ?T) i = Some (fill_inbox t i p)"
    using p(1) loop by (simp add: take_input_def Let_def hm_get_map_keyed)
  moreover have "pt_inbox (fill_inbox t i p) = pt_inbox p @ [set_request_seq n r]"
    using t(2) box by (simp add: fill_inbox_def push_queue_def)
  moreover have "pt_taken (fill_inbox t i p) = pt_taken p" by (simp add: fill_inbox_def split: option.split)
  moreover have "u \<in> set (ss_upstream (mux_session ?T))"
    using upstream_step [of k S TakeValue] T wait by (auto simp: awaiting_def)
  ultimately show ?thesis
    using T p(2) r fit_parts(5) [OF fit p(1)]
    by (auto simp: came_def intro!: exI [of _ "length (pt_inbox p)"])
qed

text \<open>Every other turn leaves the request as it is.\<close>

lemma awaiting_step:
  assumes fit: "fit k S" and up: "serving i S" and wait: "awaiting i n q b u S"
  shows "came i n q b u (system_step k S e) \<or> awaiting i n q b u (system_step k S e)"
proof (cases "\<exists>r vs. e = TakeValue \<and> px_values S = r # vs \<and> answers b (FromUpstream r)")
  case True
  then show ?thesis using answer_delivered [OF fit up wait] by auto
next
  case False
  let ?T = "system_step k S e"
  have "owned i n b ?T"
  proof -
    consider "px_loop ?T = px_loop S" | x where "px_loop ?T = loop_step (px_loop S) x" "input_of e S x"
      using step_loop by blast
    then show ?thesis
    proof cases
      case 1
      then show ?thesis using wait by (simp add: awaiting_def owned_def mux_session_def)
    next
      case (2 x)
      have "\<not> answers b x" using 2(2) False by (auto simp: answers_def input_of_def split: session_input.splits)
      moreover have "owner (mux_session S) b \<noteq> None" using wait by (simp add: awaiting_def owned_def)
      ultimately have "owner (final_session (session_step (mux_session S) x)) b = owner (mux_session S) b"
        using step_routing [OF fit_parts(3) [OF fit] fit_parts(4) [OF fit], of x] owner_issued [OF fit_parts(3) [OF fit]] by blast
      moreover have "mux_session ?T = final_session (session_step (mux_session S) x)"
        using 2(1) serving_loop [OF up] by (simp add: mux_session_def [of ?T])
      ultimately show ?thesis using wait by (simp add: awaiting_def owned_def)
    qed
  qed
  then show ?thesis
    using wait room_step [OF fit] upstream_step [of k S e] by (auto simp: awaiting_def)
qed

section \<open>From the client to the adapter\<close>

definition plain_request :: "int \<Rightarrow> json \<Rightarrow> bool" where
  "plain_request n v \<longleftrightarrow> message_kind v = KRequest \<and> seq v = Some n \<and> command v \<noteq> Some snapshot_command"

text \<open>The operation is in the queue of the loop; the value is on the way to the adapter.\<close>

definition asked :: "int \<Rightarrow> int \<Rightarrow> nat \<Rightarrow> json \<Rightarrow> proxy_system \<Rightarrow> bool" where
  "asked i n q v S \<longleftrightarrow> plain_request n v \<and> ClientSend i v \<in> set (px_ops S) \<and> room_at i q S"

definition ops_until :: "int \<Rightarrow> json \<Rightarrow> proxy_system \<Rightarrow> nat" where
  "ops_until i v S = length (takeWhile (\<lambda>op. op \<noteq> ClientSend i v) (px_ops S))"

definition queued :: "int \<Rightarrow> int \<Rightarrow> nat \<Rightarrow> int \<Rightarrow> json \<Rightarrow> proxy_system \<Rightarrow> bool" where
  "queued i n q b u S \<longleftrightarrow> awaiting i n q b u S \<and> u \<in> set (drop (px_taken S) (ss_upstream (mux_session S)))"

definition sent_on :: "int \<Rightarrow> int \<Rightarrow> nat \<Rightarrow> json \<Rightarrow> proxy_system \<Rightarrow> bool" where
  "sent_on i n q v S \<longleftrightarrow> (\<exists>b. queued i n q b (set_seq b v) S) \<or> \<not> serving i S"

lemma closed_upstream_ends:
  assumes "hm_get (ss_clients s) i = Some c" "cs_role c \<noteq> Editor" and "plain_request n v" and "\<not> ss_upstream_open s"
  shows "\<exists>t e. session_step s (Op (ClientSend i v)) = Ended t e"
proof -
  have "ss_upstream_open (snd (forward_other i v s)) = ss_upstream_open s" by (simp add: forward_other_def Let_def)
  then have "snd (handle_client_message i v s) = Some UpstreamNotConnected"
    using handle_client_message_cases [OF assms(1), of v] assms(2-4) by (simp add: plain_request_def Let_def send_upstream_def)
  then show ?thesis by (cases "handle_client_message i v s") (simp add: loop_result_def)
qed

lemma ask_taken:
  assumes fit: "fit k S" and up: "serving i S" and v: "plain_request n v" and room: "room_at i q S"
    and ops: "px_ops S = ClientSend i v # ops"
  shows "sent_on i n q v (take_op S)"
proof -
  let ?s = "mux_session S" and ?T = "take_op S"
  let ?b = "ss_backend_seq ?s + 1"
  obtain c where c: "hm_get (ss_clients ?s) i = Some c" "cs_role c \<noteq> Editor" using up by (auto simp: serving_def)
  have T: "px_loop ?T = session_step ?s (Op (ClientSend i v))" "px_taken ?T = px_taken S"
    using up ops serving_loop [OF up] by (simp_all add: take_op_def serving_def Let_def)
  show ?thesis
  proof (cases "ss_upstream_open ?s")
    case True
    obtain t where t: "session_step ?s (Op (ClientSend i v)) = Running t"
        "ss_upstream t = ss_upstream ?s @ [set_seq ?b v]" "owner t ?b = Some (ToClient i n)"
      using other_request_sent [OF fit_parts(3) [OF fit] fit_parts(4) [OF fit] True c, of v n] v
      by (auto simp: plain_request_def)
    have "mux_session ?T = t" using T(1) t(1) by (simp add: mux_session_def)
    moreover have "room_at i q ?T" using room_step [OF fit room, of TakeOp] by simp
    ultimately show ?thesis
      using t T(2) fit_parts(6) [OF fit] by (auto simp: sent_on_def queued_def awaiting_def owned_def)
  next
    case False
    then have "\<not> loop_running ?T" using closed_upstream_ends [OF c v] T(1) by (auto simp: loop_running_def)
    then show ?thesis by (simp add: sent_on_def serving_def)
  qed
qed

lemma asked_step:
  assumes fit: "fit k S" and up: "serving i S" and ask: "asked i n q v S"
  shows "sent_on i n q v (system_step k S e) \<or>
    asked i n q v (system_step k S e) \<and> ops_until i v (system_step k S e) + (if e = TakeOp then 1 else 0) \<le> ops_until i v S"
proof -
  let ?T = "system_step k S e"
  have room: "room_at i q ?T" using room_step [OF fit] ask by (simp add: asked_def)
  have mem: "ClientSend i v \<in> set (px_ops S)" and v: "plain_request n v" using ask by (simp_all add: asked_def)
  show ?thesis
  proof (cases "e = TakeOp")
    case True
    obtain op ops where ops: "px_ops S = op # ops" using mem by (cases "px_ops S") auto
    show ?thesis
    proof (cases "op = ClientSend i v")
      case True
      then show ?thesis using ask_taken [OF fit up v _ ops [unfolded True]] ask \<open>e = TakeOp\<close> by (simp add: asked_def)
    next
      case False
      then have "px_ops ?T = ops" using take_op_running(1) [OF ops] up \<open>e = TakeOp\<close> by (simp add: serving_def)
      then show ?thesis using ops mem room v False True by (auto simp: asked_def ops_until_def)
    qed
  next
    case False
    then obtain ops where "px_ops ?T = px_ops S @ ops" using system_step_ops by blast
    then show ?thesis using mem room v False by (auto simp: asked_def ops_until_def takeWhile_append1)
  qed
qed

interpretation ask: fair_progress "system_step k" "\<lambda>S. fit k S \<and> serving i S" "\<lambda>e. e = TakeOp" "asked i n q v"
  "sent_on i n q v" "ops_until i v" for k i n q v
proof (unfold_locales, goal_cases)
  case (1 s e)
  then show ?case using asked_step [of k s i n q v e] by auto
next
  case (2 s e)
  then show ?case using asked_step [of k s i n q v e] by auto
qed

text \<open>The value at position \<open>a\<close> of the upstream channel, while the bridge of the adapter has not got there.\<close>

definition queued_at :: "int \<Rightarrow> int \<Rightarrow> nat \<Rightarrow> int \<Rightarrow> json \<Rightarrow> nat \<Rightarrow> proxy_system \<Rightarrow> bool" where
  "queued_at i n q b u a S \<longleftrightarrow> awaiting i n q b u S \<and> px_taken S \<le> a \<and>
     a < length (ss_upstream (mux_session S)) \<and> ss_upstream (mux_session S) ! a = u"

definition gone_past :: "int \<Rightarrow> int \<Rightarrow> nat \<Rightarrow> int \<Rightarrow> json \<Rightarrow> nat \<Rightarrow> proxy_system \<Rightarrow> bool" where
  "gone_past i n q b u a S \<longleftrightarrow> came i n q b u S \<or> \<not> serving i S \<or> awaiting i n q b u S \<and> a < px_taken S"

lemma queued_somewhere: "queued i n q b u S \<Longrightarrow> \<exists>a. queued_at i n q b u a S"
  by (auto simp: queued_def queued_at_def in_set_conv_nth) (metis add.commute le_add1 less_diff_conv)

text \<open>Only the turns of the bridge's writer take a value, and what it takes it writes.\<close>

lemma step_taken:
  assumes "serving i S"
  shows "px_taken (system_step k S e) = px_taken S \<or> \<not> serving i (system_step k S e) \<or>
    e = WriteAdapter \<and> px_taken (system_step k S e) = px_taken S + 1 \<and>
    (\<exists>M. bridge_upstream_value (pc_attach_defaults k) (ss_upstream (mux_session S) ! px_taken S) = Some M \<and>
         px_wire (system_step k S e) = px_wire S @ [M])"
proof (cases "e = WriteAdapter")
  case True
  then show ?thesis using assms
    by (auto simp: write_adapter_def Let_def serving_def stop_writing_def split: option.split)
next
  case False
  then show ?thesis using assms
    by (cases e) (auto simp: read_client_def client_leaves_def client_broken_def write_client_def read_adapter_def
        stop_writing_def say_goodbye_def take_op_def take_value_def Let_def
        split: option.split sum.split prod.split list.split session_op.split)
qed

lemma write_advances:
  assumes "serving i S" and "px_taken S < length (ss_upstream (mux_session S))"
  shows "px_taken (write_adapter d S) = px_taken S + 1"
  using assms by (simp add: write_adapter_def Let_def serving_def stop_writing_def split: option.split)

lemma queued_at_step:
  assumes fit: "fit k S" and up: "serving i S" and way: "queued_at i n q b u a S"
  shows "gone_past i n q b u a (system_step k S e) \<or>
    queued_at i n q b u a (system_step k S e) \<and>
    Suc a - px_taken (system_step k S e) + (if e = WriteAdapter then 1 else 0) \<le> Suc a - px_taken S"
proof -
  let ?T = "system_step k S e"
  obtain us where us: "ss_upstream (mux_session ?T) = ss_upstream (mux_session S) @ us" using upstream_step by blast
  consider "came i n q b u ?T" | "\<not> serving i ?T" | "awaiting i n q b u ?T" "serving i ?T"
    using awaiting_step [OF fit up, of n q b u e] way by (auto simp: queued_at_def)
  then show ?thesis
  proof cases
    case 3
    then have "px_taken ?T = px_taken S \<or> px_taken ?T = px_taken S + 1" using step_taken [OF up, of k e] by blast
    moreover have "px_taken ?T = px_taken S + 1" if "e = WriteAdapter"
      using write_advances [OF up] way that by (simp add: queued_at_def)
    ultimately show ?thesis using way us 3 by (auto simp: queued_at_def gone_past_def nth_append)
  qed (simp_all add: gone_past_def)
qed

interpretation pass: fair_progress "system_step k" "\<lambda>S. fit k S \<and> serving i S" "\<lambda>e. e = WriteAdapter"
  "queued_at i n q b u a" "gone_past i n q b u a" "\<lambda>S. Suc a - px_taken S" for k i n q b u a
proof (unfold_locales, goal_cases)
  case (1 s e)
  then show ?case using queued_at_step [of k s i n q b u a e] by auto
next
  case (2 s e)
  then show ?case using queued_at_step [of k s i n q b u a e] by (auto simp: queued_at_def)
qed

section \<open>From the adapter to the client\<close>

text \<open>A response with the number is among the values the loop has not taken yet.\<close>

definition replied :: "int \<Rightarrow> int \<Rightarrow> nat \<Rightarrow> int \<Rightarrow> json \<Rightarrow> proxy_system \<Rightarrow> bool" where
  "replied i n q b u S \<longleftrightarrow> awaiting i n q b u S \<and> (\<exists>w \<in> set (px_values S). answers b (FromUpstream w))"

definition values_before :: "int \<Rightarrow> proxy_system \<Rightarrow> nat" where
  "values_before b S = length (takeWhile (\<lambda>w. \<not> answers b (FromUpstream w)) (px_values S))"

lemma step_values:
  assumes "loop_running S"
  shows "e \<noteq> TakeValue \<Longrightarrow> \<exists>vs. px_values (system_step k S e) = px_values S @ vs"
    and "px_values S = v # vs \<Longrightarrow> px_values (take_value S) = vs"
proof -
  show "px_values (take_value S) = vs" if "px_values S = v # vs" using that assms by (simp add: take_value_def)
  show "\<exists>vs. px_values (system_step k S e) = px_values S @ vs" if "e \<noteq> TakeValue"
    using that by (cases e) (auto simp: read_client_def client_leaves_def client_broken_def write_client_def
        read_adapter_def stop_writing_def say_goodbye_def write_adapter_def take_op_def Let_def on_port_def
        split: option.split sum.split prod.split list.split session_op.split)
qed

lemma replied_step:
  assumes fit: "fit k S" and up: "serving i S" and way: "replied i n q b u S"
  shows "came i n q b u (system_step k S e) \<or>
    replied i n q b u (system_step k S e) \<and>
    values_before b (system_step k S e) + (if e = TakeValue then 1 else 0) \<le> values_before b S"
proof (cases "came i n q b u (system_step k S e)")
  case False
  let ?T = "system_step k S e"
  have wait: "awaiting i n q b u S" using way by (simp add: replied_def)
  then have wait': "awaiting i n q b u ?T" using awaiting_step [OF fit up] False by blast
  have running: "loop_running S" using up by (simp add: serving_def)
  obtain w where w: "w \<in> set (px_values S)" "answers b (FromUpstream w)" using way by (auto simp: replied_def)
  show ?thesis
  proof (cases "e = TakeValue")
    case True
    obtain v vs where vs: "px_values S = v # vs" using w(1) by (cases "px_values S") auto
    have "\<not> answers b (FromUpstream v)" using answer_delivered [OF fit up wait vs] False True by auto
    moreover have "px_values ?T = vs" using step_values(2) [OF running vs] True by simp
    ultimately show ?thesis using w vs wait' True by (auto simp: replied_def values_before_def)
  next
    case False
    then obtain vs where "px_values ?T = px_values S @ vs" using step_values(1) [OF running] by blast
    then show ?thesis using w wait' False by (auto simp: replied_def values_before_def takeWhile_append1)
  qed
qed simp

interpretation home: fair_progress "system_step k" "\<lambda>S. fit k S \<and> serving i S" "\<lambda>e. e = TakeValue"
  "replied i n q b u" "came i n q b u" "values_before b" for k i n q b u
proof (unfold_locales, goal_cases)
  case (1 s e)
  then show ?case using replied_step [of k s i n q b u e] by auto
next
  case (2 s e)
  then show ?case using replied_step [of k s i n q b u e] by auto
qed

text \<open>What the adapter says in answer is such a value.\<close>

lemma adapter_answers:
  assumes "serving i S" and "in_i64 (rs_request_seq R)"
  shows "\<exists>w \<in> set (px_values (system_step k S (AdapterSays (Response R) spawn run))). answers (rs_request_seq R) (FromUpstream w)"
proof -
  let ?env = "(pc_env k)\<lparr>be_spawn := spawn, be_run := run\<rparr>"
  obtain y where y: "as_seen ?env (Response R) = Response y" "rs_seq y = rs_seq R" "rs_request_seq y = rs_request_seq R"
    using as_seen_keeps_numbers by blast
  have "bridge_backend_message ?env (Response R) (px_children S) = (Inr (message_to_value (Response y)), px_children S)"
    using bridge_backend_forward [of "Response R" ?env] y(1) by (simp add: as_seen_def)
  moreover have "answers (rs_request_seq R) (FromUpstream (message_to_value (Response y)))"
    using response_value_fields [of y] y assms(2) by (simp add: answers_def)
  ultimately show ?thesis using assms(1) by (simp add: read_adapter_def serving_def)
qed

section \<open>To the client\<close>

definition due :: "int \<Rightarrow> nat \<Rightarrow> json \<Rightarrow> proxy_system \<Rightarrow> bool" where
  "due i j x S \<longleftrightarrow> (\<exists>p. hm_get (px_clients S) i = Some p \<and> pt_taken p \<le> j \<and> j < length (pt_inbox p) \<and> pt_inbox p ! j = x)"

definition shown :: "int \<Rightarrow> nat \<Rightarrow> json \<Rightarrow> proxy_system \<Rightarrow> bool" where
  "shown i j x S \<longleftrightarrow> \<not> serving i S \<or>
     (\<exists>p M. hm_get (px_clients S) i = Some p \<and> j < pt_taken p \<and> j < length (pt_inbox p) \<and> pt_inbox p ! j = x \<and>
        bridge_egress_value x = Some M \<and> M \<in> set (pt_wire p))"

definition untaken :: "int \<Rightarrow> nat \<Rightarrow> proxy_system \<Rightarrow> nat" where
  "untaken i j S = (case hm_get (px_clients S) i of Some p \<Rightarrow> Suc j - pt_taken p | None \<Rightarrow> 0)"

text \<open>Only the turns of its own writer change how much of a client's channel has been written.\<close>

definition taken_of :: "int \<Rightarrow> proxy_system \<Rightarrow> nat option" where
  "taken_of i S = map_option pt_taken (hm_get (px_clients S) i)"

lemma taken_of_simps [simp]:
  "taken_of i (take_input x S) = taken_of i S"
  "(\<And>p. pt_taken (f p) = pt_taken p) \<Longrightarrow> taken_of i (on_port j f S) = taken_of i S"
  "i \<noteq> j \<Longrightarrow> taken_of i (on_port j f S) = taken_of i S"
  "taken_of i (S\<lparr>px_ops := a\<rparr>) = taken_of i S" "taken_of i (S\<lparr>px_values := b\<rparr>) = taken_of i S"
  "taken_of i (S\<lparr>px_reading := c\<rparr>) = taken_of i S" "taken_of i (S\<lparr>px_heard := d\<rparr>) = taken_of i S"
  "taken_of i (S\<lparr>px_children := n\<rparr>) = taken_of i S" "taken_of i (S\<lparr>px_writing := w\<rparr>) = taken_of i S"
  "taken_of i (S\<lparr>px_taken := t\<rparr>) = taken_of i S" "taken_of i (S\<lparr>px_wire := m\<rparr>) = taken_of i S"
  by (auto simp: taken_of_def take_input_def Let_def hm_get_map_keyed on_port_def fill_inbox_def option.map_comp
      intro!: option.map_cong split: option.split)

lemma taken_of_step:
  assumes fit: "fit k S" and p: "hm_get (px_clients S) i = Some p" and e: "e \<noteq> WriteClient i"
  shows "taken_of i (system_step k S e) = taken_of i S"
proof (cases e)
  case TakeOp
  show ?thesis
  proof (cases "loop_running S")
    case True
    have "taken_of i (take_op S) = taken_of i S" if ops: "px_ops S = Attach role # ops" for role ops
    proof -
      let ?T = "take_input (Op (Attach role)) (S\<lparr>px_ops := ops\<rparr>)"
      have "last_id ?T = last_id S + 1"
        using True fit_parts(1) [OF fit] loop_step_next [of "px_loop S" "Op (Attach role)"]
        by (cases "px_loop S") (auto simp: last_id_def mux_session_def loop_running_def ids_left_def)
      then have "i \<noteq> ss_next_client (mux_session ?T)" using fit_parts(5) [OF fit p] by (simp add: last_id_def)
      moreover have "taken_of i ?T = taken_of i S" by simp
      ultimately show ?thesis using ops True by (simp add: take_op_def Let_def taken_of_def)
    qed
    then show ?thesis using TakeOp by (cases "px_ops S"; cases "hd (px_ops S)") (auto simp: take_op_def Let_def)
  qed (use TakeOp in \<open>simp add: take_op_def split: list.split\<close>)
qed (use e in \<open>auto simp: read_client_def client_leaves_def client_broken_def write_client_def
      read_adapter_def stop_writing_def say_goodbye_def write_adapter_def take_value_def Let_def
      split: option.split sum.split prod.split list.split\<close>)

lemma write_due:
  assumes up: "serving i S" and due: "due i j x S"
  shows "shown i j x (write_client i S) \<or> due i j x (write_client i S) \<and> untaken i j (write_client i S) < untaken i j S"
proof -
  obtain p where p: "hm_get (px_clients S) i = Some p" "pt_taken p \<le> j" "j < length (pt_inbox p)" "pt_inbox p ! j = x"
    using due by (auto simp: due_def)
  have w: "pt_writing p" using up p(1) by (simp add: serving_def)
  show ?thesis
  proof (cases "bridge_egress_value (pt_inbox p ! pt_taken p)")
    case None
    then have "\<not> serving i (write_client i S)"
      using p w by (simp add: write_client_def client_broken_def serving_def take_input_def Let_def hm_get_map_keyed
          on_port_def fill_inbox_def split: option.split)
    then show ?thesis by (simp add: shown_def)
  next
    case (Some M)
    then have T: "hm_get (px_clients (write_client i S)) i = Some (p\<lparr>pt_taken := pt_taken p + 1, pt_wire := pt_wire p @ [M]\<rparr>)"
      using p w by (simp add: write_client_def on_port_def)
    show ?thesis
    proof (cases "pt_taken p = j")
      case True
      then show ?thesis using T Some p by (simp add: shown_def)
    next
      case False
      then show ?thesis using T p by (auto simp: due_def untaken_def)
    qed
  qed
qed

lemma due_step:
  assumes fit: "fit k S" and up: "serving i S" and due: "due i j x S"
  shows "shown i j x (system_step k S e) \<or>
    due i j x (system_step k S e) \<and> untaken i j (system_step k S e) + (if e = WriteClient i then 1 else 0) \<le> untaken i j S"
proof (cases "e = WriteClient i")
  case True
  then show ?thesis using write_due [OF up due] by auto
next
  case False
  obtain p where p: "hm_get (px_clients S) i = Some p" "pt_taken p \<le> j" "j < length (pt_inbox p)" "pt_inbox p ! j = x"
    using due by (auto simp: due_def)
  obtain p' where p': "hm_get (px_clients (system_step k S e)) i = Some p'" "prefix (pt_inbox p) (pt_inbox p')"
    using system_step_moved [OF fit_parts(1) [OF fit], of i k e] fit_parts(5) [OF fit p(1)] p(1) by (auto simp: moved_def)
  moreover have "pt_taken p' = pt_taken p" using taken_of_step [OF fit p(1) False] p(1) p'(1) by (simp add: taken_of_def)
  ultimately show ?thesis using p False by (auto simp: due_def untaken_def prefix_def nth_append)
qed

interpretation show_it: fair_progress "system_step k" "\<lambda>S. fit k S \<and> serving i S" "\<lambda>e. e = WriteClient i"
  "due i j x" "shown i j x" "untaken i j" for k i j x
proof (unfold_locales, goal_cases)
  case (1 s e)
  then show ?case using due_step [of k s i j x e] by auto
next
  case (2 s e)
  then show ?case using due_step [of k s i j x e] by auto
qed

section \<open>All the way\<close>

text \<open>
  The client has been written a response that came from the adapter under the number its request had
  there, with the number the client had given it, and not among the first \<open>q\<close> values of its channel.
\<close>

definition answered :: "int \<Rightarrow> int \<Rightarrow> nat \<Rightarrow> json \<Rightarrow> proxy_system \<Rightarrow> bool" where
  "answered i n q v S \<longleftrightarrow>
     (\<exists>p j b r M. hm_get (px_clients S) i = Some p \<and> q \<le> j \<and> j < length (pt_inbox p) \<and> j < pt_taken p \<and>
        pt_inbox p ! j = set_request_seq n r \<and> answers b (FromUpstream r) \<and>
        set_seq b v \<in> set (ss_upstream (mux_session S)) \<and>
        bridge_egress_value (pt_inbox p ! j) = Some M \<and> M \<in> set (pt_wire p))"

lemma after_turns_fit:
  assumes ids: "\<And>n. last_id (after_turns k f n) < 2 ^ 64 - 1"
    and numbers: "\<And>n. ss_backend_seq (mux_session (after_turns k f n)) < i64_max"
  shows "fit k (after_turns k f n)"
proof -
  have "system_ok k (after_turns k f n)"
  proof (induction n)
    case (Suc n)
    then show ?case using system_step_ok [OF Suc, of "f n"] numbers [of n] by (simp add: system_room_def)
  qed (simp add: proxy_start_ok)
  then show ?thesis using after_turns_seated [OF ids, of n] numbers [of n] by (simp add: fit_def)
qed

lemma upstream_later:
  "u \<in> set (ss_upstream (mux_session (after_turns k f t))) \<Longrightarrow>
   u \<in> set (ss_upstream (mux_session (after_turns k f (t + d))))"
proof (induction d)
  case (Suc d)
  then show ?case using upstream_step [of k "after_turns k f (t + d)" "f (t + d)"] by auto
qed simp

lemma awaiting_until:
  assumes fit: "\<And>t. fit k (after_turns k f t)" and up: "\<And>t. t0 \<le> t \<Longrightarrow> serving i (after_turns k f t)"
    and wait: "awaiting i n q b u (after_turns k f t)" "t0 \<le> t"
  shows "(\<exists>m. came i n q b u (after_turns k f m) \<and> t \<le> m) \<or> awaiting i n q b u (after_turns k f (t + d))"
proof (induction d)
  case (Suc d)
  then show ?case
    using awaiting_step [OF fit up, of "t + d" n q b u "f (t + d)"] wait(2) by (force intro: exI [of _ "Suc (t + d)"])
qed (simp add: wait)

text \<open>The adapter has answered, and the loop takes the answer.\<close>

lemma answer_comes:
  assumes fit: "\<And>t. fit k (after_turns k f t)" and up: "\<And>t. t0 \<le> t \<Longrightarrow> serving i (after_turns k f t)"
    and loop_turns: "\<And>n. \<exists>m. n \<le> m \<and> f m = TakeValue"
    and wait: "awaiting i n q b u (after_turns k f t)" "t0 \<le> t"
    and says: "t \<le> t'" "f t' = AdapterSays (Response y) spawn run" "rs_request_seq y = b" "in_i64 b"
  shows "\<exists>m. t \<le> m \<and> came i n q b u (after_turns k f m)"
proof -
  have run: "\<And>n. after_turns k f (Suc n) = system_step k (after_turns k f n) (f n)" by simp
  have "awaiting i n q b u (after_turns k f (Suc t'))" if "\<not> (\<exists>m. came i n q b u (after_turns k f m) \<and> t \<le> m)"
    using awaiting_until [OF fit up wait, of "Suc t' - t"] that says(1) by simp
  then consider "\<exists>m. t \<le> m \<and> came i n q b u (after_turns k f m)" | "awaiting i n q b u (after_turns k f (Suc t'))"
    by blast
  then show ?thesis
  proof cases
    case 2
    have "serving i (after_turns k f t')" using up wait(2) says(1) by simp
    then have "replied i n q b u (after_turns k f (Suc t'))"
      using 2 adapter_answers [of i "after_turns k f t'" y k spawn run] says by (simp add: replied_def)
    then obtain m where "Suc t' < m" "came i n q b u (after_turns k f m)"
      using home.eventually_goal [where s = "after_turns k f" and f = f and ?n0.0 = "Suc t'", OF run] fit up loop_turns
        wait(2) says(1) by (metis le_SucI le_trans)
    then show ?thesis using says(1) by (intro exI [of _ m]) simp
  qed
qed

text \<open>The bridge of the adapter writes the request, and from then on the adapter may answer.\<close>

lemma request_written:
  assumes fit: "fit k S" and up: "serving i S" "serving i (system_step k S e)"
    and at: "queued_at i n q b (set_seq b v) a S" and past: "gone_past i n q b (set_seq b v) a (system_step k S e)"
    and v: "message_kind v = KRequest"
  shows "came i n q b (set_seq b v) (system_step k S e) \<or>
    awaiting i n q b (set_seq b v) (system_step k S e) \<and> in_i64 b \<and>
    (\<exists>r. rq_seq r = b \<and> px_wire (system_step k S e) = px_wire S @ [Request r])"
proof (cases "came i n q b (set_seq b v) (system_step k S e)")
  case False
  let ?u = "set_seq b v" and ?T = "system_step k S e"
  have T: "awaiting i n q b ?u ?T" "a < px_taken ?T" using past False up(2) by (simp_all add: gone_past_def)
  have own: "owner (mux_session S) b \<noteq> None" using at by (simp add: queued_at_def awaiting_def owned_def)
  have b: "in_i64 b"
    using owner_issued [OF fit_parts(3) [OF fit] own] session_okD(3) [OF fit_parts(3) [OF fit]] by (simp add: in_i64_def)
  from step_taken [OF up(1), of k e] up(2) T(2) at obtain M
    where M: "bridge_upstream_value (pc_attach_defaults k) ?u = Some M" "px_wire ?T = px_wire S @ [M]"
    by (auto simp: queued_at_def le_less)
  obtain r where r: "M = Request r" "seq ?u = Some (rq_seq r)"
    using bridge_upstream_request [OF _ M(1)] v by auto
  moreover have "seq ?u = Some b" using v b by (simp add: seq_set_seq)
  ultimately show ?thesis using T(1) M(2) b by auto
qed simp

lemma came_answered:
  assumes fit: "\<And>t. fit k (after_turns k f t)" and up: "\<And>t. t0 \<le> t \<Longrightarrow> serving i (after_turns k f t)"
    and writer_turns: "\<And>n. \<exists>m. n \<le> m \<and> f m = WriteClient i"
    and came: "came i n q b (set_seq b v) (after_turns k f t)" "t0 \<le> t"
  shows "\<exists>m. answered i n q v (after_turns k f m)"
proof -
  have run: "\<And>n. after_turns k f (Suc n) = system_step k (after_turns k f n) (f n)" by simp
  obtain j r where j: "q \<le> j" "answers b (FromUpstream r)" "due i j (set_request_seq n r) (after_turns k f t)"
    using came(1) by (auto simp: came_def due_def)
  obtain m where m: "t < m" "shown i j (set_request_seq n r) (after_turns k f m)"
    using show_it.eventually_goal [where s = "after_turns k f" and f = f, OF run _ writer_turns j(3)] fit up came(2)
    by (metis le_trans)
  have "set_seq b v \<in> set (ss_upstream (mux_session (after_turns k f m)))"
    using upstream_later [of "set_seq b v" k f t "m - t"] came(1) m(1) by (simp add: came_def)
  moreover have "serving i (after_turns k f m)" using up came(2) m(1) by simp
  then obtain p M where "hm_get (px_clients (after_turns k f m)) i = Some p" "j < pt_taken p" "j < length (pt_inbox p)"
      "pt_inbox p ! j = set_request_seq n r" "bridge_egress_value (pt_inbox p ! j) = Some M" "M \<in> set (pt_wire p)"
    using m(2) unfolding shown_def by auto
  ultimately have "answered i n q v (after_turns k f m)" using j(1,2) unfolding answered_def by blast
  then show ?thesis ..
qed

section \<open>The property\<close>

text \<open>The stages one after the other.\<close>

lemma request_answered:
  assumes ids: "\<And>t. last_id (after_turns k f t) < 2 ^ 64 - 1"
    and numbers: "\<And>t. ss_backend_seq (mux_session (after_turns k f t)) < i64_max"
    and loop_turns: "\<And>t. \<exists>m. t \<le> m \<and> f m = TakeOp" "\<And>t. \<exists>m. t \<le> m \<and> f m = TakeValue"
    and writer_turns: "\<And>t. \<exists>m. t \<le> m \<and> f m = WriteAdapter" "\<And>t. \<exists>m. t \<le> m \<and> f m = WriteClient i"
    and adapter: "\<And>t q. px_wire (after_turns k f (Suc t)) = px_wire (after_turns k f t) @ [Request q] \<Longrightarrow>
      \<exists>t' y spawn run. t < t' \<and> f t' = AdapterSays (Response y) spawn run \<and> rs_request_seq y = rq_seq q"
    and up: "\<And>t. t0 \<le> t \<Longrightarrow> serving i (after_turns k f t)"
    and there: "hm_get (px_clients (after_turns k f t0)) i = Some p" "pt_reading p"
    and says: "f t0 = ClientSays i (Request r)" "in_i64 (rq_seq r)" "rq_command r \<noteq> snapshot_command"
      "be_plugin (pc_env k) = None \<or> rq_command r \<noteq> plugin_info_command"
  shows "\<exists>t. answered i (rq_seq r) (length (pt_inbox p)) (message_to_value (Request r)) (after_turns k f t)"
proof -
  let ?s = "after_turns k f" and ?v = "message_to_value (Request r)" and ?n = "rq_seq r" and ?q = "length (pt_inbox p)"
  note fit = after_turns_fit [of k f, OF ids numbers]
  have run: "\<And>n. ?s (Suc n) = system_step k (?s n) (f n)" by simp
  have v: "plain_request ?n ?v" using says(2,3) request_value_fields [of r] by (simp add: plain_request_def)
  have "bridge_client_message (pc_host k) (be_plugin (pc_env k)) (Request r) = Inr ?v"
    using says(4) by (auto simp: bridge_client_message_def split: option.split)
  then have "ClientSend i ?v \<in> set (px_ops (?s (Suc t0)))"
    using there up [of t0] says(1) by (simp add: read_client_def serving_def)
  moreover have "room_at i ?q (?s (Suc t0))"
    using room_step [OF fit, of i ?q t0 "f t0"] there(1) by (simp add: room_at_def)
  ultimately have "asked i ?n ?q ?v (?s (Suc t0))" using v by (simp add: asked_def)
  then obtain m1 where m1: "Suc t0 < m1" "sent_on i ?n ?q ?v (?s m1)"
    using ask.eventually_goal [where s = ?s and f = f, OF run _ loop_turns(1)] fit up by (metis Suc_leD)
  then obtain b a where a: "queued_at i ?n ?q b (set_seq b ?v) a (?s m1)"
    using up [of m1] queued_somewhere by (fastforce simp: sent_on_def)
  have "\<And>t. m1 \<le> t \<Longrightarrow> fit k (?s t) \<and> serving i (?s t)" using fit up m1(1) by simp
  then obtain m2 where m2: "m1 \<le> m2" "queued_at i ?n ?q b (set_seq b ?v) a (?s m2)"
      "gone_past i ?n ?q b (set_seq b ?v) a (?s (Suc m2))"
    using pass.first_goal [where s = ?s and f = f, OF run _ writer_turns(1) a] by blast
  have "\<exists>m. Suc m2 \<le> m \<and> came i ?n ?q b (set_seq b ?v) (?s m)"
  proof (cases "came i ?n ?q b (set_seq b ?v) (?s (Suc m2))")
    case False
    then obtain r' where r': "awaiting i ?n ?q b (set_seq b ?v) (?s (Suc m2))" "in_i64 b" "rq_seq r' = b"
        "px_wire (?s (Suc m2)) = px_wire (?s m2) @ [Request r']"
      using request_written [OF fit up _ m2(2), of "f m2"] m2(1,3) m1(1) up [of "Suc m2"] v
      by (auto simp: plain_request_def)
    from adapter [OF r'(4)] r'(3) obtain t' y spawn run'
      where "m2 < t'" "f t' = AdapterSays (Response y) spawn run'" "rs_request_seq y = b" by blast
    then show ?thesis
      using answer_comes [OF fit up loop_turns(2) r'(1), where y = y and spawn = spawn and run = run' and t' = t'] r'(2) m1(1) m2(1) by simp
  qed auto
  then obtain m3 where "t0 \<le> m3" "came i ?n ?q b (set_seq b ?v) (?s m3)" using m1(1) m2(1) by (meson Suc_leD le_trans less_imp_le)
  then show ?thesis using came_answered [OF fit up writer_turns(2)] by blast
qed

text \<open>C7: A request of a control client is answered. In every schedule in which the loop and the writers
  of the two bridges keep getting turns, and the adapter answers each request some time after it was
  written to it: as long as the proxy and the client's connection are up, the client is written a
  response that came from the adapter under the number its request had there, with the number the
  client gave it. Whatever else the clients and the adapter send in between delays it, but only for a
  finite time.\<close>

theorem client_request_answered:
  assumes ids: "\<And>t. last_id (after_turns k f t) < 2 ^ 64 - 1"
    and numbers: "\<And>t. ss_backend_seq (mux_session (after_turns k f t)) < i64_max"
    and loop_turns: "\<And>t. \<exists>m. t \<le> m \<and> f m = TakeOp" "\<And>t. \<exists>m. t \<le> m \<and> f m = TakeValue"
    and writer_turns: "\<And>t. \<exists>m. t \<le> m \<and> f m = WriteAdapter" "\<And>t. \<exists>m. t \<le> m \<and> f m = WriteClient i"
    and adapter: "\<And>t q. px_wire (after_turns k f (Suc t)) = px_wire (after_turns k f t) @ [Request q] \<Longrightarrow>
      \<exists>t' y spawn run. t < t' \<and> f t' = AdapterSays (Response y) spawn run \<and> rs_request_seq y = rq_seq q"
    and up: "\<And>t. t0 \<le> t \<Longrightarrow> serving i (after_turns k f t)"
    and there: "hm_get (px_clients (after_turns k f t0)) i = Some p" "pt_reading p"
    and says: "f t0 = ClientSays i (Request r)" "in_i64 (rq_seq r)" "rq_command r \<noteq> snapshot_command"
      "be_plugin (pc_env k) = None \<or> rq_command r \<noteq> plugin_info_command"
  shows "\<exists>t. answered i (rq_seq r) (length (pt_inbox p)) (message_to_value (Request r)) (after_turns k f t)"
  using assms by (rule request_answered)

text \<open>The control client of \<open>demo_turns\<close> asks for the threads, and then the tasks take turns for ever.\<close>

definition demo_trip :: "system_event list" where
  "demo_trip = take 8 demo_turns"

definition demo_schedule :: "nat \<Rightarrow> system_event" where
  "demo_schedule n = (if n < 8 then demo_trip ! n else [TakeOp, WriteAdapter, TakeValue, WriteClient 1] ! (n mod 4))"

lemma serving_code [code]:
  "serving i S \<longleftrightarrow> loop_running S \<and> px_reading S \<and> px_writing S \<and>
     (case hm_get (ss_clients (mux_session S)) i of Some c \<Rightarrow> cs_role c \<noteq> Editor \<and> cs_open c | None \<Rightarrow> False) \<and>
     (case hm_get (px_clients S) i of Some p \<Rightarrow> pt_writing p | None \<Rightarrow> False)"
  by (simp add: serving_def split: option.split)

lemma demo_trip_start: "t \<le> 8 \<Longrightarrow> after_turns demo_proxy demo_schedule t = run_proxy demo_proxy (take t demo_trip)"
proof -
  assume "t \<le> 8"
  moreover have "length demo_trip = 8" by (simp add: demo_trip_def demo_turns_def)
  ultimately have "map demo_schedule [0..<t] = take t demo_trip"
    by (simp add: list_eq_iff_nth_eq demo_schedule_def)
  then show ?thesis by (simp add: after_turns_def)
qed

lemma demo_trip_facts:
  "list_all (\<lambda>t. last_id (run_proxy demo_proxy (take t demo_trip)) \<le> 1 \<and>
     ss_backend_seq (mux_session (run_proxy demo_proxy (take t demo_trip))) \<le> 1) [0..<9]"
  "list_all (\<lambda>t. serving 1 (run_proxy demo_proxy (take t demo_trip))) [2..<9]"
  "list_all (\<lambda>t. t = 4 \<or> px_wire (run_proxy demo_proxy (take (Suc t) demo_trip)) = px_wire (run_proxy demo_proxy (take t demo_trip))) [0..<8]"
  "px_wire (run_proxy demo_proxy (take 5 demo_trip)) = [Request (threads_request\<lparr>rq_seq := 1\<rparr>)]"
  "px_wire (run_proxy demo_proxy (take 4 demo_trip)) = []"
  "map_option (\<lambda>p. (pt_reading p, pt_inbox p)) (hm_get (px_clients (run_proxy demo_proxy (take 2 demo_trip))) 1) = Some (True, [])"
  by code_simp+

text \<open>After that no turn changes anything.\<close>

lemma demo_trip_over:
  "list_all (\<lambda>e. system_step demo_proxy (run_proxy demo_proxy demo_trip) e = run_proxy demo_proxy demo_trip)
     [TakeOp, WriteAdapter, TakeValue, WriteClient 1]"
  by code_simp

lemma demo_trip_rest: "after_turns demo_proxy demo_schedule (8 + d) = run_proxy demo_proxy demo_trip"
proof (induction d)
  case 0
  show ?case using demo_trip_start [of 8] by (simp add: demo_trip_def)
next
  case (Suc d)
  have "demo_schedule (8 + d) \<in> set [TakeOp, WriteAdapter, TakeValue, WriteClient 1]"
    unfolding demo_schedule_def by (simp del: set_simps list.set)
  then have "system_step demo_proxy (run_proxy demo_proxy demo_trip) (demo_schedule (8 + d)) = run_proxy demo_proxy demo_trip"
    using demo_trip_over unfolding list_all_iff by blast
  then show ?case using Suc by (simp only: after_turns_simps add_Suc_right)
qed

lemma demo_schedule_at:
  obtains u where "u \<le> 8" "after_turns demo_proxy demo_schedule t = run_proxy demo_proxy (take u demo_trip)" "t \<le> 8 \<longrightarrow> u = t" "8 \<le> t \<longrightarrow> u = 8"
proof (cases "t \<le> 8")
  case True
  then show ?thesis using that [of t] demo_trip_start by auto
next
  case False
  then have "after_turns demo_proxy demo_schedule t = run_proxy demo_proxy (take 8 demo_trip)"
    using demo_trip_rest [of "t - 8"] by (simp add: demo_trip_def)
  then show ?thesis using that [of 8] False by auto
qed

lemma demo_schedule_fair:
  "\<exists>m. t \<le> m \<and> demo_schedule m = TakeOp" "\<exists>m. t \<le> m \<and> demo_schedule m = TakeValue"
  "\<exists>m. t \<le> m \<and> demo_schedule m = WriteAdapter" "\<exists>m. t \<le> m \<and> demo_schedule m = WriteClient 1"
proof -
  have turn: "demo_schedule (4 * (t + 2) + j) = [TakeOp, WriteAdapter, TakeValue, WriteClient 1] ! j" if "j < 4" for j
  proof -
    have "(4 * (t + 2) + j) mod 4 = j" using that by presburger
    then show ?thesis by (simp add: demo_schedule_def)
  qed
  show "\<exists>m. t \<le> m \<and> demo_schedule m = TakeOp" using turn [of 0] by (intro exI [of _ "4 * (t + 2) + 0"]) simp
  show "\<exists>m. t \<le> m \<and> demo_schedule m = TakeValue" using turn [of 2] by (intro exI [of _ "4 * (t + 2) + 2"]) simp
  show "\<exists>m. t \<le> m \<and> demo_schedule m = WriteAdapter" using turn [of 1] by (intro exI [of _ "4 * (t + 2) + 1"]) simp
  show "\<exists>m. t \<le> m \<and> demo_schedule m = WriteClient 1" using turn [of 3] by (intro exI [of _ "4 * (t + 2) + 3"]) simp
qed

theorem client_request_answered_witness:
  "\<exists>t. answered 1 7 0 (message_to_value (Request threads_request)) (after_turns demo_proxy demo_schedule t)"
proof -
  let ?s = "after_turns demo_proxy demo_schedule" and ?r = "\<lambda>u. run_proxy demo_proxy (take u demo_trip)"
  have small: "last_id (?s t) \<le> 1 \<and> ss_backend_seq (mux_session (?s t)) \<le> 1" for t
  proof -
    obtain u where "u \<le> 8" "?s t = ?r u" by (rule demo_schedule_at)
    then show ?thesis using demo_trip_facts(1) unfolding list_all_iff set_upt by simp
  qed
  have up: "serving 1 (?s t)" if "2 \<le> t" for t
  proof -
    obtain u where "u \<le> 8" "?s t = ?r u" "t \<le> 8 \<longrightarrow> u = t" "8 \<le> t \<longrightarrow> u = 8" by (rule demo_schedule_at)
    moreover have "u \<in> {2..<9}" using calculation that by (cases "t \<le> 8") auto
    ultimately show ?thesis using demo_trip_facts(2) unfolding list_all_iff set_upt by simp
  qed
  have adapter: "\<exists>t' y spawn run. t < t' \<and> demo_schedule t' = AdapterSays (Response y) spawn run \<and> rs_request_seq y = rq_seq q"
    if wire: "px_wire (?s (Suc t)) = px_wire (?s t) @ [Request q]" for t q
  proof -
    have "t < 8"
    proof (rule ccontr)
      assume "\<not> t < 8"
      then show False using wire demo_trip_rest [of "t - 8"] demo_trip_rest [of "Suc t - 8"] by simp
    qed
    then have t: "t = 4" using demo_trip_facts(3) wire demo_trip_start [of t] demo_trip_start [of "Suc t"]
      by (auto simp: list_all_iff)
    then have "rq_seq q = 1" using wire demo_trip_start [of 4] demo_trip_start [of 5] demo_trip_facts(4,5) by auto
    then show ?thesis using t
      by (intro exI [of _ 5]) (simp add: demo_schedule_def demo_trip_def demo_turns_def threads_response_def)
  qed
  obtain p where p: "hm_get (px_clients (?s 2)) 1 = Some p" "pt_reading p" "pt_inbox p = []"
    using demo_trip_facts(6) demo_trip_start [of 2] by auto
  have "\<exists>t. answered 1 (rq_seq threads_request) (length (pt_inbox p)) (message_to_value (Request threads_request)) (?s t)"
  proof (rule client_request_answered [OF _ _ demo_schedule_fair adapter up p(1,2)])
    show "last_id (?s t) < 2 ^ 64 - 1" "ss_backend_seq (mux_session (?s t)) < i64_max" for t
      using small [of t] by (simp_all add: i64_max_def)
    show "demo_schedule 2 = ClientSays 1 (Request threads_request)"
      by (simp add: demo_schedule_def demo_trip_def demo_turns_def)
    show "in_i64 (rq_seq threads_request)" "rq_command threads_request \<noteq> snapshot_command"
      by (simp_all add: threads_request_def in_i64_def snapshot_command_def)
    show "be_plugin (pc_env demo_proxy) = None \<or> rq_command threads_request \<noteq> plugin_info_command"
      by (simp add: demo_proxy_def)
  qed
  then show ?thesis using p(3) by (simp add: threads_request_def)
qed

end
