(* ===== verification/ProxyOrder.thy ===== *)
theory ProxyOrder imports ProxyAnswer SystemTyped begin

text \<open>
  The order of the requests (\<open>dap-core/src/mux_bridge.rs\<close> and the loop of \<open>protocol-mux\<close>). The readers of
  the clients' bridges put what they read into one queue, and the loop takes from it one after the
  other: so the adapter gets the clients' requests in the order in which they were read, all clients
  together, numbered 1, 2, 3 and so on.
\<close>

section \<open>What the clients hand over\<close>

definition hands_over :: "proxy_config \<Rightarrow> proxy_system \<Rightarrow> system_event \<Rightarrow> (int \<times> json) list" where
  "hands_over k S e =
     (case e of
        ClientSays i m \<Rightarrow>
          (case hm_get (px_clients S) i of
             None \<Rightarrow> []
           | Some p \<Rightarrow>
               if pt_reading p \<and> loop_running S
               then (case bridge_client_message (pc_host k) (be_plugin (pc_env k)) m of Inl _ \<Rightarrow> [] | Inr v \<Rightarrow> [(i, v)])
               else [])
      | _ \<Rightarrow> [])"

fun handed_over :: "proxy_config \<Rightarrow> proxy_system \<Rightarrow> system_event list \<Rightarrow> (int \<times> json) list" where
  "handed_over k S [] = []"
| "handed_over k S (e # es) = hands_over k S e @ handed_over k (system_step k S e) es"

lemma handed_over_snoc:
  "handed_over k S (es @ [e]) = handed_over k S es @ hands_over k (foldl (system_step k) S es) e"
  by (induction es arbitrary: S) simp_all

definition sends :: "session_op list \<Rightarrow> (int \<times> json) list" where
  "sends ops = List.map_filter (\<lambda>op. case op of ClientSend i v \<Rightarrow> Some (i, v) | _ \<Rightarrow> None) ops"

lemma sends_simps [simp]:
  "sends [] = []" "sends (ClientSend i v # ops) = (i, v) # sends ops"
  "sends (Attach role # ops) = sends ops" "sends (Detach i # ops) = sends ops"
  "sends (ops @ ops') = sends ops @ sends ops'"
  by (simp_all add: sends_def List.map_filter_def)

text \<open>Every other turn leaves the queue alone or adds an operation that is no message.\<close>

lemma step_sends:
  assumes "e \<noteq> TakeOp"
  shows "sends (px_ops (system_step k S e)) = sends (px_ops S) @ hands_over k S e"
  using assms
  by (cases e) (auto simp: hands_over_def read_client_def client_leaves_def client_broken_def write_client_def
      read_adapter_def stop_writing_def say_goodbye_def write_adapter_def take_value_def Let_def
      split: option.split sum.split prod.split list.split)

section \<open>What the loop sends on\<close>

text \<open>What is sent on for a value: it under its number, and only the number a cancel names may differ.\<close>

definition carries :: "nat \<Rightarrow> json \<Rightarrow> json \<Rightarrow> bool" where
  "carries n v u \<longleftrightarrow> message_kind u = KRequest \<and> command u = command v \<and> seq u = Some (int n) \<and>
     (command v = Some ''cancel'' \<or> u = set_seq (int n) v)"

text \<open>Not sent on: what is no request, and what the loop serves itself.\<close>

definition goes_on :: "proxy_system \<Rightarrow> int \<times> json \<Rightarrow> bool" where
  "goes_on S x \<longleftrightarrow> message_kind (snd x) = KRequest \<and>
     \<not> (map_option pt_role (hm_get (px_clients S) (fst x)) = Some Control \<and> command (snd x) = Some snapshot_command)"

definition numbered_from_1 :: "(int \<times> json) list \<Rightarrow> json list \<Rightarrow> bool" where
  "numbered_from_1 xs us \<longleftrightarrow> list_all2 (\<lambda>y u. carries (fst y) (snd (snd y)) u) (enumerate 1 xs) us"

lemma numbered_nil [simp]: "numbered_from_1 [] us \<longleftrightarrow> us = []"
  by (simp add: numbered_from_1_def)

lemma numbered_length: "numbered_from_1 xs us \<Longrightarrow> length us = length xs"
  by (auto simp: numbered_from_1_def dest: list_all2_lengthD)

lemma numbered_snoc:
  assumes "numbered_from_1 xs us" and "carries (Suc (length us)) (snd x) u"
  shows "numbered_from_1 (xs @ [x]) (us @ [u])"
  using assms numbered_length [OF assms(1)]
  by (simp add: numbered_from_1_def enumerate_append_eq list_all2_appendI)

lemma translate_other: "command v \<noteq> Some ''cancel'' \<Longrightarrow> fst (translate_cancel v r) = v"
  by (simp add: translate_cancel_def cancel_request_id_def split: option.split)

text \<open>One input of the loop that does not end it.\<close>

lemma request_sent_on:
  assumes ok: "session_ok s" and small: "ss_backend_seq s < i64_max" and count: "ss_backend_seq s = int (length (ss_upstream s))"
    and step: "session_step s (Op (ClientSend i v)) = Running t" and v: "dap_value v"
  obtains (kept) c where "hm_get (ss_clients s) i = Some c"
      "message_kind v \<noteq> KRequest \<or> cs_role c = Control \<and> command v = Some snapshot_command"
      "ss_upstream t = ss_upstream s" "ss_backend_seq t = ss_backend_seq s"
  | (sent) c u where "hm_get (ss_clients s) i = Some c" "message_kind v = KRequest"
      "\<not> (cs_role c = Control \<and> command v = Some snapshot_command)"
      "ss_upstream t = ss_upstream s @ [u]" "ss_backend_seq t = ss_backend_seq s + 1"
      "carries (Suc (length (ss_upstream s))) v u"
proof -
  have h: "handle_client_message i v s = (t, None)" using step by (simp add: loop_result_def split: prod.splits option.splits)
  then obtain c where c: "hm_get (ss_clients s) i = Some c"
    by (cases "hm_get (ss_clients s) i") (simp_all add: handle_client_message_unknown)
  show thesis
  proof (cases "message_kind v \<noteq> KRequest \<or> cs_role c = Control \<and> command v = Some snapshot_command")
    case True
    then have "ss_upstream t = ss_upstream s" "ss_backend_seq t = ss_backend_seq s"
      using h c by (auto simp: handle_client_message_def serve_snapshot_def deliver_to_client_def split: if_splits option.splits)
    with c True show thesis by (rule kept)
  next
    case False
    then have req: "message_kind v = KRequest" and fwd: "\<not> (cs_role c = Control \<and> command v = Some snapshot_command)"
      by blast+
    let ?b = "ss_backend_seq s + 1"
    obtain n where n: "seq v = Some n" using dap_value_seq [OF v] by blast
    have b: "in_i64 ?b" using small count by (simp add: in_i64_def i64_max_def)
    have up: "ss_upstream_open s"
    proof (rule ccontr)
      assume "\<not> ss_upstream_open s"
      then have "snd (handle_client_message i v s) = Some UpstreamNotConnected"
        using handle_client_message_cases [OF c req fwd]
        by (auto simp: Let_def send_upstream_def forward_editor_def forward_other_def split: option.split)
      then show False using h by simp
    qed
    show thesis
    proof (cases "cs_role c = Editor")
      case True
      let ?w = "fst (translate_cancel v (ss_remapper s))"
      have "ss_upstream t = ss_upstream s @ [set_seq ?b ?w]" "ss_backend_seq t = ?b"
        using editor_request_sent [OF ok small up c True req n] step by auto
      moreover have "carries (Suc (length (ss_upstream s))) v (set_seq ?b ?w)"
        using req b count
        by (cases "command v = Some ''cancel''") (simp_all add: carries_def seq_set_seq translate_other add.commute)
      ultimately show thesis using sent [OF c req fwd] by blast
    next
      case False
      have "ss_upstream t = ss_upstream s @ [set_seq ?b v]" "ss_backend_seq t = ?b"
        using other_request_sent [OF ok small up c False req n fwd] step by auto
      moreover have "carries (Suc (length (ss_upstream s))) v (set_seq ?b v)"
        using req b count by (auto simp: carries_def seq_set_seq add.commute)
      ultimately show thesis using sent [OF c req fwd] by blast
    qed
  qed
qed

lemma other_input_keeps:
  assumes "\<And>i v. x \<noteq> Op (ClientSend i v)"
  shows "ss_upstream (final_session (session_step s x)) = ss_upstream s \<and>
    ss_backend_seq (final_session (session_step s x)) = ss_backend_seq s"
proof (cases x)
  case (Op op)
  then show ?thesis using assms by (cases op) (simp_all add: attach_def detach_def Let_def)
qed (simp_all add: drop_recv_def split: option.split)

section \<open>Every turn keeps the order\<close>

definition in_order :: "proxy_system \<Rightarrow> (int \<times> json) list \<Rightarrow> bool" where
  "in_order S xs \<longleftrightarrow> ss_backend_seq (mux_session S) = int (length (ss_upstream (mux_session S))) \<and>
     (\<exists>taken. xs = taken @ sends (px_ops S) \<and> list_all (\<lambda>x. has_bridge (fst x) S) taken \<and>
        numbered_from_1 (filter (goes_on S) taken) (ss_upstream (mux_session S)))"

lemma running_before:
  "loop_running (system_step k S e) \<Longrightarrow> loop_running S"
  using step_loop [of k S e] by (cases "px_loop S") (auto simp: loop_running_def)

lemma loop_session_open: "loop_running S \<Longrightarrow> px_loop S = Running (mux_session S)"
  by (cases "px_loop S") (simp_all add: loop_running_def mux_session_def)

text \<open>The bridges and their roles stay.\<close>

lemma bridge_step:
  assumes "fit k S" and "has_bridge i S"
  shows "has_bridge i (system_step k S e) \<and> goes_on (system_step k S e) (i, v) = goes_on S (i, v)"
proof -
  obtain p where p: "hm_get (px_clients S) i = Some p" using assms(2) by (auto simp: has_bridge_def)
  then obtain p' where "hm_get (px_clients (system_step k S e)) i = Some p'" "pt_role p' = pt_role p"
    using system_step_moved [OF fit_parts(1) [OF assms(1)], of i k e] fit_parts(5) [OF assms(1) p] by (auto simp: moved_def)
  then show ?thesis using p by (simp add: has_bridge_def goes_on_def)
qed

lemma in_order_kept:
  assumes fit: "fit k S" and ord: "in_order S xs"
    and ops: "xs' = xs @ ys" "sends (px_ops (system_step k S e)) = sends (px_ops S) @ ys"
    and same: "ss_upstream (mux_session (system_step k S e)) = ss_upstream (mux_session S)"
      "ss_backend_seq (mux_session (system_step k S e)) = ss_backend_seq (mux_session S)"
  shows "in_order (system_step k S e) xs'"
proof -
  obtain taken where t: "xs = taken @ sends (px_ops S)" "list_all (\<lambda>x. has_bridge (fst x) S) taken"
      "numbered_from_1 (filter (goes_on S) taken) (ss_upstream (mux_session S))"
    using ord by (auto simp: in_order_def)
  have "filter (goes_on (system_step k S e)) taken = filter (goes_on S) taken"
    using t(2) bridge_step [OF fit] by (intro filter_cong) (force simp: list_all_iff)+
  then show ?thesis using t ord ops same bridge_step [OF fit]
    by (auto simp: in_order_def list_all_iff intro!: exI [of _ taken])
qed

lemma take_op_in_order:
  assumes fit: "fit k S" and typed: "system_typed S" and ord: "in_order S xs"
    and runs: "loop_running (take_op S)" and ops: "px_ops S = ClientSend i v # ops"
  shows "in_order (take_op S) xs"
proof -
  let ?s = "mux_session S" and ?T = "take_op S"
  have run: "loop_running S" using runs running_before [of k S TakeOp] by simp
  have step: "session_step ?s (Op (ClientSend i v)) = Running (mux_session ?T)"
    using ops run loop_session_open [OF run] loop_session_open [OF runs]
    by (simp add: take_op_def Let_def)
  have ops': "sends (px_ops S) = (i, v) # sends (px_ops ?T)" using take_op_running(1) [OF ops run] ops by simp
  have v: "dap_value v" using typed ops by (simp add: system_typed_def op_typed_def)
  obtain taken where t: "xs = taken @ sends (px_ops S)" "list_all (\<lambda>x. has_bridge (fst x) S) taken"
      "numbered_from_1 (filter (goes_on S) taken) (ss_upstream ?s)" "ss_backend_seq ?s = int (length (ss_upstream ?s))"
    using ord by (auto simp: in_order_def)
  have stays: "has_bridge j ?T \<and> goes_on ?T (j, w) = goes_on S (j, w)" if "has_bridge j S" for j w
    using bridge_step [OF fit that, of TakeOp] by simp
  have same: "filter (goes_on ?T) taken = filter (goes_on S) taken"
    using t(2) stays by (intro filter_cong) (force simp: list_all_iff)+
  have xs: "xs = (taken @ [(i, v)]) @ sends (px_ops ?T)" using t(1) ops' by simp
  have bridged: "has_bridge i S \<and> map_option pt_role (hm_get (px_clients S) i) = Some (cs_role c)"
    if "hm_get (ss_clients ?s) i = Some c" for c
    using fit_parts(2) [OF fit] that by (auto simp: boxes_ok_def has_bridge_def)
  from fit_parts(3) [OF fit] fit_parts(4) [OF fit] t(4) step v show ?thesis
  proof (cases rule: request_sent_on)
    case (kept c)
    then have "\<not> goes_on S (i, v)" using bridged [OF kept(1)] by (auto simp: goes_on_def)
    then show ?thesis using kept xs t same stays bridged [OF kept(1)]
      by (auto simp: in_order_def list_all_iff intro!: exI [of _ "taken @ [(i, v)]"])
  next
    case (sent c u)
    then have "goes_on S (i, v)" using bridged [OF sent(1)] by (auto simp: goes_on_def)
    then show ?thesis using sent xs t same stays bridged [OF sent(1)] numbered_snoc [OF t(3), of "(i, v)" u]
      by (auto simp: in_order_def list_all_iff intro!: exI [of _ "taken @ [(i, v)]"])
  qed
qed

lemma in_order_step:
  assumes fit: "fit k S" and typed: "system_typed S" and ord: "in_order S xs" and runs: "loop_running (system_step k S e)"
  shows "in_order (system_step k S e) (xs @ hands_over k S e)"
proof (cases "e = TakeOp \<and> (\<exists>i v ops. px_ops S = ClientSend i v # ops)")
  case True
  then show ?thesis using take_op_in_order [OF fit typed ord] runs by (auto simp: hands_over_def)
next
  case False
  let ?T = "system_step k S e"
  have run: "loop_running S" using running_before [OF runs] .
  have "sends (px_ops ?T) = sends (px_ops S) @ hands_over k S e"
  proof (cases "e = TakeOp")
    case True
    have "sends (px_ops (take_op S)) = sends (px_ops S)"
    proof (cases "px_ops S")
      case (Cons op ops)
      then show ?thesis using take_op_running(1) [OF Cons run] False True by (cases op) auto
    qed (simp add: take_op_def)
    then show ?thesis using True by (simp add: hands_over_def)
  qed (rule step_sends)
  moreover have "ss_upstream (mux_session ?T) = ss_upstream (mux_session S) \<and>
      ss_backend_seq (mux_session ?T) = ss_backend_seq (mux_session S)"
  proof -
    consider "px_loop ?T = px_loop S" | x where "px_loop ?T = loop_step (px_loop S) x" "input_of e S x" using step_loop by blast
    then show ?thesis
    proof cases
      case (2 x)
      have "\<And>i v. x \<noteq> Op (ClientSend i v)" using 2(2) False by (auto simp: input_of_def)
      then show ?thesis using other_input_keeps [of x "mux_session S"] 2(1) loop_session_open [OF run]
        by (simp add: mux_session_def [of ?T])
    qed (simp add: mux_session_def)
  qed
  ultimately show ?thesis using in_order_kept [OF fit ord] by blast
qed

section \<open>The property\<close>

text \<open>Numbers and client ids do not wrap, and what the other ends say has numbers of 64 bits.\<close>

definition order_room :: "proxy_system \<Rightarrow> system_event \<Rightarrow> bool" where
  "order_room S e \<longleftrightarrow> system_room S e \<and> last_id S < 2 ^ 64 - 1 \<and> event_typed e"

text \<open>The system with what has been handed over so far.\<close>

fun traced :: "proxy_config \<Rightarrow> proxy_system \<times> (int \<times> json) list \<Rightarrow> system_event \<Rightarrow> proxy_system \<times> (int \<times> json) list" where
  "traced k (S, xs) e = (system_step k S e, xs @ hands_over k S e)"

lemma traced_run: "foldl (traced k) (S, xs) es = (foldl (system_step k) S es, xs @ handed_over k S es)"
  by (induction es arbitrary: S xs) simp_all

lemma traced_ok: "ok_run (traced k) (\<lambda>T. order_room (fst T)) (S, xs) es = ok_run (system_step k) order_room S es"
  by (induction es arbitrary: S xs) simp_all

fun order_ok :: "proxy_config \<Rightarrow> proxy_system \<times> (int \<times> json) list \<Rightarrow> bool" where
  "order_ok k (S, xs) \<longleftrightarrow> system_ok k S \<and> boxes_ok S \<and> seated S \<and> system_typed S \<and> (loop_running S \<longrightarrow> in_order S xs)"

lemma order_ok_step:
  assumes "order_ok k (S, xs)" and "order_room S e"
  shows "order_ok k (traced k (S, xs) e)"
proof -
  have fit: "fit k S" using assms by (simp add: fit_def ids_left_def seated_def order_room_def system_room_def)
  have "loop_running S" if "loop_running (system_step k S e)" using running_before [OF that] .
  then have "in_order (system_step k S e) (xs @ hands_over k S e)" if "loop_running (system_step k S e)"
    using in_order_step [OF fit _ _ that] assms(1) that by simp
  then show ?thesis
    using assms system_step_ok [of k S e] system_step_boxes_ok [of S k e] seated_step [of S k e] system_step_typed [of S e k]
      fit_parts(1) [OF fit]
    by (simp add: order_room_def)
qed

interpretation od: guarded_machine "(proxy_start, [])" "traced k" "\<lambda>T. order_room (fst T)" "order_ok k" for k
proof (unfold_locales, goal_cases)
  case 1
  have "in_order proxy_start []"
    by (simp add: in_order_def) (simp add: proxy_start_def mux_session_def)
  then show ?case
    using proxy_start_ok proxy_start_seated sy.good_start bx.good_start by simp
next
  case (2 T e)
  obtain S xs where "T = (S, xs)" by (cases T)
  then show ?case using 2 order_ok_step [of k S xs e] by simp
qed

text \<open>C8: The adapter gets the clients' requests in the order in which the bridges read them, whatever
  the scheduler does: of what the readers of all clients have handed over, in that order, a first part
  has been taken by the loop, and the loop has sent on exactly its requests, but for the snapshot
  requests of control clients, under the numbers 1, 2, 3 and so on, each as the client sent it but for
  that number and the number a cancel names. What has been written to the adapter are the first of
  these, in this order, with the defaults of the target filled in, and at most one disconnect at the end.\<close>

theorem requests_in_order:
  assumes "ok_run (system_step k) order_room proxy_start es" and "loop_running (run_proxy k es)"
  shows "\<exists>taken g. handed_over k proxy_start es = taken @ sends (px_ops (run_proxy k es)) \<and>
    numbered_from_1 (filter (goes_on (run_proxy k es)) taken) (ss_upstream (mux_session (run_proxy k es))) \<and>
    filter is_request (px_wire (run_proxy k es)) =
      List.map_filter (bridge_upstream_value (pc_attach_defaults k))
        (take (px_taken (run_proxy k es)) (ss_upstream (mux_session (run_proxy k es)))) @ g \<and>
    (g = [] \<or> g = [request_adapter_disconnect])"
proof -
  have ok: "order_ok k (run_proxy k es, handed_over k proxy_start es)"
    using od.good_reached [of k es] assms(1) by (simp add: traced_ok traced_run run_proxy_def)
  then obtain taken where "handed_over k proxy_start es = taken @ sends (px_ops (run_proxy k es))"
      "numbered_from_1 (filter (goes_on (run_proxy k es)) taken) (ss_upstream (mux_session (run_proxy k es)))"
    using assms(2) by (auto simp: in_order_def)
  moreover obtain g where "filter is_request (px_wire (run_proxy k es)) = forwarded k (run_proxy k es) @ g"
      "g = [] \<or> g = [request_adapter_disconnect]"
    using ok by (auto simp: system_ok_def wire_ok_def)
  ultimately show ?thesis unfolding forwarded_def by blast
qed

text \<open>Two control clients ask in turn; two of the three requests have been written to the adapter.\<close>

definition demo_both :: "system_event list" where
  "demo_both =
     [Connects Control, Connects Control, TakeOp, TakeOp, ClientSays 2 (Request threads_request),
      ClientSays 1 (Request threads_request), ClientSays 2 (Request (threads_request\<lparr>rq_seq := 8\<rparr>)),
      TakeOp, TakeOp, WriteAdapter, TakeOp, WriteAdapter]"

lemma demo_both_facts:
  "ok_run (system_step demo_proxy) order_room proxy_start demo_both" "loop_running (run_proxy demo_proxy demo_both)"
  "sends (px_ops (run_proxy demo_proxy demo_both)) = []"
  "map fst (handed_over demo_proxy proxy_start demo_both) = [2, 1, 2]"
  "filter (goes_on (run_proxy demo_proxy demo_both)) (handed_over demo_proxy proxy_start demo_both) =
     handed_over demo_proxy proxy_start demo_both"
  by code_simp+

theorem requests_in_order_witness:
  "map fst (handed_over demo_proxy proxy_start demo_both) = [2, 1, 2] \<and>
   numbered_from_1 (handed_over demo_proxy proxy_start demo_both) (ss_upstream (mux_session (run_proxy demo_proxy demo_both)))"
  using requests_in_order [OF demo_both_facts(1,2)] demo_both_facts(3-5) by simp

end
