(* ===== verification/LifeProperties.thy ===== *)
theory LifeProperties imports ProxyLife RouteProperties ProxyProperties begin

text \<open>
  What a proxy leaves behind when it exits, and a run of one that starts a target, an adapter and two
  child proxies, of which one never reports.
\<close>


text \<open>The third process reports its port, the fourth writes nothing.\<close>

definition demo_plan :: child_spawn_plan where
  "demo_plan = \<lparr>cp_backend = PlanStdio ''fake'' [], cp_debug_request = ''launch'', cp_debug_arguments = JNull, cp_child_depth = 0\<rparr>"

definition demo_life_env :: life_env where
  "demo_life_env =
     \<lparr>le_host = demo_host, le_exec = (\<lambda>_ _ _. None), le_connects = (\<lambda>_ _. False), le_polls = (\<lambda>_ _. [False, True]),
      le_exe = ''dap-proxy'', le_lines = (\<lambda>n. if n = 2 then [Some ''ready''] else []),
      le_parse = (\<lambda>_. Some (jobj [(''controlPort'', jint 4711), (''instanceId'', JString ''c'')])),
      le_print = (\<lambda>_. ''null''), le_load_profile = (\<lambda>_. Inr fake_preset), le_uuid = ''u1'', le_now = 5, le_pid = 7,
      le_bind = (\<lambda>_. Inr 4711), le_loop_alive = True, le_dial = (\<lambda>_. None), le_store = None, le_io = io_ok,
      le_world = demo_world, le_encode = (\<lambda>_. ''{}''), le_decode = (\<lambda>_. None),
      le_early = [demo_plan], le_late = [demo_plan], le_end = Terminated\<rparr>"

definition demo_life_cli :: cli where
  "demo_life_cli = demo_cli\<lparr>cli_adapter := Some ''python'', cli_program := Some ''fw'', cli_target := Some ''qemu''\<rparr>"

definition demo_engine :: engine where
  "demo_engine = \<lparr>en_instances = [], en_registry = [demo_plugin],
     en_targets = [demo_target\<lparr>tm_spawn := Some \<lparr>ts_command = ''qemu-system'', ts_args = []\<rparr>\<rparr>]\<rparr>"

definition demo_life :: life where
  "demo_life = \<lparr>lf_started = 0, lf_running = [], lf_files = [], lf_ready = []\<rparr>"

text \<open>The stages of the run: a life with so many starts, the running processes, the session file or none.\<close>

definition stage :: "nat \<Rightarrow> nat list \<Rightarrow> bool \<Rightarrow> bool \<Rightarrow> life" where
  "stage n running ready kept = \<lparr>lf_started = n, lf_running = running,
     lf_files = (if kept then [(record_path ''u1'', ''{}'')] else []), lf_ready = (if ready then [(4711, ''u1'')] else [])\<rparr>"

definition demo_sv :: supervisor where
  "demo_sv = \<lparr>sv_scope = None, sv_parent_instance_id = ''u1'', sv_child_profile = ''fake'', sv_child_profile_file = None,
     sv_child_max_children = 16\<rparr>"

definition demo_session :: session_handle where
  "demo_session = \<lparr>sh_instance_id = ''u1'', sh_adapter_id = ''python'', sh_control_port = None\<rparr>"

definition demo_life_launch :: launch_options where
  "demo_life_launch = \<lparr>lo_request = ''launch'', lo_program = Some ''fw'', lo_adapter = Some ''python'', lo_extra = jobj []\<rparr>"

lemma demo_launch_built: "build_launch_options demo_life_cli = Inr demo_life_launch"
  by (simp add: build_launch_options_def demo_life_cli_def demo_cli_def demo_life_launch_def or_else_def)

lemma demo_target_started:
  "\<exists>d. target_of demo_life_env demo_life_cli demo_engine demo_life_launch demo_life =
     (Inr (\<lparr>pg_process = Some 0\<rparr>, Some d), stage 1 [0] False False)"
proof -
  have "case target_of demo_life_env demo_life_cli demo_engine demo_life_launch demo_life of
      (Inr (g, Some d), L) \<Rightarrow> g = \<lparr>pg_process = Some 0\<rparr> \<and> L = stage 1 [0] False False | _ \<Rightarrow> False"
    by code_simp
  then show ?thesis
    by (cases "target_of demo_life_env demo_life_cli demo_engine demo_life_launch demo_life")
      (auto split: sum.splits option.splits simp del: One_nat_def)
qed

lemma demo_opened:
  "\<exists>od en en'. open_session demo_life_env demo_life_cli (Some d) demo_life_launch demo_engine (stage 1 [0] False False) =
     (Inr od, en, stage 2 [0, 1] False False) \<and> od_session od = demo_session \<and> od_adapter od = \<lparr>pg_process = Some 1\<rparr> \<and>
     map_option snd (od_children od) = Some demo_sv \<and> mo_control_port (od_options od) = Some 0 \<and>
     engine_set_control_port demo_session 4711 en = (Inr (demo_session\<lparr>sh_control_port := Some 4711\<rparr>), en')"
proof -
  have "case open_session demo_life_env demo_life_cli (Some d) demo_life_launch demo_engine (stage 1 [0] False False) of
      (Inr od, en, L) \<Rightarrow> L = stage 2 [0, 1] False False \<and> od_session od = demo_session \<and>
        od_adapter od = \<lparr>pg_process = Some 1\<rparr> \<and> map_option snd (od_children od) = Some demo_sv \<and>
        mo_control_port (od_options od) = Some 0 \<and>
        fst (engine_set_control_port demo_session 4711 en) = Inr (demo_session\<lparr>sh_control_port := Some 4711\<rparr>) | _ \<Rightarrow> False"
    by code_simp
  then show ?thesis by (auto split: prod.splits sum.splits) (metis surjective_pairing)
qed

lemma demo_tail:
  "serve_child_plans demo_life_env (Some demo_sv) [demo_plan] ([], stage 2 [0, 1] False False) = ([2], stage 3 [0, 1, 2] False False)"
  "open_cleanup demo_life_env (stage 3 [0, 1, 2] False False) = (\<lparr>cg_instance_id = None\<rparr>, stage 3 [0, 1, 2] False False)"
  "leave_file demo_life_env demo_life_cli demo_session 4711 \<lparr>cg_instance_id = None\<rparr> (stage 3 [0, 1, 2] False False) =
     (Inr \<lparr>cg_instance_id = Some ''u1''\<rparr>, stage 3 [0, 1, 2] True True)"
  "serve_child_plans demo_life_env (Some demo_sv) [demo_plan] ([2], stage 3 [0, 1, 2] True True) = ([2], stage 4 [0, 1, 2, 3] True True)"
  "guard_drop io_ok \<lparr>cg_instance_id = Some ''u1''\<rparr> [(record_path ''u1'', ''{}'')] = []"
  by code_simp+

lemma demo_life_run:
  "proxy_main demo_life_env (Inr demo_engine) demo_life_cli demo_life = (Inr (), stage 4 [3] True False)"
proof -
  obtain d where t: "target_of demo_life_env demo_life_cli demo_engine demo_life_launch demo_life =
      (Inr (\<lparr>pg_process = Some 0\<rparr>, Some d), stage 1 [0] False False)"
    using demo_target_started by blast
  obtain od en en' where o: "open_session demo_life_env demo_life_cli (Some d) demo_life_launch demo_engine
      (stage 1 [0] False False) = (Inr od, en, stage 2 [0, 1] False False)"
    and od: "od_session od = demo_session" "od_adapter od = \<lparr>pg_process = Some 1\<rparr>"
      "map_option snd (od_children od) = Some demo_sv" "mo_control_port (od_options od) = Some 0"
    and port: "engine_set_control_port demo_session 4711 en = (Inr (demo_session\<lparr>sh_control_port := Some 4711\<rparr>), en')"
    using demo_opened [of d] by blast
  have env: "le_bind demo_life_env 0 = Inr 4711" "le_loop_alive demo_life_env" "le_early demo_life_env = [demo_plan]"
    "le_late demo_life_env = [demo_plan]" "le_store demo_life_env = None" "le_end demo_life_env = Terminated"
    "le_io demo_life_env = io_ok"
    by (simp_all add: demo_life_env_def)
  have "start_multiplexed_proxy demo_life_env (od_options od) = Inr (Some 4711)"
    by (simp add: start_multiplexed_proxy_def control_listener_def serve_control_attach_def od env)
  then have "editor_session demo_life_env demo_life_cli en od (stage 2 [0, 1] False False) =
      finish_session demo_life_env od \<lparr>cg_instance_id = Some ''u1''\<rparr> ([2], stage 3 [0, 1, 2] True True)"
    by (simp add: editor_session_def od env demo_tail port del: One_nat_def)
  also have "\<dots> = (Inr (), stage 4 [0, 3] True False)"
    using demo_tail(5)
    by (simp add: finish_session_def od env demo_tail(4) kill_children_def teardown_def guard_shutdown_def
        kill_adapter_process_def del: One_nat_def) (simp add: stage_def)
  finally show ?thesis
    using t o by (simp add: proxy_main_def proxy_mode_def run_editor_proxy_def demo_launch_built close_target_def
        guard_shutdown_def kill_adapter_process_def stage_def del: One_nat_def)
      (simp add: demo_life_cli_def demo_cli_def)
qed

lemma demo_target_process: "target_process demo_life_env (Inr demo_engine) demo_life_cli demo_life = Some 0"
  using demo_target_started by (auto simp: target_process_def demo_launch_built)


end
