(* ===== verification/FakeAdapter.thy ===== *)
theory FakeAdapter imports DapTransport begin

text \<open>
  The adapter of the end-to-end tests, \<open>tests/fixtures/fake-dap-adapter/src/main.rs\<close>: a debug adapter
  with a fixed list of stops that it walks through. Its static variables are the fields of a record, with
  what it has written to its standard output as the last. A turn of its loop handles one JSON tree; the
  loop over the bytes of its standard input reads them with a reader of its own. The text of a tree
  (\<open>serde_json\<close>), base64 and the parsed command line are arguments. An allocation is taken to succeed.
\<close>

section \<open>State\<close>

record fake_args =
  fa_step_back :: bool
  fa_exception_filter_options :: bool
  fa_set_variable :: bool
  fa_set_expression :: bool
  fa_function_breakpoints :: bool
  fa_goto_request :: bool
  fa_completions_request :: bool
  fa_emit_start_debugging :: bool

record fake_env =
  fe_args :: fake_args
  fe_encode :: "string \<Rightarrow> string"
  fe_decode :: "string \<Rightarrow> string option"

record fake_adapter =
  fk_seq :: int
  fk_watch :: nat
  fk_program :: string
  fk_step :: nat
  fk_out :: "json list"

definition fake_start :: fake_adapter where
  "fake_start = \<lparr>fk_seq = 1, fk_watch = 0, fk_program = ''/fake/main.py'', fk_step = 0, fk_out = []\<rparr>"

section \<open>The stops\<close>

record fake_frame =
  ff_id :: int
  ff_name :: string
  ff_line :: int

definition frames_of :: "(string \<times> int) list \<Rightarrow> fake_frame list" where
  "frames_of fs = map (\<lambda>(i, name, line). \<lparr>ff_id = int i + 1, ff_name = name, ff_line = line\<rparr>) (zip [0..<length fs] fs)"

definition stack_states :: "fake_frame list list" where
  "stack_states =
     [frames_of [(''accumulate'', 50), (''main'', 76)],
      frames_of [(''accumulate'', 51), (''main'', 76)],
      frames_of [(''process_item'', 38), (''accumulate'', 51), (''main'', 76)],
      frames_of [(''normalize'', 30), (''process_item'', 38), (''accumulate'', 51), (''main'', 76)],
      frames_of [(''normalize'', 33), (''process_item'', 38), (''accumulate'', 51), (''main'', 76)],
      frames_of [(''process_item'', 40), (''normalize'', 33), (''accumulate'', 51), (''main'', 76)],
      frames_of [(''process_item'', 41), (''accumulate'', 51), (''main'', 76)],
      frames_of [(''accumulate'', 52), (''main'', 76)],
      frames_of [(''accumulate'', 54), (''main'', 76)],
      frames_of [(''accumulate'', 50), (''main'', 76)]]"

definition reset_step_position :: "fake_adapter \<Rightarrow> fake_adapter" where
  "reset_step_position A = A\<lparr>fk_step := 0\<rparr>"

definition set_step_index :: "nat \<Rightarrow> fake_adapter \<Rightarrow> fake_adapter" where
  "set_step_index i A = A\<lparr>fk_step := min i (length stack_states - 1)\<rparr>"

definition advance_step :: "int \<Rightarrow> fake_adapter \<Rightarrow> fake_adapter" where
  "advance_step delta A =
     (if stack_states = [] then A
      else set_step_index (nat (min (max (int (fk_step A) + delta) 0) (int (length stack_states) - 1))) A)"

definition step_out :: "fake_adapter \<Rightarrow> fake_adapter" where
  "step_out A =
     (if stack_states = [] then A
      else let depth = length (stack_states ! fk_step A) in
        if depth \<le> 1 then A
        else case find (\<lambda>i. length (stack_states ! i) = depth - 1) [fk_step A + 1..<length stack_states] of
               Some i \<Rightarrow> set_step_index i A
             | None \<Rightarrow> set_step_index (length stack_states - 1) A)"

definition frames_at :: "nat \<Rightarrow> fake_frame list" where
  "frames_at i =
     (if i < length stack_states then stack_states ! i
      else case stack_states of [] \<Rightarrow> [] | fs # _ \<Rightarrow> fs)"

definition stack_trace_body :: "fake_adapter \<Rightarrow> json" where
  "stack_trace_body A =
     (let frames = map (\<lambda>f. jobj [(''id'', jint (ff_id f)), (''name'', JString (ff_name f)), (''line'', jint (ff_line f)),
             (''column'', jint 1), (''source'', jobj [(''path'', JString (fk_program A))])]) (frames_at (fk_step A))
      in jobj [(''stackFrames'', JArray frames), (''totalFrames'', jint (int (length frames)))])"

section \<open>Writing\<close>

text \<open>\<open>response["body"] = body\<close> on an object.\<close>

definition with_body :: "json option \<Rightarrow> json \<Rightarrow> json" where
  "with_body body v =
     (case (body, v) of
        (Some b, JObject m) \<Rightarrow> JObject (obj_insert ''body'' b m)
      | _ \<Rightarrow> v)"

definition emit :: "(int \<Rightarrow> json) \<Rightarrow> fake_adapter \<Rightarrow> fake_adapter" where
  "emit f A = A\<lparr>fk_seq := wrap_i64 (fk_seq A + 1), fk_out := fk_out A @ [f (fk_seq A)]\<rparr>"

definition fake_response :: "int \<Rightarrow> string \<Rightarrow> json option \<Rightarrow> int \<Rightarrow> json" where
  "fake_response rs cmd body n =
     with_body body (jobj [(''type'', JString ''response''), (''seq'', jint n), (''requestSeq'', jint rs),
        (''success'', JBool True), (''command'', JString cmd)])"

definition fake_event :: "string \<Rightarrow> json option \<Rightarrow> int \<Rightarrow> json" where
  "fake_event name body n =
     with_body body (jobj [(''type'', JString ''event''), (''seq'', jint n), (''event'', JString name)])"

definition fake_reverse_request :: "string \<Rightarrow> json \<Rightarrow> int \<Rightarrow> json" where
  "fake_reverse_request cmd arguments n =
     jobj [(''type'', JString ''request''), (''seq'', jint n), (''command'', JString cmd), (''arguments'', arguments)]"

definition fake_unknown :: "int \<Rightarrow> string \<Rightarrow> int \<Rightarrow> json" where
  "fake_unknown rs other n =
     jobj [(''type'', JString ''response''), (''seq'', jint n), (''requestSeq'', jint rs),
        (''success'', JBool False), (''command'', JString other), (''message'', JString (''unknown command: '' @ other))]"

section \<open>Bodies\<close>

definition initialize_body :: "fake_args \<Rightarrow> json" where
  "initialize_body args =
     jobj [(''supportsConfigurationDoneRequest'', JBool True), (''supportsStepBack'', JBool (fa_step_back args)),
       (''supportsReadMemoryRequest'', JBool True), (''supportsWriteMemoryRequest'', JBool True),
       (''supportsSetVariable'', JBool (fa_set_variable args)), (''supportsSetExpression'', JBool (fa_set_expression args)),
       (''supportsFunctionBreakpoints'', JBool (fa_function_breakpoints args)),
       (''supportsGotoTargetsRequest'', JBool (fa_goto_request args)), (''supportsGotoRequest'', JBool (fa_goto_request args)),
       (''supportsCompletionsRequest'', JBool (fa_completions_request args)),
       (''supportsBreakpointLocationsRequest'', JBool True), (''supportsDisassembleRequest'', JBool True),
       (''supportsExceptionFilterOptions'', JBool (fa_exception_filter_options args)),
       (''exceptionBreakpointFilters'', JArray
          [jobj [(''filter'', JString ''uncaught''), (''label'', JString ''Uncaught Exceptions''), (''default'', JBool True)],
           jobj [(''filter'', JString ''raised''), (''label'', JString ''Raised Exceptions''), (''default'', JBool False)]])]"

definition stopped_body :: "string \<Rightarrow> json" where
  "stopped_body reason = jobj [(''reason'', JString reason), (''threadId'', jint 1), (''allThreadsStopped'', JBool True)]"

definition stop_of :: "string \<Rightarrow> json" where
  "stop_of reason = jobj [(''reason'', JString reason), (''threadId'', jint 1)]"

text \<open>Results of \<open>evaluate\<close>: one expression counts how often it was asked for.\<close>

definition evaluate_for_tests :: "string \<Rightarrow> fake_adapter \<Rightarrow> string \<times> fake_adapter" where
  "evaluate_for_tests expression A =
     (let t = trim expression in
      if t = ''true'' \<or> t = ''1'' then (''true'', A)
      else if t = ''false'' \<or> t = ''0'' then (''false'', A)
      else if t = ''data_watch_marker'' then (show_nat (fk_watch A), A\<lparr>fk_watch := (fk_watch A + 1) mod 2 ^ 32\<rparr>)
      else if str_contains t ''x > 0'' then (''true'', A)
      else if str_contains t ''x < 0'' then (''false'', A)
      else (''eval('' @ t @ '')'', A))"

text \<open>
  What \<open>readMemory\<close> returns: the text as often as the count divided by 12 says, cut to the count. A
  negative count is a huge one as \<open>usize\<close>, and the repetition or the slice panics.
\<close>

definition memory_bytes :: "int \<Rightarrow> string option" where
  "memory_bytes count =
     (if count < 0 then None
      else let payload = concat (replicate (max (nat count div 12) 1) ''Hello, DAP!'')
        in Some (take (min (nat count) (length payload)) payload))"

section \<open>Requests\<close>

definition argument :: "json \<Rightarrow> string \<Rightarrow> json option" where
  "argument v k = Option.bind (jget v ''arguments'') (\<lambda>a. jget a k)"

definition arg_str :: "json \<Rightarrow> string \<Rightarrow> string \<Rightarrow> string" where
  "arg_str v k d = unwrap_or (Option.bind (argument v k) as_str) d"

definition arg_int :: "json \<Rightarrow> string \<Rightarrow> int \<Rightarrow> int" where
  "arg_int v k d = unwrap_or (Option.bind (argument v k) as_i64) d"

definition set_program :: "json \<Rightarrow> fake_adapter \<Rightarrow> fake_adapter" where
  "set_program v A = (case Option.bind (argument v ''program'') as_str of Some p \<Rightarrow> A\<lparr>fk_program := p\<rparr> | None \<Rightarrow> A)"

text \<open>The requests that are answered with a body and change nothing but the counters.\<close>

definition plain_body :: "fake_env \<Rightarrow> string \<Rightarrow> json \<Rightarrow> fake_adapter \<Rightarrow> json option option" where
  "plain_body env cmd v A =
     (if cmd = ''initialize'' then Some (Some (initialize_body (fe_args env)))
      else if cmd = ''threads'' then
        Some (Some (jobj [(''threads'', JArray [jobj [(''id'', jint 1), (''name'', JString ''main'')]])]))
      else if cmd = ''setBreakpoints'' \<or> cmd = ''setFunctionBreakpoints'' then Some None
      else if cmd = ''breakpointLocations'' then
        Some (Some (jobj [(''breakpoints'', JArray [jobj [(''line'', jint (arg_int v ''line'' 1)), (''column'', jint 1)]])]))
      else if cmd = ''setExpression'' then
        Some (Some (jobj [(''value'', JString (arg_str v ''value'' ''?'')), (''type'', JString ''int''),
          (''variablesReference'', jint 0)]))
      else if cmd = ''gotoTargets'' then
        (let line = arg_int v ''line'' 1
         in Some (Some (jobj [(''targets'', JArray [jobj [(''id'', jint 1),
              (''label'', JString (''line '' @ show_int line)), (''line'', jint line)]])])))
      else if cmd = ''completions'' then
        (let t = arg_str v ''text'' []
         in Some (Some (jobj [(''targets'', JArray [jobj [(''label'', JString (t @ ''_complete'')), (''start'', jint 0),
              (''length'', jint (int (length t)))]])])))
      else if cmd = ''setExceptionBreakpoints'' then
        Some (Some (jobj [(''breakpoints'', JArray (map (\<lambda>f. jobj [(''verified'', JBool True), (''filter'', JString f)])
          (List.map_filter as_str (unwrap_or (Option.bind (argument v ''filters'') as_array) []))))]))
      else if cmd = ''setVariable'' then
        Some (Some (jobj [(''value'', JString (arg_str v ''value'' ''?'')), (''type'', JString ''int''),
          (''variablesReference'', jint 0), (''name'', JString (arg_str v ''name'' ''?''))]))
      else if cmd = ''stackTrace'' then Some (Some (stack_trace_body A))
      else if cmd = ''scopes'' then
        Some (Some (jobj [(''scopes'', JArray [jobj [(''name'', JString ''Locals''), (''variablesReference'', jint 1),
          (''expensive'', JBool False)]])]))
      else if cmd = ''variables'' then
        Some (Some (jobj [(''variables'', JArray [jobj [(''name'', JString ''x''), (''value'', JString ''42''),
          (''type'', JString ''int''), (''variablesReference'', jint 0)]])]))
      else if cmd = ''disassemble'' then
        Some (Some (jobj [(''instructions'', JArray [jobj
          [(''address'', JString (arg_str v ''memoryReference'' ''0x0'' @ ''+'' @ show_int (arg_int v ''offset'' 0))),
           (''instructionBytes'', JString ''90''), (''instruction'', JString ''nop''),
           (''line'', jint (if fk_step A < length stack_states
              then (case stack_states ! fk_step A of [] \<Rightarrow> 50 | f # _ \<Rightarrow> ff_line f) else 50)),
           (''column'', jint 1), (''location'', jobj [(''path'', JString (fk_program A))])]])]))
      else if cmd = ''writeMemory'' then
        Some (Some (jobj [(''address'', JString (arg_str v ''memoryReference'' ''0x0'')),
          (''bytesWritten'', jint (case fe_decode env (arg_str v ''data'' []) of Some bytes \<Rightarrow> int (length bytes) | None \<Rightarrow> 0))]))
      else None)"

datatype fake_end = FakeDone | FakeFails string | FakeExits nat | FakePanics

text \<open>The arms of the \<open>match\<close>: the state after it, and whether the program ends there.\<close>

definition fake_request :: "fake_env \<Rightarrow> int \<Rightarrow> string \<Rightarrow> json \<Rightarrow> fake_adapter \<Rightarrow> fake_adapter \<times> fake_end option" where
  "fake_request env rs cmd v A =
     (let respond = \<lambda>body. emit (fake_response rs cmd body); stop = \<lambda>reason. emit (fake_event ''stopped'' (Some (stop_of reason)))
      in case plain_body env cmd v A of
        Some body \<Rightarrow> (respond body A, None)
      | None \<Rightarrow>
          if cmd = ''launch'' \<or> cmd = ''attach'' then
            (emit (fake_event ''initialized'' None) (respond None (set_program v A)), None)
          else if cmd = ''configurationDone'' then
            (let B = emit (fake_event ''stopped'' (Some (stopped_body ''entry''))) (reset_step_position (respond None A))
             in (if fa_emit_start_debugging (fe_args env)
                 then emit (fake_reverse_request ''startDebugging''
                        (jobj [(''request'', JString ''launch''), (''configuration'', jobj [])])) B
                 else B, None))
          else if cmd = ''goto'' then (stop ''goto'' (respond None A), None)
          else if cmd = ''evaluate'' then
            (let (result, B) = evaluate_for_tests (arg_str v ''expression'' ''?'') A
             in (respond (Some (jobj [(''result'', JString result), (''variablesReference'', jint 0)])) B, None))
          else if cmd = ''readMemory'' then
            (case memory_bytes (arg_int v ''count'' 16) of
               None \<Rightarrow> (A, Some FakePanics)
             | Some bytes \<Rightarrow>
                 (respond (Some (jobj [(''address'', JString (arg_str v ''memoryReference'' ''0x0'')),
                    (''data'', JString (fe_encode env bytes))])) A, None))
          else if cmd \<in> {''continue'', ''next'', ''stepIn'', ''stepBack'', ''reverseContinue''} then
            (stop ''step'' (advance_step (if cmd = ''stepBack'' \<or> cmd = ''reverseContinue'' then - 1 else 1) (respond None A)), None)
          else if cmd = ''stepOut'' then (stop ''step'' (step_out (respond None A)), None)
          else if cmd = ''pause'' then (stop ''pause'' (respond None A), None)
          else if cmd = ''disconnect'' \<or> cmd = ''terminate'' then (respond None A, Some FakeDone)
          else (emit (fake_unknown rs cmd) A, None))"

text \<open>
  One message of the loop. A failed answer to a reverse request ends the process with status 2; other
  responses, events and trees of no kind are passed over.
\<close>

definition fake_turn :: "fake_env \<Rightarrow> json \<Rightarrow> fake_adapter \<Rightarrow> fake_adapter \<times> fake_end option" where
  "fake_turn env v A =
     (if get_str v ''type'' = Some ''response'' then
        (if get_bool v ''success'' \<noteq> Some True then (A, Some (FakeExits 2)) else (A, None))
      else if get_str v ''type'' \<noteq> Some ''request'' then (A, None)
      else case get_i64 v ''seq'' of
        None \<Rightarrow> (A, Some (FakeFails ''missing seq''))
      | Some n \<Rightarrow>
          (case get_str v ''command'' of
             None \<Rightarrow> (A, Some (FakeFails ''missing command''))
           | Some c \<Rightarrow> fake_request env n c v A))"

fun fake_turns :: "fake_env \<Rightarrow> json list \<Rightarrow> fake_adapter \<Rightarrow> fake_adapter \<times> fake_end option" where
  "fake_turns env [] A = (A, None)"
| "fake_turns env (v # vs) A =
     (case fake_turn env v A of
        (B, Some e) \<Rightarrow> (B, Some e)
      | (B, None) \<Rightarrow> fake_turns env vs B)"

section \<open>Reading\<close>

text \<open>
  Its own reader: keys are read in any case and other header lines are passed over, the end of the input
  inside a head is an end without an error, and a body of more than 16 MB is refused. The head is \<open>None\<close>
  at the end of the input.
\<close>

definition max_body :: nat where
  "max_body = 16 * 1024 * 1024"

function fake_read_head :: "nat option \<Rightarrow> string \<Rightarrow> string + (nat option \<times> string) option" where
  "fake_read_head len s =
     (if s = [] then Inr None
      else let line = fst (read_line s); rest = snd (read_line s); trimmed = trim_eol line in
        if \<not> utf8_ok line then Inl ''stream did not contain valid UTF-8''
        else if trimmed = [] then Inr (Some (len, rest))
        else case strip_prefix ''content-length:'' (to_ascii_lowercase trimmed) of
          Some v \<Rightarrow>
            (case parse_u64 (trim v) of
               Some n \<Rightarrow> fake_read_head (Some n) rest
             | None \<Rightarrow> Inl ''invalid Content-Length'')
        | None \<Rightarrow> fake_read_head len rest)"
  by pat_completeness auto
termination
  by (relation "measure (\<lambda>(len, s). length s)") (auto dest: read_line_shorter)

declare fake_read_head.simps [simp del]

definition fake_read_message :: "(string \<Rightarrow> json option) \<Rightarrow> string \<Rightarrow> (string + json option) \<times> string" where
  "fake_read_message parse s =
     (case fake_read_head None s of
        Inl e \<Rightarrow> (Inl e, [])
      | Inr None \<Rightarrow> (Inr None, [])
      | Inr (Some (None, rest)) \<Rightarrow> (Inl ''missing Content-Length'', rest)
      | Inr (Some (Some n, rest)) \<Rightarrow>
          if max_body < n then (Inl ''Content-Length too large'', rest)
          else if length rest < n then (Inl ''unexpected end of file'', [])
          else (case parse (take n rest) of
                  None \<Rightarrow> (Inl ''invalid JSON'', drop n rest)
                | Some v \<Rightarrow> (Inr (Some v), drop n rest)))"

definition fake_write_message :: "(json \<Rightarrow> string) \<Rightarrow> json \<Rightarrow> string" where
  "fake_write_message render v =
     ''Content-Length: '' @ show_nat (length (render v)) @ [cr, newline, cr, newline] @ render v"

lemma fake_read_head_shorter:
  "fake_read_head len s = Inr (Some (n, rest)) \<Longrightarrow> length rest < length s"
proof (induction len s rule: fake_read_head.induct)
  case (1 len s)
  from "1.prems" have ne: "s \<noteq> []" by (auto simp: fake_read_head.simps [of len s])
  show ?case using "1.prems" "1.IH" [OF ne refl refl refl] read_line_shorter [OF ne]
    by (auto simp: fake_read_head.simps [of len s] Let_def split: if_splits option.splits)
       (metis less_trans)+
qed

lemma fake_read_shorter: "fake_read_message parse s = (Inr (Some v), rest) \<Longrightarrow> length rest < length s"
  by (auto simp: fake_read_message_def split: sum.splits option.splits if_splits dest!: fake_read_head_shorter)

text \<open>\<open>main\<close> on the bytes of its standard input.\<close>

function fake_main :: "fake_env \<Rightarrow> (string \<Rightarrow> json option) \<Rightarrow> string \<Rightarrow> fake_adapter \<Rightarrow> fake_adapter \<times> fake_end" where
  "fake_main env parse s A =
     (case fake_read_message parse s of
        (Inl e, _) \<Rightarrow> (A, FakeFails e)
      | (Inr None, _) \<Rightarrow> (A, FakeDone)
      | (Inr (Some v), rest) \<Rightarrow>
          (case fake_turn env v A of
             (B, Some e) \<Rightarrow> (B, e)
           | (B, None) \<Rightarrow> fake_main env parse rest B))"
  by pat_completeness auto
termination
  by (relation "measure (\<lambda>(env, parse, s, A). length s)") (auto dest: fake_read_shorter [OF sym])

declare fake_main.simps [simp del]

end
