(* ===== verification/FakeProperties.thy ===== *)
theory FakeProperties imports FakeAdapter ClientProperties DapProperties begin

text \<open>
  What the adapter of the tests keeps: every tree it writes is a message with the next number, every
  request it handles is answered once and in order, and its position stays in the list of stops. Then
  the two readers and writers together: it reads what the proxy's side writes, and the proxy's side reads
  what it writes. Last, the control client starts a session against it.
\<close>

section \<open>What is written\<close>

definition answer_to :: "json \<Rightarrow> int option" where
  "answer_to v = (if message_kind v = KResponse then request_seq v else None)"

definition fake_answers :: "fake_adapter \<Rightarrow> int list" where
  "fake_answers A = List.map_filter answer_to (fk_out A)"

text \<open>A builder of messages gives a message under each number; it may be an answer.\<close>

definition builds :: "int list \<Rightarrow> (int \<Rightarrow> json) \<Rightarrow> bool" where
  "builds answers f \<longleftrightarrow> (\<forall>n. in_i64 n \<longrightarrow>
     seq (f n) = Some n \<and> value_to_message (f n) \<noteq> None \<and> List.map_filter answer_to [f n] = answers)"

lemma jget_with_body [simp]:
  "jget (with_body body (jobj kvs)) k = (if k = ''body'' \<and> body \<noteq> None then body else jget (jobj kvs) k)"
  by (auto simp: with_body_def jobj_def split: option.split)

lemma builds_response: "in_i64 rs \<Longrightarrow> builds [rs] (fake_response rs cmd body)"
  by (simp add: builds_def fake_response_def seq_def value_to_message_def message_kind_def read_request_seq_def
      opt_string_def answer_to_def request_seq_def List.map_filter_def)

lemma builds_unknown: "in_i64 rs \<Longrightarrow> builds [rs] (fake_unknown rs other)"
  by (simp add: builds_def fake_unknown_def seq_def value_to_message_def message_kind_def read_request_seq_def
      opt_string_def answer_to_def request_seq_def List.map_filter_def)

lemma builds_event: "builds [] (fake_event name body)"
  by (simp add: builds_def fake_event_def seq_def value_to_message_def message_kind_def answer_to_def List.map_filter_def)

lemma builds_reverse: "builds [] (fake_reverse_request cmd args)"
  by (simp add: builds_def fake_reverse_request_def seq_def value_to_message_def message_kind_def answer_to_def
      List.map_filter_def)

section \<open>The invariant\<close>

definition numbered_messages :: "json list \<Rightarrow> bool" where
  "numbered_messages vs \<longleftrightarrow>
     (\<forall>i < length vs. seq (vs ! i) = Some (wrap_i64 (int i + 1)) \<and> value_to_message (vs ! i) \<noteq> None)"

definition fake_ok :: "fake_adapter \<Rightarrow> bool" where
  "fake_ok A \<longleftrightarrow> numbered_messages (fk_out A) \<and> fk_seq A = wrap_i64 (int (length (fk_out A)) + 1) \<and>
     fk_step A < length stack_states \<and> fk_watch A < 2 ^ 32"

lemma wrap_i64_suc: "wrap_i64 (wrap_i64 n + 1) = wrap_i64 (n + 1)"
  by (simp add: wrap_i64_def mod_simps)

lemma emit_ok:
  assumes "builds answers f" and "fake_ok A"
  shows "fake_ok (emit f A) \<and> fake_answers (emit f A) = fake_answers A @ answers"
proof -
  have "seq (f (fk_seq A)) = Some (fk_seq A) \<and> value_to_message (f (fk_seq A)) \<noteq> None \<and>
      List.map_filter answer_to [f (fk_seq A)] = answers"
    using assms wrap_i64_range by (auto simp: builds_def fake_ok_def)
  then show ?thesis using assms(2)
    by (simp add: fake_ok_def emit_def numbered_messages_def nth_append fake_answers_def List.map_filter_def less_Suc_eq wrap_i64_suc)
       (auto simp: add.commute)
qed

lemma fake_start_ok [simp]: "fake_ok fake_start" "fake_answers fake_start = []"
  by (simp_all add: fake_ok_def fake_start_def numbered_messages_def wrap_i64_def stack_states_def fake_answers_def List.map_filter_def)

text \<open>What changes the other fields only.\<close>

lemma step_changes_ok [simp]:
  "fake_ok (A\<lparr>fk_program := p\<rparr>) = fake_ok A" "fake_answers (A\<lparr>fk_program := p\<rparr>) = fake_answers A"
  "fake_answers (A\<lparr>fk_step := i\<rparr>) = fake_answers A" "fake_answers (A\<lparr>fk_watch := w\<rparr>) = fake_answers A"
  by (simp_all add: fake_ok_def fake_answers_def)

lemma fake_ok_step: "fake_ok A \<Longrightarrow> i < length stack_states \<Longrightarrow> fake_ok (A\<lparr>fk_step := i\<rparr>)"
  by (simp add: fake_ok_def)

lemma fake_ok_watch: "fake_ok A \<Longrightarrow> w < 2 ^ 32 \<Longrightarrow> fake_ok (A\<lparr>fk_watch := w\<rparr>)"
  by (simp add: fake_ok_def)

lemma stack_states_length: "length stack_states = 10"
  by (simp add: stack_states_def)

lemma moves_ok:
  assumes "fake_ok A"
  shows "fake_ok (set_step_index i A)" "fake_ok (reset_step_position A)" "fake_ok (advance_step d A)" "fake_ok (step_out A)"
  using assms by (simp_all add: set_step_index_def reset_step_position_def advance_step_def step_out_def fake_ok_step
      stack_states_length Let_def split: option.split)

lemma moves_answers [simp]:
  "fake_answers (set_step_index i A) = fake_answers A" "fake_answers (reset_step_position A) = fake_answers A"
  "fake_answers (advance_step d A) = fake_answers A" "fake_answers (step_out A) = fake_answers A"
  "fake_answers (set_program v A) = fake_answers A"
  by (simp_all add: set_step_index_def reset_step_position_def advance_step_def step_out_def set_program_def Let_def
      split: option.split)

lemma set_program_ok: "fake_ok A \<Longrightarrow> fake_ok (set_program v A)"
  by (simp add: set_program_def split: option.split)

lemma evaluate_ok:
  "evaluate_for_tests e A = (r, B) \<Longrightarrow> fake_ok A \<Longrightarrow> fake_ok B \<and> fake_answers B = fake_answers A \<and> fk_out B = fk_out A"
  by (auto simp: evaluate_for_tests_def Let_def intro: fake_ok_watch split: if_splits)

text \<open>An arm of the match answers its request once and first, unless the process dies in it.\<close>

lemma emitted [simp]:
  assumes "fake_ok A"
  shows "in_i64 rs \<Longrightarrow> fake_ok (emit (fake_response rs cmd body) A)" "fake_ok (emit (fake_event name body) A)"
    "in_i64 rs \<Longrightarrow> fake_ok (emit (fake_unknown rs cmd) A)" "fake_ok (emit (fake_reverse_request cmd args) A)"
    "in_i64 rs \<Longrightarrow> fake_answers (emit (fake_response rs cmd body) A) = fake_answers A @ [rs]"
    "fake_answers (emit (fake_event name body) A) = fake_answers A"
    "in_i64 rs \<Longrightarrow> fake_answers (emit (fake_unknown rs cmd) A) = fake_answers A @ [rs]"
    "fake_answers (emit (fake_reverse_request cmd args) A) = fake_answers A"
  using assms emit_ok builds_response [of rs] builds_event builds_unknown [of rs] builds_reverse by fastforce+

lemma emit_fields [simp]: "fk_seq (emit f A) = wrap_i64 (fk_seq A + 1)" "fk_out (emit f A) = fk_out A @ [f (fk_seq A)]"
  by (simp_all add: emit_def)

lemma quiet_fields [simp]:
  "fk_seq (set_program v A) = fk_seq A" "fk_out (set_program v A) = fk_out A"
  "fk_seq (reset_step_position A) = fk_seq A" "fk_out (reset_step_position A) = fk_out A"
  by (simp_all add: set_program_def reset_step_position_def split: option.split)

lemma moved_fields [simp]:
  "fk_out (set_step_index i A) = fk_out A" "fk_out (advance_step d A) = fk_out A" "fk_out (step_out A) = fk_out A"
  by (simp_all add: set_step_index_def advance_step_def step_out_def Let_def split: option.split)

definition arm :: "fake_adapter \<Rightarrow> int \<Rightarrow> string \<Rightarrow> fake_adapter \<times> fake_end option \<Rightarrow> bool" where
  "arm A rs cmd r \<longleftrightarrow> fake_ok (fst r) \<and> snd r \<in> {None, Some FakeDone, Some FakePanics} \<and>
     fake_answers (fst r) = fake_answers A @ (if snd r = Some FakePanics then [] else [rs]) \<and>
     (snd r = Some FakeDone \<longrightarrow> cmd = ''disconnect'' \<or> cmd = ''terminate'') \<and> prefix (fk_out A) (fk_out (fst r))"

lemma arm_if: "(b \<Longrightarrow> arm A rs cmd x) \<Longrightarrow> (\<not> b \<Longrightarrow> arm A rs cmd y) \<Longrightarrow> arm A rs cmd (if b then x else y)"
  by simp

lemma arm_goes:
  "fake_ok B \<Longrightarrow> fake_answers B = fake_answers A @ [rs] \<Longrightarrow> prefix (fk_out A) (fk_out B) \<Longrightarrow> arm A rs cmd (B, None)"
  by (simp add: arm_def)

lemma arm_done:
  "cmd = ''disconnect'' \<or> cmd = ''terminate'' \<Longrightarrow> fake_ok B \<Longrightarrow> fake_answers B = fake_answers A @ [rs] \<Longrightarrow>
   prefix (fk_out A) (fk_out B) \<Longrightarrow> arm A rs cmd (B, Some FakeDone)"
  by (simp add: arm_def)

lemma arm_evaluate:
  assumes "fake_ok A" "in_i64 rs"
  shows "arm A rs cmd (case evaluate_for_tests ex A of (result, B) \<Rightarrow> (emit (fake_response rs cmd (f result)) B, None))"
proof -
  obtain r B where "evaluate_for_tests ex A = (r, B)" by fastforce
  with evaluate_ok [OF this assms(1)] show ?thesis using assms(2) by (simp add: arm_goes)
qed

lemma arm_memory:
  assumes "fake_ok A" "in_i64 rs"
  shows "arm A rs cmd (case m of None \<Rightarrow> (A, Some FakePanics) | Some bytes \<Rightarrow> (emit (fake_response rs cmd (f bytes)) A, None))"
  using assms by (cases m) (simp_all add: arm_goes, simp add: arm_def)

lemma fake_request_ok:
  assumes "fake_ok A" and "in_i64 rs"
  shows "arm A rs cmd (fake_request env rs cmd v A)"
proof (cases "plain_body env cmd v A")
  case None
  show ?thesis
    unfolding fake_request_def Let_def None option.case
    by (intro arm_if arm_goes arm_done arm_evaluate arm_memory assms)
       (use assms in \<open>simp_all add: moves_ok set_program_ok\<close>)
next
  case (Some body)
  then show ?thesis using assms by (simp add: fake_request_def arm_goes)
qed

section \<open>The dialogue\<close>

definition asks :: "json \<Rightarrow> int list" where
  "asks v = (case seq v of Some n \<Rightarrow> if message_kind v = KRequest then [n] else [] | None \<Rightarrow> [])"

definition asked :: "json list \<Rightarrow> int list" where
  "asked vs = concat (map asks vs)"

definition says_goodbye :: "json \<Rightarrow> bool" where
  "says_goodbye v \<longleftrightarrow> message_kind v = KRequest \<and> command v \<in> {Some ''disconnect'', Some ''terminate''}"

lemma fake_turn_ok:
  assumes "fake_turn env v A = (B, e)" and "fake_ok A" and "value_to_message v \<noteq> None"
  shows "fake_ok B \<and> e \<in> {None, Some FakeDone, Some (FakeExits 2), Some FakePanics} \<and>
    fake_answers B = fake_answers A @ (if e = Some FakePanics then [] else asks v) \<and>
    (e = Some FakeDone \<longrightarrow> says_goodbye v)"
proof (cases "message_kind v = KRequest")
  case True
  then obtain n c where v: "seq v = Some n" "in_i64 n" "command v = Some c" "get_str v ''type'' = Some ''request''"
    using assms(3) by (auto simp: value_to_message_def seq_def command_def as_i64_Some message_kind_def Let_def
        split: option.splits if_splits bind_splits)
  then have "fake_request env n c v A = (B, e)" using assms(1) by (simp add: fake_turn_def seq_def command_def)
  with fake_request_ok [OF assms(2) v(2), of c env v] show ?thesis
    using True v by (auto simp: arm_def asks_def says_goodbye_def)
next
  case False
  then show ?thesis using assms(1,2)
    by (auto simp: fake_turn_def message_kind_def asks_def Let_def split: if_splits option.split)
qed

lemma fake_turns_ok:
  assumes "fake_turns env vs A = (B, e)" and "fake_ok A" and "\<forall>v \<in> set vs. value_to_message v \<noteq> None"
  shows "fake_ok B \<and> e \<in> {None, Some FakeDone, Some (FakeExits 2), Some FakePanics} \<and>
    (\<exists>answers. fake_answers B = fake_answers A @ answers \<and> prefix answers (asked vs) \<and> (e = None \<longrightarrow> answers = asked vs)) \<and>
    (e = Some FakeDone \<longrightarrow> (\<exists>v \<in> set vs. says_goodbye v))"
  using assms
proof (induction vs arbitrary: A)
  case (Cons v vs)
  obtain C o1 where turn: "fake_turn env v A = (C, o1)" by fastforce
  from fake_turn_ok [OF this] Cons.prems(2,3) have C: "fake_ok C" "o1 \<in> {None, Some FakeDone, Some (FakeExits 2), Some FakePanics}"
      "fake_answers C = fake_answers A @ (if o1 = Some FakePanics then [] else asks v)" "o1 = Some FakeDone \<longrightarrow> says_goodbye v"
    by auto
  show ?case
  proof (cases o1)
    case None
    then have turns: "fake_turns env vs C = (B, e)" using Cons.prems(1) turn by simp
    from Cons.IH [OF this C(1)] Cons.prems(3) C(3) None show ?thesis
      by (auto simp: asked_def)
  next
    case (Some o2)
    then have "B = C" "e = o1" using Cons.prems(1) turn by auto
    then show ?thesis using C Some by (auto simp: asked_def)
  qed
qed (simp add: asked_def)

section \<open>The two framings\<close>

lemma write_message_as_fake: "write_message (encode_message render) = (\<lambda>m. fake_write_message render (message_to_value m))"
  by (rule ext) (simp add: write_message_def fake_write_message_def encode_message_def)

lemma lowercase_append: "to_ascii_lowercase (s @ t) = to_ascii_lowercase s @ to_ascii_lowercase t"
  by (simp add: to_ascii_lowercase_def)

lemma lowercase_digits: "to_ascii_lowercase (show_nat n) = show_nat n"
proof -
  have "to_ascii_lowercase s = s" if "\<forall>c \<in> set s. is_digit c" for s
    using that by (induction s) (auto simp: to_ascii_lowercase_def is_digit_def)
  then show ?thesis using show_nat_digits by blast
qed

lemma fake_read_length_line:
  assumes "n \<le> 2 ^ 64 - 1"
  shows "fake_read_head len (''Content-Length: '' @ show_nat n @ cr # newline # s) = fake_read_head (Some n) s"
proof -
  define l where "l = ''Content-Length: '' @ show_nat n"
  have l: "newline \<notin> set l" "cr \<notin> set l" "l \<noteq> []"
    using newline_not_digit show_nat_free by (auto simp: l_def newline_def cr_def)
  have "\<forall>c \<in> set (l @ [cr, newline]). byte_in 0 127 c"
    using show_nat_digits digit_ascii by (auto simp: l_def newline_def cr_def byte_in_def)
  then have utf8: "utf8_ok (l @ [cr, newline])" using utf8_ok_ascii [of _ "[]"] by fastforce
  have rl: "read_line (l @ cr # newline # s) = (l @ [cr, newline], s)"
    using read_line_framed [of "l @ [cr]" s] l by (simp add: cr_def newline_def)
  have "to_ascii_lowercase ''Content-Length: '' = ''content-length: ''" by code_simp
  then have "to_ascii_lowercase l = ''content-length: '' @ show_nat n"
    unfolding l_def by (simp only: lowercase_append lowercase_digits)
  then have key: "strip_prefix ''content-length:'' (to_ascii_lowercase l) = Some (CHR '' '' # show_nat n)"
    by (simp add: strip_prefix_def)
  have val: "parse_u64 (trim (CHR '' '' # show_nat n)) = Some n"
    using assms by (simp add: trim_space_digits parse_u64_def parse_radix_show_nat)
  have "fake_read_head len (l @ cr # newline # s) = fake_read_head (Some n) s"
    using rl utf8 key val l by (subst fake_read_head.simps) (simp add: Let_def trim_eol_framed)
  then show ?thesis by (simp add: l_def)
qed

lemma fake_read_blank: "fake_read_head len (cr # newline # s) = Inr (Some (len, s))"
proof -
  have "read_line (cr # newline # s) = ([cr, newline], s)" by (simp add: cr_def newline_def)
  moreover have "utf8_ok [cr, newline]" by (simp add: cr_def newline_def byte_in_def)
  moreover have "trim_eol [cr, newline] = []" by (simp add: trim_eol_def)
  ultimately show ?thesis by (subst fake_read_head.simps) simp
qed

lemma fake_read_written:
  assumes "parse (render v) = Some v" and "length (render v) \<le> max_body"
  shows "fake_read_message parse (fake_write_message render v @ rest) = (Inr (Some v), rest)"
  using assms fake_read_length_line [of "length (render v)" None "cr # newline # render v @ rest"]
  by (simp add: fake_read_message_def fake_write_message_def fake_read_blank max_body_def)

lemma fake_main_written:
  assumes "\<forall>v \<in> set vs. parse (render v) = Some v \<and> length (render v) \<le> max_body"
    and "fake_turns env vs A = (B, e)"
  shows "fake_main env parse (concat (map (fake_write_message render) vs)) A = (B, unwrap_or e FakeDone)"
  using assms
proof (induction vs arbitrary: A)
  case Nil
  then show ?case by (simp add: fake_main.simps fake_read_message_def fake_read_head.simps)
next
  case (Cons v vs)
  let ?rest = "concat (map (fake_write_message render) vs)"
  have "fake_read_message parse (fake_write_message render v @ ?rest) = (Inr (Some v), ?rest)"
    using Cons.prems by (intro fake_read_written) simp_all
  then show ?case using Cons
    by (subst fake_main.simps) (auto split: prod.splits option.splits)
qed

lemma recv_all_fake:
  assumes "\<forall>v \<in> set vs. parse (render v) = Some v \<and> length (render v) \<le> 2 ^ 63 - 1 \<and> value_to_message v \<noteq> None"
  shows "recv_all (decode_message parse) (concat (map (fake_write_message render) vs)) = (List.map_filter value_to_message vs, None)"
  using assms
proof (induction vs)
  case Nil
  show ?case by (simp add: recv_all.simps read_message_def read_head.simps List.map_filter_def)
next
  case (Cons v vs)
  let ?rest = "concat (map (fake_write_message render) vs)"
  obtain m where m: "value_to_message v = Some m" using Cons.prems by auto
  have "fake_write_message render v = write_message (\<lambda>_. render v) m"
    by (simp add: write_message_def fake_write_message_def)
  then have "read_message (decode_message parse) (fake_write_message render v @ ?rest) = (Inr (Some m), ?rest)"
    using Cons.prems m by (simp add: read_write_message decode_message_def)
  then show ?case using Cons m
    by (simp add: recv_all.simps [of _ "fake_write_message render v @ ?rest"] List.map_filter_def)
qed

section \<open>Both together\<close>

fun message_seq :: "message \<Rightarrow> int" where
  "message_seq (Request r) = rq_seq r"
| "message_seq (Response r) = rs_seq r"
| "message_seq (Event e) = ev_seq e"

definition request_numbers :: "message list \<Rightarrow> int list" where
  "request_numbers ms = concat (map (\<lambda>m. case m of Request r \<Rightarrow> [rq_seq r] | _ \<Rightarrow> []) ms)"

definition response_numbers :: "message list \<Rightarrow> int list" where
  "response_numbers ms = concat (map (\<lambda>m. case m of Response r \<Rightarrow> [rs_request_seq r] | _ \<Rightarrow> []) ms)"

fun ends_session :: "message \<Rightarrow> bool" where
  "ends_session (Request r) = (rq_command r = ''disconnect'' \<or> rq_command r = ''terminate'')"
| "ends_session _ = False"

lemma kind_of_message:
  "message_kind (message_to_value m) = (case m of Request _ \<Rightarrow> KRequest | Response _ \<Rightarrow> KResponse | Event _ \<Rightarrow> KEvent)"
  by (cases m) (simp_all add: message_kind_def map_add_def)

lemma asks_message: "message_ok m \<Longrightarrow> asks (message_to_value m) = (case m of Request r \<Rightarrow> [rq_seq r] | _ \<Rightarrow> [])"
proof (cases m)
  case (Request r)
  moreover assume "message_ok m"
  ultimately have "seq (message_to_value m) = Some (rq_seq r)" by (simp add: seq_def)
  then show ?thesis using Request by (simp add: asks_def kind_of_message del: message_to_value.simps)
qed (simp_all add: asks_def kind_of_message del: message_to_value.simps split: option.split)

lemma asked_messages: "list_all message_ok ms \<Longrightarrow> asked (map message_to_value ms) = request_numbers ms"
proof (induction ms)
  case (Cons m ms)
  then show ?case
    by (simp add: asked_def request_numbers_def asks_message)
qed (simp add: asked_def request_numbers_def)

lemma goodbye_message: "says_goodbye (message_to_value m) \<Longrightarrow> ends_session m"
  unfolding says_goodbye_def kind_of_message by (cases m) (auto simp: command_def)

lemma answer_message:
  assumes "value_to_message v = Some m"
  shows "seq v = Some (message_seq m) \<and>
    List.map_filter answer_to [v] = (case m of Response r \<Rightarrow> [rs_request_seq r] | _ \<Rightarrow> [])"
  using assms by (auto simp: value_to_message_def seq_def answer_to_def List.map_filter_def request_seq_def read_request_seq_def
      split: option.splits message_kind.splits)

lemma numbered_decoded:
  assumes "\<forall>v \<in> set vs. value_to_message v \<noteq> None"
  shows "map (\<lambda>m. Some (message_seq m)) (List.map_filter value_to_message vs) = map seq vs \<and>
    response_numbers (List.map_filter value_to_message vs) = List.map_filter answer_to vs"
  using assms
proof (induction vs)
  case (Cons v vs)
  then obtain m where m: "value_to_message v = Some m" by auto
  then show ?case using Cons answer_message [OF m]
    by (simp add: List.map_filter_def response_numbers_def split: if_splits)
qed (simp add: List.map_filter_def response_numbers_def)

lemma numbered_seqs:
  assumes "numbered_messages vs" and "length vs < 2 ^ 63"
  shows "map seq vs = map Some [1..int (length vs)]"
proof (rule nth_equalityI)
  fix i assume "i < length (map seq vs)"
  then show "map seq vs ! i = map Some [1..int (length vs)] ! i"
    using assms wrap_i64_id [of "int i + 1"] by (simp add: numbered_messages_def in_i64_def)
qed simp


definition demo_fake :: fake_env where
  "demo_fake =
     \<lparr>fe_args = \<lparr>fa_step_back = True, fa_exception_filter_options = True, fa_set_variable = True, fa_set_expression = False,
        fa_function_breakpoints = False, fa_goto_request = False, fa_completions_request = False,
        fa_emit_start_debugging = False\<rparr>,
      fe_encode = \<lambda>_. [], fe_decode = \<lambda>_. None\<rparr>"

definition fake_threads_answer :: json where
  "fake_threads_answer =
     fake_response 1 ''threads'' (Some (jobj [(''threads'', JArray [jobj [(''id'', jint 1), (''name'', JString ''main'')]])])) 1"

lemma demo_fake_turn:
  "fake_main demo_fake (\<lambda>s. if s = ''a'' then Some (message_to_value demo_ping) else Some fake_threads_answer)
     (concat (map (write_message (encode_message (\<lambda>v. if v = message_to_value demo_ping then ''a'' else ''b''))) [demo_ping])) fake_start =
   (fake_start\<lparr>fk_seq := 2, fk_out := [fake_threads_answer]\<rparr>, FakeDone)"
proof -
  have "fake_turns demo_fake [message_to_value demo_ping] fake_start = (fake_start\<lparr>fk_seq := 2, fk_out := [fake_threads_answer]\<rparr>, None)"
    by code_simp
  then show ?thesis
    using fake_main_written [of "[message_to_value demo_ping]" "\<lambda>s. if s = ''a'' then Some (message_to_value demo_ping) else Some fake_threads_answer"
        "\<lambda>v. if v = message_to_value demo_ping then ''a'' else ''b''"]
    by (simp add: write_message_as_fake max_body_def)
qed


section \<open>A session with the control client\<close>

text \<open>The messages a client sends to start a session, and those the adapter writes for them.\<close>

definition start_requests :: "host \<Rightarrow> init_config \<Rightarrow> string \<Rightarrow> json \<Rightarrow> message list" where
  "start_requests h config request args =
     [Request \<lparr>rq_seq = 1, rq_command = ''initialize'', rq_arguments = Some (session_initialize_arguments h config)\<rparr>,
      Request \<lparr>rq_seq = 2, rq_command = request, rq_arguments = Some args\<rparr>,
      Request \<lparr>rq_seq = 3, rq_command = ''configurationDone'', rq_arguments = Some (jobj [])\<rparr>]"

definition fake_replies :: "fake_env \<Rightarrow> message list \<Rightarrow> message list" where
  "fake_replies env ms =
     List.map_filter value_to_message (fk_out (fst (fake_turns env (map message_to_value ms) fake_start)))"

lemma fake_turn_request:
  "in_i64 (rq_seq r) \<Longrightarrow> fake_turn env (message_to_value (Request r)) A =
     fake_request env (rq_seq r) (rq_command r) (message_to_value (Request r)) A"
  by (simp add: fake_turn_def)

text \<open>A message after which the adapter goes on, of whatever kind.\<close>

lemma fake_turn_goes:
  assumes "fake_turn env (message_to_value m) A = (B, None)" and "fake_ok A"
  shows "fake_ok B \<and> prefix (fk_out A) (fk_out B) \<and>
    fake_answers B = fake_answers A @ (case m of Request r \<Rightarrow> [rq_seq r] | _ \<Rightarrow> [])"
proof (cases m)
  case (Request r)
  have "in_i64 (rq_seq r)" using assms(1) Request by (cases "in_i64 (rq_seq r)") (simp_all add: fake_turn_def)
  then show ?thesis
    using assms(1) Request fake_request_ok [OF assms(2), of "rq_seq r" "rq_command r" env "message_to_value m"]
    by (simp add: fake_turn_request arm_def del: message_to_value.simps)
next
  case (Response r)
  then have "A = B" using assms(1) by (auto simp: fake_turn_def map_add_def split: if_splits)
  then show ?thesis using assms(2) Response by simp
next
  case (Event e)
  then have "A = B" using assms(1) by (auto simp: fake_turn_def map_add_def split: if_splits)
  then show ?thesis using assms(2) Event by simp
qed

lemma fake_initialize:
  "fake_request env n ''initialize'' v A = (emit (fake_response n ''initialize'' (Some (initialize_body (fe_args env)))) A, None)"
  by (simp add: fake_request_def plain_body_def)

lemma fake_launch:
  assumes "cmd = ''launch'' \<or> cmd = ''attach''"
  shows "fake_request env n cmd v A =
     (emit (fake_event ''initialized'' None) (emit (fake_response n cmd None) (set_program v A)), None)"
proof -
  have "plain_body env ''launch'' v A = None" "plain_body env ''attach'' v A = None" by (simp_all add: plain_body_def)
  then show ?thesis using assms by (elim disjE) (simp_all add: fake_request_def)
qed

lemma fake_configuration_done:
  "fake_request env n ''configurationDone'' v A =
     (let B = emit (fake_event ''stopped'' (Some (stopped_body ''entry'')))
        (reset_step_position (emit (fake_response n ''configurationDone'' None) A))
      in (if fa_emit_start_debugging (fe_args env)
          then emit (fake_reverse_request ''startDebugging'' (jobj [(''request'', JString ''launch''), (''configuration'', jobj [])])) B
          else B, None))"
  by (simp add: fake_request_def plain_body_def Let_def)

lemma fake_session_out:
  assumes "request = ''launch'' \<or> request = ''attach''"
  shows "fk_out (fst (fake_turns env (map message_to_value (start_requests h config request args)) fake_start)) =
    [fake_response 1 ''initialize'' (Some (initialize_body (fe_args env))) 1, fake_response 2 request None 2,
     fake_event ''initialized'' None 3, fake_response 3 ''configurationDone'' None 4,
     fake_event ''stopped'' (Some (stopped_body ''entry'')) 5] @
    (if fa_emit_start_debugging (fe_args env)
     then [fake_reverse_request ''startDebugging'' (jobj [(''request'', JString ''launch''), (''configuration'', jobj [])]) 6]
     else [])"
proof -
  define A1 where "A1 = emit (fake_response 1 ''initialize'' (Some (initialize_body (fe_args env)))) fake_start"
  define v2 where "v2 = message_to_value (Request \<lparr>rq_seq = 2, rq_command = request, rq_arguments = Some args\<rparr>)"
  define A2 where "A2 = emit (fake_event ''initialized'' None) (emit (fake_response 2 request None) (set_program v2 A1))"
  have A2: "fk_seq A2 = 4" "fk_out A2 = [fake_response 1 ''initialize'' (Some (initialize_body (fe_args env))) 1,
      fake_response 2 request None 2, fake_event ''initialized'' None 3]"
    by (simp_all add: A2_def A1_def fake_start_def wrap_i64_def)
  have turns: "fake_turns env (map message_to_value (start_requests h config request args)) fake_start =
      fake_request env 3 ''configurationDone''
        (message_to_value (Request \<lparr>rq_seq = 3, rq_command = ''configurationDone'', rq_arguments = Some (jobj [])\<rparr>)) A2"
    using fake_launch [OF assms, of env 2 v2 A1]
    by (simp add: start_requests_def fake_turn_request fake_initialize fake_configuration_done Let_def v2_def
        A1_def [symmetric] A2_def del: message_to_value.simps)
  show ?thesis unfolding turns fake_configuration_done Let_def by (simp add: A2 wrap_i64_def)
qed

text \<open>What the client learns of the adapter: the capabilities its command line gives it.\<close>

definition fake_capabilities :: "fake_args \<Rightarrow> capabilities" where
  "fake_capabilities a = capabilities_unknown
     \<lparr>cp_configuration_done := True, cp_function_breakpoints := fa_function_breakpoints a, cp_step_back := fa_step_back a,
      cp_set_variable := fa_set_variable a, cp_set_expression := fa_set_expression a, cp_goto_targets := fa_goto_request a,
      cp_goto := fa_goto_request a, cp_completions := fa_completions_request a, cp_breakpoint_locations := True,
      cp_disassemble := True, cp_exception_filter_options := fa_exception_filter_options a, cp_read_memory := True,
      cp_write_memory := True,
      cp_exception_filters := Option.bind (jget (initialize_body a) ''exceptionBreakpointFilters'') as_array,
      cp_raw := Some (initialize_body a)\<rparr>"

lemma flag_initialize:
  assumes "initialize_body a = JObject m"
  shows "obj_get m k = jget (initialize_body a) k"
  using assms by simp

lemma fake_capabilities_read: "capabilities_from_json (initialize_body a) = Some (fake_capabilities a)"
proof -
  obtain m where m: "initialize_body a = JObject m" by (simp add: initialize_body_def jobj_def)
  note get = flag_initialize [OF m]
  have "list_all (flag_ok m) flag_names"
    by (simp add: flag_names_def flag_ok_def get) (simp add: initialize_body_def)
  moreover have "filters_ok m"
    by (simp add: filters_ok_def get) (simp add: initialize_body_def)
  moreover have "flag m i = unwrap_or (get_bool (initialize_body a) (flag_names ! i)) False" for i
    by (simp add: flag_def get)
  ultimately show ?thesis
    by (simp add: capabilities_from_json_def m fake_capabilities_def capabilities_unknown_def)
       (simp add: get flag_names_def, simp add: initialize_body_def)
qed

lemma fake_decoded:
  "in_i64 rs \<Longrightarrow> in_i64 n \<Longrightarrow> body \<noteq> Some JNull \<Longrightarrow> value_to_message (fake_response rs cmd body n) =
     Some (Response \<lparr>rs_seq = n, rs_request_seq = rs, rs_success = True, rs_command = Some cmd, rs_message = None, rs_body = body\<rparr>)"
  "in_i64 n \<Longrightarrow> body \<noteq> Some JNull \<Longrightarrow> value_to_message (fake_event name body n) =
     Some (Event \<lparr>ev_seq = n, ev_event = name, ev_body = body\<rparr>)"
  by (simp_all add: fake_response_def fake_event_def value_to_message_def message_kind_def read_request_seq_def
      opt_string_def opt_value_cases settle_opt_def)

definition plain_response :: "int \<Rightarrow> string \<Rightarrow> json option \<Rightarrow> int \<Rightarrow> message" where
  "plain_response rs cmd body n =
     Response \<lparr>rs_seq = n, rs_request_seq = rs, rs_success = True, rs_command = Some cmd, rs_message = None, rs_body = body\<rparr>"

definition plain_event :: "string \<Rightarrow> json option \<Rightarrow> int \<Rightarrow> message" where
  "plain_event name body n = Event \<lparr>ev_seq = n, ev_event = name, ev_body = body\<rparr>"

lemma reverse_decoded:
  "in_i64 n \<Longrightarrow> args \<noteq> JNull \<Longrightarrow> value_to_message (fake_reverse_request cmd args n) =
     Some (Request \<lparr>rq_seq = n, rq_command = cmd, rq_arguments = Some args\<rparr>)"
  by (simp add: fake_reverse_request_def value_to_message_def message_kind_def opt_value_cases settle_opt_def)

lemma fake_replies_start:
  assumes "request = ''launch'' \<or> request = ''attach''"
  shows "\<exists>rest. fake_replies env (start_requests h config request args) =
    [plain_response 1 ''initialize'' (Some (initialize_body (fe_args env))) 1, plain_response 2 request None 2,
     plain_event ''initialized'' None 3, plain_response 3 ''configurationDone'' None 4,
     plain_event ''stopped'' (Some (stopped_body ''entry'')) 5] @ rest"
proof -
  have "initialize_body (fe_args env) \<noteq> JNull" "stopped_body ''entry'' \<noteq> JNull"
    by (simp_all add: initialize_body_def stopped_body_def jobj_def)
  then show ?thesis
    unfolding fake_replies_def fake_session_out [OF assms]
    by (simp add: List.map_filter_def fake_decoded plain_response_def plain_event_def)
qed

text \<open>C24: Client and adapter start a session together. When what arrives at the control client is what
  the adapter of the tests writes for the requests the client sends, launching or attaching completes
  without an error, with exactly these requests sent: the client reports the stop at entry on thread 1
  and the capabilities the adapter's command line gave it, also when the adapter asks for a child session.\<close>

theorem fake_session_starts:
  assumes "request = ''launch'' \<or> request = ''attach''"
    and "case ic_manifest config of Some m \<Rightarrow> init_steps m = [] | None \<Rightarrow> True"
  shows "\<exists>c. run_debug_request h config request args
      (client_from_duplex (map Arrives (fake_replies env (start_requests h config request args)))) =
      (Inr \<lparr>ir_ready = True, ir_stop_reason = Some ''entry'', ir_thread_id = Some 1, ir_entry_location = None,
            ir_capabilities = fake_capabilities (fe_args env)\<rparr>, c) \<and>
    cl_sent c = start_requests h config request args"
proof -
  let ?s = "plain_event ''stopped'' (Some (stopped_body ''entry'')) 5" and ?i = "plain_event ''initialized'' None 3"
  define replies where "replies = fake_replies env (start_requests h config request args)"
  obtain rest where rest: "replies =
    [plain_response 1 ''initialize'' (Some (initialize_body (fe_args env))) 1, plain_response 2 request None 2, ?i,
     plain_response 3 ''configurationDone'' None 4, ?s] @ rest"
    using fake_replies_start [OF assms(1)] unfolding replies_def by blast
  have "stopped_fields ?s = (Some ''entry'', Some 1)"
    by (simp add: plain_event_def stopped_body_def body_str_def)
  then show ?thesis
    unfolding replies_def [symmetric]
    using debug_request_completes [of "client_from_duplex (map Arrives replies)" 1
        config "[]" "plain_response 1 ''initialize'' (Some (initialize_body (fe_args env))) 1" "[]" "plain_response 2 request None 2"
        "[?i]" "plain_response 3 ''configurationDone'' None 4" "?s # rest" "[]" "fake_capabilities (fe_args env)" "[?i]" ?s rest
        h request args] assms(2)
    by (simp add: rest client_from_duplex_def response_matches_seq_def plain_response_def plain_event_def event_named_def
        fake_capabilities_read start_requests_def)
qed

theorem fake_session_starts_witness:
  "\<exists>c. run_debug_request \<lparr>h_env = \<lambda>_. None, h_canonical = \<lambda>_. None, h_is_file = \<lambda>_. False, h_is_dir = \<lambda>_. False,
        h_read = \<lambda>_. None, h_read_dir = \<lambda>_. None\<rparr> (init_config_new ''main.py'') ''launch'' JNull
      (client_from_duplex (map Arrives (fake_replies demo_fake (start_requests
        \<lparr>h_env = \<lambda>_. None, h_canonical = \<lambda>_. None, h_is_file = \<lambda>_. False, h_is_dir = \<lambda>_. False,
        h_read = \<lambda>_. None, h_read_dir = \<lambda>_. None\<rparr> (init_config_new ''main.py'') ''launch'' JNull)))) =
      (Inr \<lparr>ir_ready = True, ir_stop_reason = Some ''entry'', ir_thread_id = Some 1, ir_entry_location = None,
            ir_capabilities = fake_capabilities (fe_args demo_fake)\<rparr>, c) \<and> length (cl_sent c) = 3"
  using fake_session_starts [of "''launch''" "init_config_new ''main.py''"
      "\<lparr>h_env = \<lambda>_. None, h_canonical = \<lambda>_. None, h_is_file = \<lambda>_. False, h_is_dir = \<lambda>_. False,
        h_read = \<lambda>_. None, h_read_dir = \<lambda>_. None\<rparr>" JNull demo_fake]
  by (auto simp: init_config_new_def start_requests_def)

end
