(* ===== verification/FakeSystem.thy ===== *)
theory FakeSystem imports ProxyAnswer FakeProperties begin

text \<open>
  The proxy with the adapter of the tests behind it, as the end-to-end tests run them. The adapter reads
  the messages the proxy has written to it, one in a turn, and the proxy reads the trees the adapter has
  written; \<open>fake_dialogue\<close> says that the bytes between them carry exactly these. The other events are those
  of \<open>ProxySystem\<close>, without those in which an arbitrary adapter speaks or goes away.
\<close>

section \<open>The two together\<close>

record bench =
  bn_proxy :: proxy_system
  bn_adapter :: fake_adapter
  bn_ended :: "fake_end option"
  bn_read :: nat
  bn_said :: nat

datatype bench_event =
    ProxyTurn system_event
  | AdapterTurn
  | AdapterHeard "child_spawn_plan \<Rightarrow> string + child_spawn_result" "terminal_command \<Rightarrow> string + nat"

fun of_adapter :: "system_event \<Rightarrow> bool" where
  "of_adapter (AdapterSays m spawn run) = True"
| "of_adapter AdapterCloses = True"
| "of_adapter _ = False"

definition bench_start :: bench where
  "bench_start = \<lparr>bn_proxy = proxy_start, bn_adapter = fake_start, bn_ended = None, bn_read = 0, bn_said = 0\<rparr>"

text \<open>What an event of the bench is for the proxy.\<close>

fun proxy_event :: "bench \<Rightarrow> bench_event \<Rightarrow> system_event option" where
  "proxy_event B (ProxyTurn e) = (if of_adapter e then None else Some e)"
| "proxy_event B AdapterTurn = None"
| "proxy_event B (AdapterHeard spawn run) =
     (if bn_said B < length (fk_out (bn_adapter B))
      then Some (case value_to_message (fk_out (bn_adapter B) ! bn_said B) of
                   Some m \<Rightarrow> AdapterSays m spawn run
                 | None \<Rightarrow> AdapterCloses)
      else None)"

definition adapter_turn :: "fake_env \<Rightarrow> bench \<Rightarrow> bench" where
  "adapter_turn env B =
     (if bn_ended B = None \<and> bn_read B < length (px_wire (bn_proxy B))
      then case fake_turn env (message_to_value (px_wire (bn_proxy B) ! bn_read B)) (bn_adapter B) of
             (A, e) \<Rightarrow> B\<lparr>bn_adapter := A, bn_ended := e, bn_read := bn_read B + 1\<rparr>
      else B)"

definition bench_step :: "fake_env \<Rightarrow> proxy_config \<Rightarrow> bench \<Rightarrow> bench_event \<Rightarrow> bench" where
  "bench_step env k B e =
     (case proxy_event B e of
        Some x \<Rightarrow> B\<lparr>bn_proxy := system_step k (bn_proxy B) x,
                    bn_said := (case e of AdapterHeard _ _ \<Rightarrow> bn_said B + 1 | _ \<Rightarrow> bn_said B)\<rparr>
      | None \<Rightarrow> (case e of AdapterTurn \<Rightarrow> adapter_turn env B | _ \<Rightarrow> B))"

lemma bench_step_if:
  "bench_step env k B e =
     (case proxy_event B e of
        Some x \<Rightarrow> B\<lparr>bn_proxy := system_step k (bn_proxy B) x,
                    bn_said := (case e of AdapterHeard _ _ \<Rightarrow> bn_said B + 1 | _ \<Rightarrow> bn_said B)\<rparr>
      | None \<Rightarrow> (if e = AdapterTurn then adapter_turn env B else B))"
  by (cases e) (simp_all add: bench_step_def split: option.split)

primrec bench_at :: "fake_env \<Rightarrow> proxy_config \<Rightarrow> (nat \<Rightarrow> bench_event) \<Rightarrow> nat \<Rightarrow> bench" where
  "bench_at env k g 0 = bench_start"
| "bench_at env k g (Suc t) = bench_step env k (bench_at env k g t) (g t)"

lemma bench_proxy:
  "bn_proxy (bench_step env k B e) = (case proxy_event B e of Some x \<Rightarrow> system_step k (bn_proxy B) x | None \<Rightarrow> bn_proxy B)"
  by (auto simp: bench_step_if adapter_turn_def split: option.split prod.split)

text \<open>
  Seen from the proxy, a turn of the bench that does not concern it is a turn of a writer that has no
  client.
\<close>

lemma unknown_client: "\<exists>j. hm_get (px_clients S) j = (None :: client_port option)"
  using ex_new_if_finite [OF infinite_UNIV_int finite_dom_map_of [of "px_clients S"]] by (auto simp: dom_def)

definition as_schedule :: "fake_env \<Rightarrow> proxy_config \<Rightarrow> (nat \<Rightarrow> bench_event) \<Rightarrow> (nat \<Rightarrow> system_event) \<Rightarrow> bool" where
  "as_schedule env k g f \<longleftrightarrow> (\<forall>t. case proxy_event (bench_at env k g t) (g t) of
     Some x \<Rightarrow> f t = x
   | None \<Rightarrow> (\<exists>j. f t = WriteClient j \<and> hm_get (px_clients (bn_proxy (bench_at env k g t))) j = None))"

lemma schedule_exists: "\<exists>f. as_schedule env k g f"
proof -
  have "\<exists>x. case proxy_event (bench_at env k g t) (g t) of
      Some y \<Rightarrow> x = y
    | None \<Rightarrow> (\<exists>j. x = WriteClient j \<and> hm_get (px_clients (bn_proxy (bench_at env k g t))) j = None)" for t
    using unknown_client [of "bn_proxy (bench_at env k g t)"] by (cases "proxy_event (bench_at env k g t) (g t)") auto
  then show ?thesis unfolding as_schedule_def by metis
qed

lemma schedule_runs:
  assumes "as_schedule env k g f"
  shows "after_turns k f t = bn_proxy (bench_at env k g t)"
proof (induction t)
  case (Suc t)
  have "case proxy_event (bench_at env k g t) (g t) of
      Some x \<Rightarrow> f t = x
    | None \<Rightarrow> (\<exists>j. f t = WriteClient j \<and> hm_get (px_clients (bn_proxy (bench_at env k g t))) j = None)"
    using assms by (simp add: as_schedule_def)
  then show ?case using Suc by (auto simp: bench_proxy write_client_def split: option.splits)
qed (simp add: bench_start_def)

section \<open>What the bench keeps\<close>

lemma wire_grows: "prefix (px_wire S) (px_wire (system_step k S e))"
  by (cases e) (auto simp: read_client_def client_leaves_def client_broken_def write_client_def read_adapter_def
      stop_writing_def say_goodbye_def write_adapter_def take_op_def take_value_def Let_def
      split: option.split sum.split prod.split list.split session_op.split)

definition bench_ok :: "bench \<Rightarrow> bool" where
  "bench_ok B \<longleftrightarrow> fake_ok (bn_adapter B) \<and> bn_said B \<le> length (fk_out (bn_adapter B)) \<and>
     bn_read B \<le> length (px_wire (bn_proxy B))"

lemma bench_ok_step:
  assumes "bench_ok B" and "bn_ended (bench_step env k B e) = None"
  shows "bench_ok (bench_step env k B e)"
proof (cases "proxy_event B e")
  case (Some x)
  have "bn_read B \<le> length (px_wire (system_step k (bn_proxy B) x))"
    using assms(1) prefix_length_le [OF wire_grows, of "bn_proxy B" k x] by (simp add: bench_ok_def)
  then show ?thesis using assms(1) Some
    by (cases e) (auto simp: bench_ok_def bench_step_if split: if_splits)
next
  case None
  show ?thesis
  proof (cases "e = AdapterTurn \<and> bn_ended B = None \<and> bn_read B < length (px_wire (bn_proxy B))")
    case True
    obtain A o1 where turn: "fake_turn env (message_to_value (px_wire (bn_proxy B) ! bn_read B)) (bn_adapter B) = (A, o1)"
      by fastforce
    then have "o1 = None" using assms(2) True by (simp add: bench_step_if adapter_turn_def)
    then show ?thesis using fake_turn_goes [of env _ "bn_adapter B" A] turn assms(1) True prefix_length_le [of "fk_out (bn_adapter B)" "fk_out A"]
      by (auto simp: bench_step_if adapter_turn_def bench_ok_def)
  next
    case False
    then show ?thesis using assms(1) None by (auto simp: bench_step_if adapter_turn_def)
  qed
qed

lemma bench_ended_before: "bn_ended (bench_step env k B e) = None \<Longrightarrow> bn_ended B = None"
  by (auto simp: bench_step_if adapter_turn_def split: option.splits if_splits prod.splits)

lemma bench_always_ok:
  assumes "\<And>t. bn_ended (bench_at env k g t) = None"
  shows "bench_ok (bench_at env k g t)"
proof (induction t)
  case 0
  show ?case by (simp add: bench_ok_def bench_start_def fake_start_ok)
next
  case (Suc t)
  then show ?case using bench_ok_step [of "bench_at env k g t" env k "g t"] assms [of "Suc t"] by simp
qed

section \<open>The adapter answers\<close>

definition unread :: "nat \<Rightarrow> message \<Rightarrow> bench \<Rightarrow> bool" where
  "unread a m B \<longleftrightarrow> bn_read B \<le> a \<and> a < length (px_wire (bn_proxy B)) \<and> px_wire (bn_proxy B) ! a = m"

definition unsaid :: "nat \<Rightarrow> json \<Rightarrow> bench \<Rightarrow> bool" where
  "unsaid c u B \<longleftrightarrow> bn_said B \<le> c \<and> c < length (fk_out (bn_adapter B)) \<and> fk_out (bn_adapter B) ! c = u"

lemma unread_step:
  assumes "unread a m B" and "bn_ended B = None"
  shows "bn_read (bench_step env k B e) = Suc a \<and> e = AdapterTurn \<and> bn_read B = a \<or>
    unread a m (bench_step env k B e) \<and> bn_read B \<le> bn_read (bench_step env k B e) \<and>
    (e = AdapterTurn \<longrightarrow> bn_read (bench_step env k B e) = Suc (bn_read B))"
proof (cases "proxy_event B e")
  case (Some x)
  have "a < length (px_wire (system_step k (bn_proxy B) x)) \<and> px_wire (system_step k (bn_proxy B) x) ! a = m"
    using assms(1) wire_grows [of "bn_proxy B" k x] by (auto simp: unread_def prefix_def nth_append)
  then show ?thesis using assms(1) Some by (cases e) (auto simp: bench_step_if unread_def)
next
  case None
  then show ?thesis using assms
    by (auto simp: bench_step_if adapter_turn_def unread_def split: prod.split)
qed

lemma fake_turn_out:
  assumes "fake_turn env v A = (B, e)" and "fake_ok A"
  shows "prefix (fk_out A) (fk_out B)"
proof (cases "fk_out B = fk_out A")
  case False
  then obtain n c where n: "in_i64 n" "fake_request env n c v A = (B, e)"
    using assms(1) by (auto simp: fake_turn_def as_i64_Some split: if_splits option.splits bind_splits)
  then show ?thesis using fake_request_ok [OF assms(2) n(1), of c env v] by (simp add: arm_def)
qed simp

lemma unsaid_step:
  assumes "unsaid c u B" and "bench_ok B"
  shows "(\<exists>spawn run. bn_said (bench_step env k B e) = Suc c \<and> e = AdapterHeard spawn run \<and> bn_said B = c) \<or>
    unsaid c u (bench_step env k B e) \<and> bn_said B \<le> bn_said (bench_step env k B e) \<and>
    ((\<exists>spawn run. e = AdapterHeard spawn run) \<longrightarrow> bn_said (bench_step env k B e) = Suc (bn_said B))"
proof (cases e)
  case AdapterTurn
  obtain A o1 where turn: "fake_turn env (message_to_value (px_wire (bn_proxy B) ! bn_read B)) (bn_adapter B) = (A, o1)"
    by fastforce
  have "prefix (fk_out (bn_adapter B)) (fk_out A)" using fake_turn_out [OF turn] assms(2) by (simp add: bench_ok_def)
  then show ?thesis using assms(1) AdapterTurn turn
    by (auto simp: bench_step_if adapter_turn_def unsaid_def prefix_def nth_append)
qed (use assms in \<open>auto simp: bench_step_if unsaid_def\<close>)

text \<open>Both are progress under fair turns of the adapter and of the reader of its output.\<close>

interpretation reads: fair_progress "bench_step env k" "\<lambda>B. bn_ended B = None" "\<lambda>e. e = AdapterTurn" "unread a m"
  "\<lambda>B. bn_read B = Suc a" "\<lambda>B. Suc a - bn_read B" for env k a m
proof (unfold_locales, goal_cases)
  case (1 s e)
  then show ?case using unread_step [of a m s env k e] by auto
next
  case (2 s e)
  then show ?case using unread_step [of a m s env k e] by (auto simp: unread_def)
qed

interpretation hears: fair_progress "bench_step env k" bench_ok "\<lambda>e. \<exists>spawn run. e = AdapterHeard spawn run" "unsaid c u"
  "\<lambda>B. bn_said B = Suc c" "\<lambda>B. Suc c - bn_said B" for env k c u
proof (unfold_locales, goal_cases)
  case (1 s e)
  then show ?case using unsaid_step [of c u s env k e] by auto
next
  case (2 s e)
  then show ?case using unsaid_step [of c u s env k e] by (auto simp: unsaid_def)
qed

text \<open>An answer among new trees has a place after those that were there before.\<close>

lemma new_answer:
  assumes "fake_answers B = fake_answers A @ [n]" and "prefix (fk_out A) (fk_out B)" and "fake_ok B"
  shows "\<exists>c y. length (fk_out A) \<le> c \<and> c < length (fk_out B) \<and>
    value_to_message (fk_out B ! c) = Some (Response y) \<and> rs_request_seq y = n"
proof -
  obtain new where new: "fk_out B = fk_out A @ new" using assms(2) by (auto simp: prefix_def)
  then have "List.map_filter answer_to new = [n]"
    using assms(1) by (simp add: fake_answers_def List.map_filter_def)
  then have "n \<in> set (List.map_filter answer_to new)" by simp
  then obtain v where v: "v \<in> set new" "answer_to v = Some n" by (auto simp: List.map_filter_def)
  then obtain d where d: "d < length new" "new ! d = v" by (auto simp: in_set_conv_nth)
  have "\<forall>x \<in> set (fk_out B). value_to_message x \<noteq> None"
    using assms(3) by (auto simp: fake_ok_def numbered_messages_def in_set_conv_nth)
  then obtain m where m: "value_to_message v = Some m" using new v(1) by auto
  then obtain y where "m = Response y" "rs_request_seq y = n"
    using answer_message [OF m] v(2) by (cases m) (auto simp: List.map_filter_def)
  then show ?thesis using new d m by (intro exI [of _ "length (fk_out A) + d"]) (simp add: nth_append)
qed

lemma scripted_adapter_answers:
  assumes runs: "\<And>t. bn_ended (bench_at env k g t) = None"
    and turns: "\<And>t. \<exists>m. t \<le> m \<and> g m = AdapterTurn"
    and heard: "\<And>t. \<exists>m. t \<le> m \<and> (\<exists>spawn run. g m = AdapterHeard spawn run)"
    and wire: "px_wire (bn_proxy (bench_at env k g (Suc t))) = px_wire (bn_proxy (bench_at env k g t)) @ [Request q]"
  shows "\<exists>t' y spawn run. t < t' \<and> proxy_event (bench_at env k g t') (g t') = Some (AdapterSays (Response y) spawn run) \<and>
    rs_request_seq y = rq_seq q"
proof -
  let ?s = "bench_at env k g" and ?a = "length (px_wire (bn_proxy (bench_at env k g t)))"
  have run: "\<And>n. ?s (Suc n) = bench_step env k (?s n) (g n)" by simp
  have ok: "\<And>n. bench_ok (?s n)" using bench_always_ok [of env k g] runs by blast
  have "px_wire (bn_proxy (?s (Suc t))) \<noteq> px_wire (bn_proxy (?s t))" using wire by simp
  then have "proxy_event (?s t) (g t) \<noteq> None" by (auto simp: bench_proxy split: option.splits)
  then have "bn_read (?s (Suc t)) = bn_read (?s t)" by (auto simp: bench_step_if)
  then have "unread ?a (Request q) (?s (Suc t))"
    using ok [of t] wire unfolding unread_def bench_ok_def by (simp only: length_append_singleton nth_append_length lessI)
  then obtain m where m: "Suc t \<le> m" "unread ?a (Request q) (?s m)" "bn_read (?s (Suc m)) = Suc ?a"
    using reads.first_goal [where s = ?s and f = g, OF run runs turns] by blast
  then have turn: "g m = AdapterTurn" "bn_read (?s m) = ?a"
    using unread_step [OF m(2) runs, of env k "g m"] run [of m] by (auto simp: unread_def)
  obtain A o1 where A: "fake_turn env (message_to_value (Request q)) (bn_adapter (?s m)) = (A, o1)" by fastforce
  have next_bench: "?s (Suc m) = (?s m)\<lparr>bn_adapter := A, bn_ended := o1, bn_read := Suc ?a\<rparr>"
    using turn m(2) runs [of m] A by (simp add: bench_step_if adapter_turn_def unread_def del: message_to_value.simps)
  then have "o1 = None" using runs [of "Suc m"] by simp
  then have "fake_ok A \<and> prefix (fk_out (bn_adapter (?s m))) (fk_out A) \<and>
      fake_answers A = fake_answers (bn_adapter (?s m)) @ [rq_seq q]"
    using fake_turn_goes [of env "Request q" "bn_adapter (?s m)" A] A ok [of m] by (simp add: bench_ok_def del: message_to_value.simps)
  then obtain c y where c: "length (fk_out (bn_adapter (?s m))) \<le> c" "c < length (fk_out A)"
      "value_to_message (fk_out A ! c) = Some (Response y)" "rs_request_seq y = rq_seq q"
    using new_answer by blast
  then have "unsaid c (fk_out A ! c) (?s (Suc m))"
    using next_bench ok [of m] by (simp add: unsaid_def bench_ok_def)
  then obtain t' where t': "Suc m \<le> t'" "unsaid c (fk_out A ! c) (?s t')" "bn_said (?s (Suc t')) = Suc c"
    using hears.first_goal [where s = ?s and f = g, OF run ok heard] by blast
  then obtain spawn run' where said: "g t' = AdapterHeard spawn run'" "bn_said (?s t') = c"
    using unsaid_step [OF t'(2) ok, of env k "g t'"] run [of t'] by (auto simp: unsaid_def)
  then have "proxy_event (?s t') (g t') = Some (AdapterSays (Response y) spawn run')"
    using t'(2) c(3) by (simp add: unsaid_def)
  then show ?thesis using t'(1) m(1) c(4) by (intro exI [of _ t'] exI [of _ y]) auto
qed

section \<open>The property\<close>

text \<open>C9: The whole chain of the end-to-end tests answers. A proxy with the adapter of the tests behind it,
  in any schedule in which the loop, the two writers, the adapter and the reader of its output keep
  getting turns: a request of a control client is answered with the number it used, as long as the proxy,
  the client's connection and the adapter are up. Nothing is assumed of what the adapter says.\<close>

theorem fake_request_answered:
  assumes ids: "\<And>t. last_id (bn_proxy (bench_at env k g t)) < 2 ^ 64 - 1"
    and numbers: "\<And>t. ss_backend_seq (mux_session (bn_proxy (bench_at env k g t))) < i64_max"
    and turns: "\<And>t e. e \<in> {ProxyTurn TakeOp, ProxyTurn TakeValue, ProxyTurn WriteAdapter, ProxyTurn (WriteClient i), AdapterTurn} \<Longrightarrow>
      \<exists>m. t \<le> m \<and> g m = e"
    and heard: "\<And>t. \<exists>m. t \<le> m \<and> (\<exists>spawn run. g m = AdapterHeard spawn run)"
    and runs: "\<And>t. bn_ended (bench_at env k g t) = None"
    and up: "\<And>t. t0 \<le> t \<Longrightarrow> serving i (bn_proxy (bench_at env k g t))"
    and there: "hm_get (px_clients (bn_proxy (bench_at env k g t0))) i = Some p" "pt_reading p"
    and says: "g t0 = ProxyTurn (ClientSays i (Request r))" "in_i64 (rq_seq r)" "rq_command r \<noteq> snapshot_command"
      "be_plugin (pc_env k) = None \<or> rq_command r \<noteq> plugin_info_command"
  shows "\<exists>t. answered i (rq_seq r) (length (pt_inbox p)) (message_to_value (Request r)) (bn_proxy (bench_at env k g t))"
proof -
  obtain f where f: "as_schedule env k g f" using schedule_exists by blast
  note same = schedule_runs [OF f]
  have event: "f t = x" if "proxy_event (bench_at env k g t) (g t) = Some x" for t x
  proof -
    have "case proxy_event (bench_at env k g t) (g t) of Some y \<Rightarrow> f t = y
      | None \<Rightarrow> (\<exists>j. f t = WriteClient j \<and> hm_get (px_clients (bn_proxy (bench_at env k g t))) j = None)"
      using f unfolding as_schedule_def by blast
    then show ?thesis using that by simp
  qed
  have turn: "\<exists>m. t \<le> m \<and> f m = x" if own: "\<not> of_adapter x" "ProxyTurn x \<in> {ProxyTurn TakeOp, ProxyTurn TakeValue,
      ProxyTurn WriteAdapter, ProxyTurn (WriteClient i), AdapterTurn}" for t x
  proof -
    obtain m where m: "t \<le> m" "g m = ProxyTurn x" using turns [OF own(2)] by blast
    then have "f m = x" using event [of m x] own(1) by simp
    then show ?thesis using m(1) by blast
  qed
  have adapter: "\<exists>t' y spawn run. t < t' \<and> f t' = AdapterSays (Response y) spawn run \<and> rs_request_seq y = rq_seq q"
    if "px_wire (after_turns k f (Suc t)) = px_wire (after_turns k f t) @ [Request q]" for t q
  proof -
    have "px_wire (bn_proxy (bench_at env k g (Suc t))) = px_wire (bn_proxy (bench_at env k g t)) @ [Request q]"
      using that unfolding same .
    from scripted_adapter_answers [where g = g, OF runs turns heard this] show ?thesis using event by blast
  qed
  have "f t0 = ClientSays i (Request r)" using event [of t0] says(1) by simp
  from request_answered [where k = k and f = f and i = i and r = r and p = p and ?t0.0 = t0, unfolded same,
      OF ids numbers turn turn turn turn _ up there this says(2-4)]
  show ?thesis using adapter unfolding same by simp
qed

text \<open>A schedule that starts with some turns and then repeats others for ever.\<close>

definition turns_of :: "'e list \<Rightarrow> 'e list \<Rightarrow> nat \<Rightarrow> 'e" where
  "turns_of start cycle t = (if t < length start then start ! t else cycle ! ((t - length start) mod length cycle))"

lemma turns_of_fair:
  assumes "e \<in> set cycle"
  shows "\<exists>m. t \<le> m \<and> turns_of start cycle m = e"
proof -
  obtain j where j: "j < length cycle" "cycle ! j = e" using assms by (auto simp: in_set_conv_nth)
  have "(length cycle * t + j) mod length cycle = j" using j(1) by simp
  moreover have "t \<le> length cycle * t" using j(1) by (cases "length cycle") simp_all
  then have "t \<le> length start + (length cycle * t + j)" by linarith
  ultimately show ?thesis using j(2) by (intro exI [of _ "length start + (length cycle * t + j)"]) (simp add: turns_of_def)
qed

lemma bench_at_start:
  "t \<le> length start \<Longrightarrow> bench_at env k (turns_of start cycle) t = foldl (bench_step env k) bench_start (take t start)"
proof (induction t)
  case (Suc t)
  then have "take (Suc t) start = take t start @ [turns_of start cycle t]"
    by (simp add: turns_of_def take_Suc_conv_app_nth)
  then show ?case using Suc by simp
qed simp

lemma bench_at_settled:
  assumes "cycle \<noteq> []"
    and "list_all (\<lambda>e. bench_step env k (foldl (bench_step env k) bench_start start) e = foldl (bench_step env k) bench_start start) cycle"
  shows "bench_at env k (turns_of start cycle) (length start + d) = foldl (bench_step env k) bench_start start"
proof (induction d)
  case 0
  show ?case using bench_at_start [of "length start" start env k cycle] by simp
next
  case (Suc d)
  have "turns_of start cycle (length start + d) \<in> set cycle" using assms(1) by (simp add: turns_of_def)
  then show ?case using Suc assms(2) by (simp add: list_all_iff)
qed

text \<open>So what holds after each part of the start holds for ever.\<close>

lemma bench_at_always:
  assumes "cycle \<noteq> []"
    and "list_all (\<lambda>e. bench_step env k (foldl (bench_step env k) bench_start start) e = foldl (bench_step env k) bench_start start) cycle"
    and "list_all (\<lambda>t. P (foldl (bench_step env k) bench_start (take t start))) [t0..<Suc (length start)]"
    and "t0 \<le> t" "t0 \<le> length start"
  shows "P (bench_at env k (turns_of start cycle) t)"
proof (cases "t \<le> length start")
  case True
  then have "t \<in> set [t0..<Suc (length start)]" using assms(4) unfolding set_upt by simp
  then have "P (foldl (bench_step env k) bench_start (take t start))" using assms(3) unfolding list_all_iff by blast
  then show ?thesis using bench_at_start [OF True, of env k cycle] by simp
next
  case False
  then have "bench_at env k (turns_of start cycle) t = foldl (bench_step env k) bench_start start"
    using bench_at_settled [OF assms(1,2), of "t - length start"] by simp
  moreover have "P (foldl (bench_step env k) bench_start (take (length start) start))"
    using assms(3,5) unfolding list_all_iff by simp
  ultimately show ?thesis by simp
qed

definition no_spawn :: "child_spawn_plan \<Rightarrow> string + child_spawn_result" where
  "no_spawn plan = Inl []"

definition no_terminal :: "terminal_command \<Rightarrow> string + nat" where
  "no_terminal cmd = Inl []"

definition bench_turns :: "bench_event list" where
  "bench_turns =
     [ProxyTurn (Connects Control), ProxyTurn TakeOp, ProxyTurn (ClientSays 1 (Request threads_request)), ProxyTurn TakeOp,
      ProxyTurn WriteAdapter, AdapterTurn, AdapterHeard no_spawn no_terminal, ProxyTurn TakeValue, ProxyTurn (WriteClient 1)]"

definition bench_cycle :: "bench_event list" where
  "bench_cycle =
     [ProxyTurn TakeOp, ProxyTurn TakeValue, ProxyTurn WriteAdapter, ProxyTurn (WriteClient 1), AdapterTurn,
      AdapterHeard no_spawn no_terminal]"

lemma bench_settles:
  "list_all (\<lambda>e. bench_step demo_fake demo_proxy (foldl (bench_step demo_fake demo_proxy) bench_start bench_turns) e =
     foldl (bench_step demo_fake demo_proxy) bench_start bench_turns) bench_cycle"
  by code_simp

lemma bench_facts:
  "list_all (\<lambda>t. (\<lambda>B. last_id (bn_proxy B) \<le> 1 \<and> ss_backend_seq (mux_session (bn_proxy B)) \<le> 1 \<and> bn_ended B = None)
     (foldl (bench_step demo_fake demo_proxy) bench_start (take t bench_turns))) [0..<Suc (length bench_turns)]"
  "list_all (\<lambda>t. (\<lambda>B. serving 1 (bn_proxy B)) (foldl (bench_step demo_fake demo_proxy) bench_start (take t bench_turns)))
     [2..<Suc (length bench_turns)]"
  "map_option (\<lambda>p. (pt_reading p, pt_inbox p))
     (hm_get (px_clients (bn_proxy (foldl (bench_step demo_fake demo_proxy) bench_start (take 2 bench_turns)))) 1) = Some (True, [])"
  by code_simp+

theorem fake_request_answered_witness:
  "\<exists>t. answered 1 7 0 (message_to_value (Request threads_request))
     (bn_proxy (bench_at demo_fake demo_proxy (turns_of bench_turns bench_cycle) t))"
proof -
  let ?g = "turns_of bench_turns bench_cycle"
  have cycle: "bench_cycle \<noteq> []" and start: "length bench_turns = 9" by (simp_all add: bench_cycle_def bench_turns_def)
  note small = bench_at_always [OF cycle bench_settles bench_facts(1)]
  note served = bench_at_always [OF cycle bench_settles bench_facts(2)]
  have turns: "\<exists>m. t \<le> m \<and> ?g m = e" if "e \<in> {ProxyTurn TakeOp, ProxyTurn TakeValue, ProxyTurn WriteAdapter, ProxyTurn (WriteClient 1), AdapterTurn}" for t e
    using that by (intro turns_of_fair) (auto simp: bench_cycle_def)
  have heard: "\<exists>m. t \<le> m \<and> (\<exists>spawn run. ?g m = AdapterHeard spawn run)" for t
    using turns_of_fair [of "AdapterHeard no_spawn no_terminal" bench_cycle t bench_turns] by (auto simp: bench_cycle_def)
  obtain p where p: "hm_get (px_clients (bn_proxy (bench_at demo_fake demo_proxy ?g 2))) 1 = Some p" "pt_reading p" "pt_inbox p = []"
    using bench_facts(3) bench_at_start [of 2 bench_turns] start by auto
  have says: "?g 2 = ProxyTurn (ClientSays 1 (Request threads_request))" by (simp add: turns_of_def bench_turns_def)
  have ids: "last_id (bn_proxy (bench_at demo_fake demo_proxy ?g t)) < 2 ^ 64 - 1"
      and numbers: "ss_backend_seq (mux_session (bn_proxy (bench_at demo_fake demo_proxy ?g t))) < i64_max"
      and runs: "bn_ended (bench_at demo_fake demo_proxy ?g t) = None" for t
    using small [of t] by (simp_all add: i64_max_def)
  have up: "serving 1 (bn_proxy (bench_at demo_fake demo_proxy ?g t))" if "2 \<le> t" for t
    using served [of t] that start by simp
  show ?thesis
    using fake_request_answered [OF ids numbers turns heard runs up p(1,2) says] p(3)
    by (simp add: threads_request_def demo_proxy_def snapshot_command_def plugin_info_command_def)
qed

end
