(* ===== verification/Spec2Isabelle.thy ===== *)
theory Spec2Isabelle imports DapProperties MuxProperties InstProperties RouteProperties
  StopProperties ClientProperties ProxyProperties ViewProperties SystemProperties
  ProxyBackend SystemTyped ProxyServe ProxyOrder LifeProperties FakeSystem begin

text \<open>
  dappy-core: a proxy for the Debug Adapter Protocol.

  The program. \<open>dap-proxy\<close> sits between an editor and a debug adapter. It picks the adapter from a
  plugin manifest, starts it, and runs a multiplexer between the adapter and its clients: one editor
  on standard input and output, and any number of control clients on a TCP port. A headless proxy has
  no editor and drives the adapter itself through a control client. An adapter may ask for child
  sessions, each of which becomes a headless proxy of its own. Every proxy leaves a session file by
  which others find its control port.

  The theories, in the order of the code. The stated properties are numbered C1 to C40. Most
  stand in the theories named \<open>...Properties\<close>; those of the whole proxy under a schedule stand at the end of
  the theory that develops their argument (\<open>SystemTyped\<close>, \<open>ProxyExit\<close>, \<open>ProxyTasks\<close>, \<open>ProxyAnswer\<close>,
  \<open>ProxyOrder\<close>, \<open>FakeSystem\<close>).

  \<^item> \<open>DapPrelude\<close>: ranges of machine integers, association lists with hash map operations, and four
    locales: runs of a step function with an invariant, entries filed under a key, lookups after
    insertions, and progress to a goal under a fair schedule. The theories of the components interpret
    them on their own definitions.
  \<^item> \<open>DapText\<close>, \<open>DapJson\<close>: UTF-8 text as lists of bytes (trimming, splitting, decimal numbers, paths,
    lines, character boundaries) and JSON trees.
  \<^item> \<open>DapMessage\<close>, \<open>DapTransport\<close>, \<open>DapProperties\<close> (\<open>crates/dap-protocol\<close>): typed messages, their JSON
    trees, the framing with \<open>Content-Length\<close>, the channel.
  \<^item> \<open>MuxRemapper\<close>, \<open>MuxBreakpoints\<close>, \<open>MuxCache\<close>, \<open>MuxSession\<close>, \<open>MuxRouting\<close>, \<open>MuxGuarantees\<close>,
    \<open>MuxTyped\<close>, \<open>MuxProperties\<close> (\<open>crates/protocol-mux\<close>): sequence numbers, the breakpoint tracker, the late-join
    cache, and the session loop as a step function on a record. \<open>MuxRouting\<close> states the abstract
    table from outstanding numbers to requesters that the loop refines, \<open>MuxGuarantees\<close> what every
    reachable session keeps, \<open>MuxTyped\<close> that every tree a session holds or sends is a message.
  \<^item> \<open>InstManager\<close>, \<open>InstStore\<close>, \<open>InstProperties\<close> (\<open>crates/instance-manager\<close>): the instances of a
    process with their lifecycle, and the directory of session files.
  \<^item> \<open>PluginTypes\<close>, \<open>PluginTemplate\<close>, \<open>PluginLaunch\<close>, \<open>PluginLoader\<close> (\<open>crates/dap-plugin-api\<close>): manifests,
    placeholders, launch and attach arguments, the loaders of directories.
  \<^item> \<open>GatewayRoute\<close> (\<open>crates/protocol-gateway\<close>), \<open>CoreRegistry\<close>, \<open>CoreEngine\<close>, \<open>RouteProperties\<close>
    (\<open>crates/dap-core\<close>: \<open>gateway.rs\<close>, \<open>registry.rs\<close>, \<open>target_registry.rs\<close>, \<open>router.rs\<close>, \<open>engine.rs\<close>):
    which adapter a launch gets, and the session the engine registers.
  \<^item> \<open>CoreState\<close>, \<open>CoreStop\<close>, \<open>CoreMemory\<close>, \<open>StopProperties\<close>: the execution state, capabilities, data
    watches, bounds on responses, the stop policy, breakpoint resolution, and the memory codec.
  \<^item> \<open>CoreClient\<close>, \<open>CoreInit\<close>, \<open>CoreChild\<close>, \<open>ClientProperties\<close>: the control client
    (\<open>control_client.rs\<close>), the start of a session (\<open>session_init.rs\<close>) and child sessions
    (\<open>child_session/\<close>).
  \<^item> \<open>CoreBridge\<close>, \<open>ProxyMain\<close>, \<open>ProxyProperties\<close>: what the bridges do with each message
    (\<open>mux_bridge.rs\<close>, \<open>proxy_plugin.rs\<close>, \<open>reverse_request.rs\<close>, \<open>rsp_target.rs\<close>, \<open>adapter_guard.rs\<close>) and
    the executable (\<open>crates/dap-proxy\<close>): options, setup, session file, child processes.
  \<^item> \<open>ProxySystem\<close>, \<open>ProxyTurns\<close>, \<open>SystemProperties\<close>: the whole proxy as one system, the tasks of
    \<open>mux_bridge.rs\<close> around the loop of the multiplexer with the queues between them. An event is one
    turn of a task or something the other end does, so a list of events is a schedule.
    \<open>SystemTyped\<close> types all queues of the system, and \<open>ProxyExit\<close> shows that the bridge of a client that
    has left comes to its end under every fair endless schedule, in two stages with a measure each.
    \<open>ProxyAnswer\<close> follows a request to the adapter and its answer back in the same way, in five stages.
    \<open>ProxyOrder\<close> records what the readers of all clients hand over, in one list, and shows that the
    adapter gets its requests in this order.
    \<open>ProxyTasks\<close> has the tasks from their start to their result: the reader of a client with its idle
    timeout, attaching, and the proxy with an editor from its listener to its shutdown. \<open>ProxyServe\<close>
    has the outer functions: the whole run with its result, the accept loop and the plain request.
  \<^item> \<open>ProxyLife\<close>, \<open>LifeProperties\<close> (\<open>main.rs\<close>, \<open>proxy.rs\<close>, \<open>rsp_target.rs\<close>, \<open>adapter_guard.rs\<close>,
    \<open>target_guard.rs\<close>, \<open>child_supervisor.rs\<close>): a whole process of \<open>dap-proxy\<close> in either mode, from its
    command line to its exit. The state is the set of processes it started that still run, the directory of
    session files and the ready lines; a process is named by its number in the order of the starts. Each
    call of the system is a field of \<open>life_env\<close>, so the theorems speak of every way it may fail.
  \<^item> \<open>ProxyBackend\<close> (\<open>proxy.rs\<close>, \<open>builtin_adapter.rs\<close>, \<open>client.rs\<close>, \<open>parent_watch.rs\<close>,
    \<open>child_supervisor.rs\<close>): which process is started or endpoint connected to, the transparent proxy,
    the polls of the parent watch, and how the parent of a child session learns the child's endpoint.
  \<^item> \<open>CoreRender\<close>, \<open>CoreSource\<close>, \<open>ViewProperties\<close>: the text views (\<open>render.rs\<close>, \<open>terminal_style.rs\<close>) and
    the source listing (\<open>source_view.rs\<close>).
  \<^item> \<open>FakeAdapter\<close>, \<open>FakeProperties\<close>, \<open>FakeSystem\<close> (\<open>tests/fixtures/fake-dap-adapter\<close>): the scripted adapter of the
    end-to-end tests, message by message and over the bytes of its input, what it keeps, a session the
    control client starts against it, and the proxy with this adapter behind it under every schedule.

  Conventions. A Rust struct is a record with a prefix of its own on the fields, an enum a datatype.
  A \<open>Result\<close> is a sum with the error on the left; a panic is \<open>None\<close> or an outcome of its own. A
  \<open>HashMap\<close> is an association list with at most one entry per key, since only the lookups matter
  where the code iterates over none; a \<open>BTreeMap\<close> and a JSON object keep their order. Sequence
  numbers are integers cut to 64 bits, as in a release build. A mutex or a task that owns its state is
  the atomicity of one operation, and the tokio scheduler is the order in which the inputs come.

  Parameters. What is not the repository's own code is an argument: the text of a JSON value, JSON
  pointers and base64 (crates), YAML, the clock, fresh identifiers, the file system and the
  environment (the record \<open>host\<close>), processes and ports, and what arrives on a connection (a list with
  the points where a deadline passes, the stream ends or fails). What a property needs of them is a
  premise of it.

  Termination. There is no fuel: loops over input are structural, or functions with a measure (the
  text scanners, the framing reader, the pattern matcher, the highlighter). The loops of the client
  that may wait forever end with the list of arrivals, and the value returned says whether the wanted
  message came.

  What is shown. For the multiplexer: each request goes upstream under a fresh number and its response
  comes back once, to the client that asked, under the number it used; events reach every client; the
  state is consistent in every reachable session. For the transport: what is written is read, and each
  malformed input has its outcome. For the instances and the store: the lifecycle, the round trips, and
  which imports fail. For routing: the result equals a direct specification. For the client: no wait
  loses a message, the session start completes against a conforming adapter, and where the plain
  request does lose messages. For the bridges and the executable: reverse requests are answered, client
  settings win over defaults, generations of children end, the session file lives as long as the
  proxy. For the whole proxy, under every schedule: what the adapter and each client see of it, a
  request's way to the adapter and back, that the adapter gets the requests in the order in which they
  were read and under the numbers 1, 2, 3, that no task hands another one something it cannot decode, that
  every request of a control client is answered if the adapter answers, that the bridge of a client that
  leaves ends, and that the adapter is told last when the editor has left. For
  the process: what still runs and which file is left after every kind of exit. For the views: the
  coloured listing is the plain one with escapes. For the adapter of the tests: it understands what the
  proxy's side writes, answers each request once and in order, is understood in turn, and the client's
  session start against it ends with its capabilities and the stop at entry, and with it behind the
  proxy a request of a control client is answered under every fair schedule.

  Not modelled: the system calls behind the handles of processes and sockets (that a process is
  started, killed or never answers is; that the kill of a process takes effect is assumed), the delivery
  of signals and the length of timeouts (that one came or passed is an input), argument parsing, logging
  and the derived serializers of crates: they are input and output or code of other crates. The built-in
  gdb adapter is another repository's crate. The crate roots only declare and re-export modules, and the
  unit tests inside the source files are not part of the program.

  The bounds: properties of runs assume that fewer than 2^63 requests were numbered, which is where the
  64-bit counters would wrap.
\<close>

end
